(* ===== verification/HookPrelude.thy ===== *)
theory HookPrelude
  imports Main "HOL-Library.Char_ord" "HOL-Library.List_Lexorder" "HOL-Library.Sublist"
    "HOL-Library.AList"
begin

text \<open>
  Shared vocabulary of the development: Go errors as values (sentinels, wrapping, the unwrapping
  tests \<open>errors.Is\<close> and \<open>errors.As\<close>), the functions of Go's \<open>strings\<close> package the
  service uses, the iteration over a Go map (whose order the language leaves open), and the record
  of everything a run takes from its surroundings (clock, UUID generator, statement failures,
  collation). Go strings are byte strings, so they are \<^typ>\<open>string\<close>.
\<close>

section \<open>Collections of facts\<close>

named_theorems go_simps \<open>unfolding rules for the small Go library functions\<close>
named_theorems err_simps \<open>how errors are built and inspected\<close>

section \<open>Go errors\<close>

text \<open>
  One constructor per package level error variable of the service, named after its package.
  Two variables of different packages are different values even when their texts agree.
\<close>

datatype sentinel =
    storage_ErrNotFound | storage_ErrDuplicateKey | storage_ErrForeignKeyViolation
  | types_ErrInvalidGroupType | types_ErrInvalidRole
  | groups_ErrGroupNotFound | groups_ErrInvalidGroupName | groups_ErrDuplicateGroup
  | groups_ErrInvalidGroupType | groups_ErrInvalidTenant | groups_ErrInternalServerError
  | groups_ErrUserAlreadyInGroup | groups_ErrInvalidGroupID | groups_ErrInvalidUserID
  | groups_ErrStreamInterrupted | groups_ErrUnauthorizedStream
  | authz_ErrGroupNotFound | authz_ErrAppAlreadyExistsInGroup | authz_ErrAppDoesNotExistInGroup
  | authz_ErrAppDoesNotExist | authz_ErrInternalServerError | authz_ErrInvalidGroupID
  | hooks_ErrTooBusy | hooks_errTenantInternal
  | tenants_ErrNotMember
  | authorization_ErrInvalidAuthModel
  | sql_ErrNoRows
  | cmd_errShutdownSignal | http_ErrServerClosed | grpc_ErrServerStopped | context_Canceled

primrec sentinel_text :: "sentinel \<Rightarrow> string" where
  "sentinel_text storage_ErrNotFound = ''resource not found''"
| "sentinel_text storage_ErrDuplicateKey = ''duplicate key violation''"
| "sentinel_text storage_ErrForeignKeyViolation = ''foreign key violation''"
| "sentinel_text types_ErrInvalidGroupType = ''invalid group type''"
| "sentinel_text types_ErrInvalidRole = ''invalid role''"
| "sentinel_text groups_ErrGroupNotFound = ''group not found''"
| "sentinel_text groups_ErrInvalidGroupName = ''invalid group name''"
| "sentinel_text groups_ErrDuplicateGroup = ''group already exists''"
| "sentinel_text groups_ErrInvalidGroupType = ''invalid group type''"
| "sentinel_text groups_ErrInvalidTenant = ''invalid tenant''"
| "sentinel_text groups_ErrInternalServerError = ''internal server error''"
| "sentinel_text groups_ErrUserAlreadyInGroup = ''user already in group''"
| "sentinel_text groups_ErrInvalidGroupID = ''invalid group id''"
| "sentinel_text groups_ErrInvalidUserID = ''invalid user id''"
| "sentinel_text groups_ErrStreamInterrupted = ''stream interrupted''"
| "sentinel_text groups_ErrUnauthorizedStream = ''unauthorized stream access''"
| "sentinel_text authz_ErrGroupNotFound = ''group not found''"
| "sentinel_text authz_ErrAppAlreadyExistsInGroup = ''app already exists in group''"
| "sentinel_text authz_ErrAppDoesNotExistInGroup = ''app does not exist in group''"
| "sentinel_text authz_ErrAppDoesNotExist = ''app does not exist''"
| "sentinel_text authz_ErrInternalServerError = ''internal server error''"
| "sentinel_text authz_ErrInvalidGroupID = ''invalid group id''"
| "sentinel_text hooks_ErrTooBusy = ''worker pool is full''"
| "sentinel_text hooks_errTenantInternal = ''tenant service internal error''"
| "sentinel_text tenants_ErrNotMember = ''user is not a member of the tenant''"
| "sentinel_text authorization_ErrInvalidAuthModel = ''invalid authorization model schema''"
| "sentinel_text sql_ErrNoRows = ''sql: no rows in result set''"
| "sentinel_text cmd_errShutdownSignal = ''shutdown signal received''"
| "sentinel_text http_ErrServerClosed = ''http: Server closed''"
| "sentinel_text grpc_ErrServerStopped = ''grpc: the server has been stopped''"
| "sentinel_text context_Canceled = ''context canceled''"

text \<open>
  An error is a sentinel, a PostgreSQL error with its SQLSTATE and text, a fresh error
  (\<open>errors.New\<close>, or \<open>fmt.Errorf\<close> with \<open>%v\<close>, which keeps the text only), or
  \<open>fmt.Errorf\<close> with \<open>%w\<close>, which keeps the wrapped error reachable.
\<close>

datatype error =
    Sentinel sentinel
  | PgError string string
  | ErrorNew string
  | Wrapped string error

type_synonym 'a res = "error + 'a"

fun Error :: "error \<Rightarrow> string" where
  "Error (Sentinel s) = sentinel_text s"
| "Error (PgError code msg) = msg"
| "Error (ErrorNew msg) = msg"
| "Error (Wrapped msg e) = msg"

fun errors_Is :: "error \<Rightarrow> sentinel \<Rightarrow> bool" where
  "errors_Is (Sentinel s) t = (s = t)"
| "errors_Is (PgError code msg) t = False"
| "errors_Is (ErrorNew msg) t = False"
| "errors_Is (Wrapped msg e) t = errors_Is e t"

fun errors_As_pg :: "error \<Rightarrow> string option" where
  "errors_As_pg (Sentinel s) = None"
| "errors_As_pg (PgError code msg) = Some code"
| "errors_As_pg (ErrorNew msg) = None"
| "errors_As_pg (Wrapped msg e) = errors_As_pg e"

definition Errorf_v :: "string \<Rightarrow> error \<Rightarrow> error" where
  "Errorf_v context e = ErrorNew (context @ '': '' @ Error e)"

definition Errorf_w :: "string \<Rightarrow> error \<Rightarrow> error" where
  "Errorf_w context e = Wrapped (context @ '': '' @ Error e) e"

lemma errors_Is_Errorf_v [simp, err_simps]: "\<not> errors_Is (Errorf_v c e) s"
  by (simp add: Errorf_v_def)

lemma errors_Is_Errorf_w [simp, err_simps]: "errors_Is (Errorf_w c e) s = errors_Is e s"
  by (simp add: Errorf_w_def)

lemma errors_As_pg_Errorf [simp, err_simps]:
  "errors_As_pg (Errorf_v c e) = None" "errors_As_pg (Errorf_w c e) = errors_As_pg e"
  by (simp_all add: Errorf_v_def Errorf_w_def)

lemma Errorf_v_neq_Sentinel [simp]: "Errorf_v c e \<noteq> Sentinel s" "Sentinel s \<noteq> Errorf_v c e"
  by (simp_all add: Errorf_v_def)

section \<open>Results\<close>

definition is_ok :: "'a res \<Rightarrow> bool" where
  "is_ok r = (case r of Inl _ \<Rightarrow> False | Inr _ \<Rightarrow> True)"

lemma is_ok_simps [simp]: "\<not> is_ok (Inl e)" "is_ok (Inr x)"
  by (simp_all add: is_ok_def)

lemma is_ok_iff: "is_ok r \<longleftrightarrow> (\<exists>x. r = Inr x)"
  by (cases r) simp_all

section \<open>Go strings\<close>

definition HasPrefix :: "string \<Rightarrow> string \<Rightarrow> bool" where
  "HasPrefix s p = (length p \<le> length s \<and> take (length p) s = p)"

definition TrimPrefix :: "string \<Rightarrow> string \<Rightarrow> string" where
  "TrimPrefix s p = (if HasPrefix s p then drop (length p) s else s)"

fun Split :: "string \<Rightarrow> char \<Rightarrow> string list" where
  "Split [] sep = [[]]"
| "Split (c # cs) sep =
     (if c = sep then [] # Split cs sep
      else (case Split cs sep of [] \<Rightarrow> [[c]] | w # ws \<Rightarrow> (c # w) # ws))"

text \<open>White space and letters are the ASCII ones: the Unicode spaces \<open>TrimSpace\<close> and \<open>Fields\<close> also
  know, and the Unicode letters of \<open>ToLower\<close>, are left alone.\<close>

definition is_space :: "char \<Rightarrow> bool" where
  "is_space c = (c \<in> {CHR 0x09, CHR 0x0A, CHR 0x0B, CHR 0x0C, CHR 0x0D, CHR 0x20})"

definition TrimSpace :: "string \<Rightarrow> string" where
  "TrimSpace s = rev (dropWhile is_space (rev (dropWhile is_space s)))"

text \<open>\<open>strings.Fields\<close>: the maximal runs of non-space characters (\<open>w\<close> is the open run).\<close>

fun fields_from :: "string \<Rightarrow> string \<Rightarrow> string list" where
  "fields_from w [] = (if w = [] then [] else [w])"
| "fields_from w (c # cs) =
     (if is_space c then (if w = [] then [] else [w]) @ fields_from [] cs
      else fields_from (w @ [c]) cs)"

definition Fields :: "string \<Rightarrow> string list" where
  "Fields s = fields_from [] s"

lemma HasPrefix_iff_prefix [go_simps]: "HasPrefix s p \<longleftrightarrow> prefix p s"
proof
  assume "HasPrefix s p"
  then have "s = p @ drop (length p) s"
    by (metis HasPrefix_def append_take_drop_id)
  then show "prefix p s" by (metis prefixI)
next
  assume "prefix p s"
  then show "HasPrefix s p" by (auto simp: HasPrefix_def elim: prefixE)
qed

lemma HasPrefix_append [simp]: "HasPrefix (p @ s) p"
  by (simp add: HasPrefix_def)

lemma TrimPrefix_append [simp]: "TrimPrefix (p @ s) p = s"
  by (simp add: TrimPrefix_def)

lemma HasPrefixE:
  assumes "HasPrefix s p"
  obtains t where "s = p @ t"
  using assms by (auto simp: HasPrefix_iff_prefix elim: prefixE)

lemma Split_not_Nil [simp]: "Split s sep \<noteq> []"
  by (induction s) (auto split: list.splits)

lemma fields_from_no_space:
  assumes "\<forall>c \<in> set w. \<not> is_space c" and "f \<in> set (fields_from w s)"
  shows "f \<noteq> [] \<and> (\<forall>c \<in> set f. \<not> is_space c)"
  using assms
proof (induction w s rule: fields_from.induct)
  case (1 w)
  then show ?case by (auto split: if_splits)
next
  case (2 w c cs)
  show ?case
  proof (cases "is_space c")
    case True
    with 2 show ?thesis by (auto split: if_splits)
  next
    case False
    with "2.prems" have "\<forall>x \<in> set (w @ [c]). \<not> is_space x" by auto
    moreover from False "2.prems"(2) have "f \<in> set (fields_from (w @ [c]) cs)" by simp
    ultimately show ?thesis using "2.IH"(2) False by blast
  qed
qed

lemma Fields_no_space: "f \<in> set (Fields s) \<Longrightarrow> f \<noteq> [] \<and> (\<forall>c \<in> set f. \<not> is_space c)"
  by (rule fields_from_no_space [of "[]" f s]) (simp_all add: Fields_def)

section \<open>Formatting\<close>

text \<open>The formatting verbs \<^verbatim>\<open>%d\<close> and \<^verbatim>\<open>%q\<close>. Quoting escapes the quote, the backslash and the ASCII
  control characters; bytes from 0x80 on are left as they are, as they are in valid printable UTF-8.\<close>

fun decimal :: "nat \<Rightarrow> string" where
  "decimal n = (if n < 10 then [char_of (48 + n)] else decimal (n div 10) @ [char_of (48 + n mod 10)])"

declare decimal.simps [simp del]

definition show_int :: "int \<Rightarrow> string" where
  "show_int i = (if i < 0 then CHR ''-'' # decimal (nat (- i)) else decimal (nat i))"

definition hex_digit :: "nat \<Rightarrow> char" where
  "hex_digit n = ''0123456789abcdef'' ! n"

definition quote_char :: "char \<Rightarrow> string" where
  "quote_char c =
     (if c = CHR 0x22 then [CHR 0x5C, CHR 0x22]
      else if c = CHR 0x5C then [CHR 0x5C, CHR 0x5C]
      else if c = CHR 0x07 then [CHR 0x5C, CHR ''a'']
      else if c = CHR 0x08 then [CHR 0x5C, CHR ''b'']
      else if c = CHR 0x0C then [CHR 0x5C, CHR ''f'']
      else if c = CHR 0x0A then [CHR 0x5C, CHR ''n'']
      else if c = CHR 0x0D then [CHR 0x5C, CHR ''r'']
      else if c = CHR 0x09 then [CHR 0x5C, CHR ''t'']
      else if c = CHR 0x0B then [CHR 0x5C, CHR ''v'']
      else if of_char c < (32::nat) \<or> c = CHR 0x7F
      then [CHR 0x5C, CHR ''x'', hex_digit (of_char c div 16), hex_digit (of_char c mod 16)]
      else [c])"

definition strconv_Quote :: "string \<Rightarrow> string" where
  "strconv_Quote s = CHR 0x22 # concat (map quote_char s) @ [CHR 0x22]"

definition ToLower :: "string \<Rightarrow> string" where
  "ToLower s = map (\<lambda>c. if (65::nat) \<le> of_char c \<and> of_char c \<le> (90::nat) then char_of (of_char c + (32::nat)) else c) s"

section \<open>JSON values\<close>

text \<open>
  A decoded JSON document, as \<open>encoding/json\<close> hands it to the code; a Go value of type
  \<open>interface{}\<close> that came out of a request is one of these. Objects keep their members in
  a list with distinct keys.
\<close>

datatype json =
    JNull | JBool bool | JNumber string | JString string
  | JArray "json list" | JObject "(string \<times> json) list"

section \<open>Deduplication\<close>

text \<open>
  The loop that keeps the first occurrence of every element, with the map \<open>seen\<close> of the
  elements met so far and the slice \<open>unique\<close> built so far.
\<close>

fun dedup_loop :: "'a list \<Rightarrow> 'a list \<Rightarrow> 'a list \<Rightarrow> 'a list" where
  "dedup_loop seen unique [] = unique"
| "dedup_loop seen unique (x # xs) =
     (if x \<in> set seen then dedup_loop seen unique xs
      else dedup_loop (x # seen) (unique @ [x]) xs)"

lemma dedup_loop_spec:
  assumes "distinct unique" and "set seen = set unique"
  shows "distinct (dedup_loop seen unique xs)
       \<and> set (dedup_loop seen unique xs) = set unique \<union> set xs"
  using assms by (induction seen unique xs rule: dedup_loop.induct) auto

lemma dedup_loop_Nil [simp]:
  "distinct (dedup_loop [] [] xs)" "set (dedup_loop [] [] xs) = set xs"
  using dedup_loop_spec [of "[]" "[]" xs] by simp_all

section \<open>The surroundings of a run\<close>

text \<open>
  What one interaction with the database may do instead of succeeding: the call itself fails, the
  scan of the row with the given index fails, or the cursor breaks after the given number of rows
  (for a statement without rows: reading the number of affected rows fails).
\<close>

datatype fault = QueryFault error | ScanFault nat error | RowsFault nat error

text \<open>
  Every interaction has a number (\<open>tick\<close>); the environment decides what happens at each:
  whether a statement, the opening or the commit of a transaction fails, what time it is, which
  UUID is generated.
  \<open>strxfrm\<close> is the sort key of the database's text collation, \<open>map_rank\<close> the position
  at which a map iteration meets a key.
\<close>

record env =
  env_fault :: "nat \<Rightarrow> fault option"
  env_begin :: "nat \<Rightarrow> error option"
  env_commit :: "nat \<Rightarrow> error option"
  env_clock :: "nat \<Rightarrow> nat"
  env_uuid :: "nat \<Rightarrow> string res"
  env_map_rank :: "nat \<Rightarrow> string \<Rightarrow> nat"
  env_strxfrm :: "string \<Rightarrow> string"

text \<open>Runs in which no statement fails for a reason outside the code, and runs in which opening
  a transaction always succeeds.\<close>

definition no_faults :: "env \<Rightarrow> bool" where
  "no_faults env \<longleftrightarrow> (\<forall>t. env_fault env t = None)"

definition begins_ok :: "env \<Rightarrow> bool" where
  "begins_ok env \<longleftrightarrow> (\<forall>t. env_begin env t = None)"

lemma no_faultsD [simp]: "no_faults env \<Longrightarrow> env_fault env t = None"
  by (simp add: no_faults_def)

lemma begins_okD [simp]: "begins_ok env \<Longrightarrow> env_begin env t = None"
  by (simp add: begins_ok_def)

text \<open>A concrete environment: everything succeeds, the clock is the counter, identifiers are
  pairwise different.\<close>

definition quiet_env :: env where
  "quiet_env = \<lparr>env_fault = (\<lambda>t. None), env_begin = (\<lambda>t. None), env_commit = (\<lambda>t. None),
     env_clock = (\<lambda>t. t), env_uuid = (\<lambda>t. Inr (''id'' @ replicate t (CHR ''x''))),
     env_map_rank = (\<lambda>t k. length k), env_strxfrm = (\<lambda>s. s)\<rparr>"

lemma quiet_env_simps [simp]:
  "no_faults quiet_env" "begins_ok quiet_env" "env_commit quiet_env t = None"
  "env_clock quiet_env t = t" "env_uuid quiet_env t = Inr (''id'' @ replicate t (CHR ''x''))"
  "env_map_rank quiet_env t k = length k" "env_strxfrm quiet_env s = s"
  by (simp_all add: quiet_env_def no_faults_def begins_ok_def)

fun query_fault :: "fault option \<Rightarrow> error option" where
  "query_fault (Some (QueryFault e)) = Some e"
| "query_fault f = None"

text \<open>
  A \<open>range\<close> over a Go map meets every key once, in an order the language does not fix: any
  order of a list of distinct keys arises from some rank function.
\<close>

definition map_range :: "env \<Rightarrow> nat \<Rightarrow> string list \<Rightarrow> string list" where
  "map_range env t ks = sort_key (env_map_rank env t) ks"

lemma map_range_set [simp]: "set (map_range env t ks) = set ks"
  by (simp add: map_range_def)

lemma map_range_distinct [simp]: "distinct (map_range env t ks) = distinct ks"
  by (simp add: map_range_def)

lemma map_range_Nil_iff [simp]: "map_range env t ks = [] \<longleftrightarrow> ks = []"
  by (metis map_range_set set_empty)

end
