(* ===== verification/GroupTypes.thy ===== *)
theory GroupTypes
  imports HookPrelude
begin

text \<open>
  The shared data types of \<^verbatim>\<open>internal/types/group.go\<close>: groups, memberships, and the two
  enumerations that travel as text. \<open>GroupType\<close> and \<open>Role\<close> are Go \<open>int\<close>s, so any
  integer is a value of them and only two are meaningful. The JSON methods are stated on decoded
  JSON values.
\<close>

section \<open>Enumerations and records\<close>

type_synonym GroupType = int
type_synonym Role = int

definition GroupTypeLocal :: GroupType where "GroupTypeLocal = 0"
definition GroupTypeExternal :: GroupType where "GroupTypeExternal = 1"
definition RoleMember :: Role where "RoleMember = 0"
definition RoleOwner :: Role where "RoleOwner = 1"

record Group =
  g_ID :: string
  g_Name :: string
  g_TenantId :: string
  g_Description :: string
  g_Type :: GroupType
  g_CreatedAt :: nat
  g_UpdatedAt :: nat

text \<open>The zero value of the struct, which composite literals start from.\<close>

definition zero_Group :: Group where
  "zero_Group = \<lparr>g_ID = [], g_Name = [], g_TenantId = [], g_Description = [], g_Type = 0,
     g_CreatedAt = 0, g_UpdatedAt = 0\<rparr>"

record GroupUser =
  gu_ID :: string
  gu_Role :: Role
  gu_TenantId :: string

section \<open>Text forms\<close>

definition ParseGroupType :: "string \<Rightarrow> GroupType res" where
  "ParseGroupType s =
     (if s = ''local'' \<or> s = [] then Inr GroupTypeLocal
      else if s = ''external'' then Inr GroupTypeExternal
      else Inl (Sentinel types_ErrInvalidGroupType))"

definition GroupType_String :: "GroupType \<Rightarrow> string" where
  "GroupType_String t =
     (if t = GroupTypeLocal then ''local''
      else if t = GroupTypeExternal then ''external''
      else ''unknown'')"

definition GroupType_MarshalJSON :: "GroupType \<Rightarrow> json" where
  "GroupType_MarshalJSON t = JString (GroupType_String t)"

definition ParseRole :: "string \<Rightarrow> Role res" where
  "ParseRole s =
     (if s = ''member'' \<or> s = [] then Inr RoleMember
      else if s = ''owner'' then Inr RoleOwner
      else Inl (Sentinel types_ErrInvalidRole))"

definition Role_String :: "Role \<Rightarrow> string" where
  "Role_String r =
     (if r = RoleMember then ''member''
      else if r = RoleOwner then ''owner''
      else ''unknown'')"

definition Role_MarshalJSON :: "Role \<Rightarrow> json" where
  "Role_MarshalJSON r = JString (Role_String r)"

text \<open>
  \<open>json.Unmarshal\<close> of a document into a \<open>string\<close> variable: a JSON string is stored,
  \<open>null\<close> leaves the empty string in place, anything else is an error.
\<close>

fun json_unmarshal_string :: "json \<Rightarrow> string res" where
  "json_unmarshal_string (JString s) = Inr s"
| "json_unmarshal_string JNull = Inr []"
| "json_unmarshal_string v = Inl (ErrorNew ''json: cannot unmarshal into Go value of type string'')"

definition GroupType_UnmarshalJSON :: "json \<Rightarrow> GroupType res" where
  "GroupType_UnmarshalJSON b =
     (case json_unmarshal_string b of Inl e \<Rightarrow> Inl e
      | Inr s \<Rightarrow> (case ParseGroupType s of Inl e \<Rightarrow> Inl e | Inr v \<Rightarrow> Inr v))"

definition Role_UnmarshalJSON :: "json \<Rightarrow> Role res" where
  "Role_UnmarshalJSON b =
     (case json_unmarshal_string b of Inl e \<Rightarrow> Inl e
      | Inr s \<Rightarrow> (case ParseRole s of Inl e \<Rightarrow> Inl e | Inr v \<Rightarrow> Inr v))"

lemmas enum_defs = GroupTypeLocal_def GroupTypeExternal_def RoleMember_def RoleOwner_def

section \<open>Properties\<close>

text \<open>A group type or a role survives the trip through its JSON form exactly when it is one
  of the two declared constants; every other integer is written as \<open>"unknown"\<close>, which the
  reader refuses with the sentinel of its type.\<close>

theorem enum_json_roundtrip:
  "(GroupType_UnmarshalJSON (GroupType_MarshalJSON t) =
      (if t = GroupTypeLocal \<or> t = GroupTypeExternal then Inr t
       else Inl (Sentinel types_ErrInvalidGroupType))) \<and>
   (Role_UnmarshalJSON (Role_MarshalJSON r) =
      (if r = RoleMember \<or> r = RoleOwner then Inr r
       else Inl (Sentinel types_ErrInvalidRole)))"
  by (simp add: GroupType_UnmarshalJSON_def GroupType_MarshalJSON_def ParseGroupType_def
      GroupType_String_def Role_UnmarshalJSON_def Role_MarshalJSON_def ParseRole_def
      Role_String_def enum_defs)

lemma ParseGroupType_ok_cases:
  assumes "ParseGroupType s = Inr t"
  shows "t = GroupTypeLocal \<and> s \<in> {[], ''local''} \<or> t = GroupTypeExternal \<and> s = ''external''"
  using assms by (auto simp: ParseGroupType_def split: if_splits)

lemma ParseGroupType_err:
  assumes "ParseGroupType s = Inl e"
  shows "e = Sentinel types_ErrInvalidGroupType"
  using assms by (auto simp: ParseGroupType_def split: if_splits)

end
