(* ===== verification/SqlStore.thy ===== *)
theory SqlStore
  imports GroupTypes
begin

text \<open>
  The relational schema of \<^verbatim>\<open>migrations/00001_initial_schema.sql\<close> and the SQL statements the
  storage layer runs on it: the rows of the three tables, the keys, the unique index and the
  foreign keys with their cascading deletes, and each statement as a function that either fails
  with the SQLSTATE PostgreSQL documents for the violated constraint (leaving the tables as they
  were) or returns the new tables. Infrastructure failures are not here: \<^verbatim>\<open>DbClient\<close> adds them.
  Group identifiers are the canonical text of their UUIDs; a statement the database refuses because an
  argument is not a value of its column's type (a malformed UUID, a name longer than 255 characters) is
  one of those failures too.
\<close>

section \<open>Tables\<close>

record groups_row =
  gr_id :: string
  gr_name :: string
  gr_tenant_id :: string
  gr_description :: string
  gr_type :: int
  gr_created_at :: nat
  gr_updated_at :: nat

record group_members_row =
  gm_group_id :: string
  gm_user_id :: string
  gm_tenant_id :: string
  gm_role :: int
  gm_created_at :: nat
  gm_updated_at :: nat

record application_groups_row =
  ag_group_id :: string
  ag_application_id :: string
  ag_tenant_id :: string
  ag_created_at :: nat
  ag_updated_at :: nat

record tables =
  t_groups :: "groups_row list"
  t_members :: "group_members_row list"
  t_apps :: "application_groups_row list"

definition empty_tables :: tables where
  "empty_tables = \<lparr>t_groups = [], t_members = [], t_apps = []\<rparr>"

text \<open>Primary keys, the unique index \<open>idx_groups_name\<close>, and the referencing columns.\<close>

definition group_key :: "groups_row \<Rightarrow> string \<times> string" where
  "group_key r = (gr_id r, gr_tenant_id r)"

definition group_name_key :: "groups_row \<Rightarrow> string \<times> string" where
  "group_name_key r = (gr_tenant_id r, gr_name r)"

definition member_key :: "group_members_row \<Rightarrow> string \<times> string" where
  "member_key r = (gm_group_id r, gm_user_id r)"

definition member_ref :: "group_members_row \<Rightarrow> string \<times> string" where
  "member_ref r = (gm_group_id r, gm_tenant_id r)"

definition app_key :: "application_groups_row \<Rightarrow> string \<times> string" where
  "app_key r = (ag_group_id r, ag_application_id r)"

definition app_ref :: "application_groups_row \<Rightarrow> string \<times> string" where
  "app_ref r = (ag_group_id r, ag_tenant_id r)"

lemmas key_defs = group_key_def group_name_key_def member_key_def member_ref_def app_key_def
  app_ref_def

section \<open>Constraint violations\<close>

abbreviation unique_violation :: error where
  "unique_violation \<equiv> PgError ''23505'' ''duplicate key value violates unique constraint''"

abbreviation foreign_key_violation :: error where
  "foreign_key_violation \<equiv> PgError ''23503'' ''insert or update violates foreign key constraint''"

abbreviation cardinality_violation :: error where
  "cardinality_violation \<equiv>
     PgError ''21000'' ''ON CONFLICT DO UPDATE command cannot affect row a second time''"

section \<open>Statements\<close>

definition sql_insert_group :: "groups_row \<Rightarrow> tables \<Rightarrow> (unit \<times> tables) res" where
  "sql_insert_group r tb =
     (if group_key r \<in> set (map group_key (t_groups tb)) then Inl unique_violation
      else if group_name_key r \<in> set (map group_name_key (t_groups tb)) then Inl unique_violation
      else Inr ((), tb\<lparr>t_groups := t_groups tb @ [r]\<rparr>))"

definition set_group_row :: "string \<Rightarrow> string \<Rightarrow> int \<Rightarrow> nat \<Rightarrow> groups_row \<Rightarrow> groups_row" where
  "set_group_row name descr typ now r =
     r\<lparr>gr_name := name, gr_description := descr, gr_type := typ, gr_updated_at := now\<rparr>"

definition sql_update_groups ::
  "string \<Rightarrow> string \<Rightarrow> string \<Rightarrow> int \<Rightarrow> nat \<Rightarrow> tables \<Rightarrow> (nat \<times> tables) res" where
  "sql_update_groups gid name descr typ now tb =
     (let rows = map (\<lambda>r. if gr_id r = gid then set_group_row name descr typ now r else r)
                     (t_groups tb)
      in if distinct (map group_name_key rows)
         then Inr (length (filter (\<lambda>r. gr_id r = gid) (t_groups tb)), tb\<lparr>t_groups := rows\<rparr>)
         else Inl unique_violation)"

text \<open>\<open>ON DELETE CASCADE\<close>: the rows that reference a deleted group go with it.\<close>

definition sql_delete_groups :: "string \<Rightarrow> tables \<Rightarrow> (unit \<times> tables) res" where
  "sql_delete_groups gid tb =
     (let dead = map group_key (filter (\<lambda>r. gr_id r = gid) (t_groups tb))
      in Inr ((), tb\<lparr>t_groups := filter (\<lambda>r. gr_id r \<noteq> gid) (t_groups tb),
                     t_members := filter (\<lambda>m. member_ref m \<notin> set dead) (t_members tb),
                     t_apps := filter (\<lambda>a. app_ref a \<notin> set dead) (t_apps tb)\<rparr>))"

text \<open>
  \<open>INSERT ... ON CONFLICT (group_id, user_id) DO UPDATE SET updated_at = EXCLUDED.updated_at\<close>.
  A row that conflicts only has its timestamp refreshed; the foreign key is checked for the rows
  that are really inserted.
\<close>

definition refresh_member :: "group_members_row list \<Rightarrow> group_members_row \<Rightarrow> group_members_row" where
  "refresh_member rows m =
     (case find (\<lambda>r. member_key r = member_key m) rows of
        None \<Rightarrow> m | Some r \<Rightarrow> m\<lparr>gm_updated_at := gm_updated_at r\<rparr>)"

definition fresh_members :: "group_members_row list \<Rightarrow> tables \<Rightarrow> group_members_row list" where
  "fresh_members rows tb =
     filter (\<lambda>r. member_key r \<notin> set (map member_key (t_members tb))) rows"

definition sql_upsert_members :: "group_members_row list \<Rightarrow> tables \<Rightarrow> (unit \<times> tables) res" where
  "sql_upsert_members rows tb =
     (if \<not> distinct (map member_key rows) then Inl cardinality_violation
      else if \<exists>r \<in> set (fresh_members rows tb). member_ref r \<notin> set (map group_key (t_groups tb))
      then Inl foreign_key_violation
      else Inr ((), tb\<lparr>t_members := map (refresh_member rows) (t_members tb)
                                      @ fresh_members rows tb\<rparr>))"

definition sql_delete_members ::
  "(group_members_row \<Rightarrow> bool) \<Rightarrow> tables \<Rightarrow> (unit \<times> tables) res" where
  "sql_delete_members P tb = Inr ((), tb\<lparr>t_members := filter (\<lambda>m. \<not> P m) (t_members tb)\<rparr>)"

definition sql_insert_app :: "application_groups_row \<Rightarrow> tables \<Rightarrow> (unit \<times> tables) res" where
  "sql_insert_app r tb =
     (if app_key r \<in> set (map app_key (t_apps tb)) then Inl unique_violation
      else if app_ref r \<notin> set (map group_key (t_groups tb)) then Inl foreign_key_violation
      else Inr ((), tb\<lparr>t_apps := t_apps tb @ [r]\<rparr>))"

text \<open>\<open>ON CONFLICT DO NOTHING\<close>: the first row with a new key is inserted, the others skipped.\<close>

fun fresh_apps :: "(string \<times> string) list \<Rightarrow> application_groups_row list \<Rightarrow>
    application_groups_row list" where
  "fresh_apps keys [] = []"
| "fresh_apps keys (r # rs) =
     (if app_key r \<in> set keys then fresh_apps keys rs
      else r # fresh_apps (app_key r # keys) rs)"

definition sql_insert_apps_or_nothing ::
  "application_groups_row list \<Rightarrow> tables \<Rightarrow> (unit \<times> tables) res" where
  "sql_insert_apps_or_nothing rows tb =
     (let new = fresh_apps (map app_key (t_apps tb)) rows
      in if \<exists>r \<in> set new. app_ref r \<notin> set (map group_key (t_groups tb))
         then Inl foreign_key_violation
         else Inr ((), tb\<lparr>t_apps := t_apps tb @ new\<rparr>))"

definition sql_delete_apps_returning ::
  "(application_groups_row \<Rightarrow> bool) \<Rightarrow> tables \<Rightarrow> (application_groups_row list \<times> tables) res" where
  "sql_delete_apps_returning P tb =
     Inr (filter P (t_apps tb), tb\<lparr>t_apps := filter (\<lambda>a. \<not> P a) (t_apps tb)\<rparr>)"

section \<open>The schema as an invariant\<close>

definition wf_tables :: "tables \<Rightarrow> bool" where
  "wf_tables tb \<longleftrightarrow>
     distinct (map group_key (t_groups tb)) \<and>
     distinct (map group_name_key (t_groups tb)) \<and>
     distinct (map member_key (t_members tb)) \<and>
     distinct (map app_key (t_apps tb)) \<and>
     (\<forall>m \<in> set (t_members tb). member_ref m \<in> set (map group_key (t_groups tb))) \<and>
     (\<forall>a \<in> set (t_apps tb). app_ref a \<in> set (map group_key (t_groups tb)))"

text \<open>What the tables say, as relations: who is in which group, which group may use which app.\<close>

definition memberships :: "tables \<Rightarrow> (string \<times> string) set" where
  "memberships tb = member_key ` set (t_members tb)"

definition allowances :: "tables \<Rightarrow> (string \<times> string) set" where
  "allowances tb = app_key ` set (t_apps tb)"

definition group_exists :: "string \<Rightarrow> tables \<Rightarrow> bool" where
  "group_exists gid tb \<longleftrightarrow> (\<exists>r \<in> set (t_groups tb). gr_id r = gid)"

section \<open>Every statement keeps the schema\<close>

lemma wf_empty_tables [simp]: "wf_tables empty_tables"
  by (simp add: wf_tables_def empty_tables_def)

lemma wf_insert_group:
  assumes "wf_tables tb" and "sql_insert_group r tb = Inr (u, tb')"
  shows "wf_tables tb'"
  using assms by (auto simp: wf_tables_def sql_insert_group_def split: if_splits)

lemma group_key_set_group_row [simp]: "group_key (set_group_row n d t now r) = group_key r"
  by (simp add: group_key_def set_group_row_def)

lemma wf_tables_regroup:
  assumes "wf_tables tb" and keys: "map group_key gs = map group_key (t_groups tb)"
    and "distinct (map group_name_key gs)"
  shows "wf_tables (tb\<lparr>t_groups := gs\<rparr>)"
proof -
  from keys have "group_key ` set gs = group_key ` set (t_groups tb)"
    by (metis list.set_map)
  with assms show ?thesis by (simp add: wf_tables_def)
qed

lemma wf_update_groups:
  assumes "wf_tables tb" and "sql_update_groups gid n d t now tb = Inr (k, tb')"
  shows "wf_tables tb'"
proof -
  let ?rows = "map (\<lambda>r. if gr_id r = gid then set_group_row n d t now r else r) (t_groups tb)"
  from assms(2) have tb': "tb' = tb\<lparr>t_groups := ?rows\<rparr>"
    and names: "distinct (map group_name_key ?rows)"
    by (simp_all add: sql_update_groups_def Let_def split: if_splits)
  have "map group_key ?rows = map group_key (t_groups tb)"
    by simp
  from wf_tables_regroup [OF assms(1) this names] show ?thesis
    by (simp only: tb')
qed

lemma distinct_map_filterI: "distinct (map f xs) \<Longrightarrow> distinct (map f (filter P xs))"
  by (induction xs) auto

lemma wf_delete_groups:
  assumes "wf_tables tb" and "sql_delete_groups gid tb = Inr (u, tb')"
  shows "wf_tables tb'"
  using assms
  by (fastforce simp: wf_tables_def sql_delete_groups_def Let_def distinct_map_filterI group_key_def)

lemma member_key_refresh [simp]: "member_key (refresh_member rows m) = member_key m"
  by (simp add: refresh_member_def member_key_def split: option.splits)

lemma member_ref_refresh [simp]: "member_ref (refresh_member rows m) = member_ref m"
  by (simp add: refresh_member_def member_ref_def split: option.splits)

lemma wf_upsert_members:
  assumes "wf_tables tb" and "sql_upsert_members rows tb = Inr (u, tb')"
  shows "wf_tables tb'"
proof -
  from assms(2) have d: "distinct (map member_key rows)"
    and fk: "\<forall>r \<in> set (fresh_members rows tb). member_ref r \<in> set (map group_key (t_groups tb))"
    and tb': "tb' = tb\<lparr>t_members := map (refresh_member rows) (t_members tb)
                                      @ fresh_members rows tb\<rparr>"
    by (auto simp: sql_upsert_members_def split: if_splits)
  have "distinct (map member_key (t_members tb'))"
    using assms(1) d
    by (auto simp: tb' wf_tables_def fresh_members_def distinct_map_filterI comp_def)
  with assms(1) fk show ?thesis
    by (auto simp: wf_tables_def tb')
qed

lemma wf_delete_members:
  assumes "wf_tables tb" and "sql_delete_members P tb = Inr (u, tb')"
  shows "wf_tables tb'"
  using assms by (auto simp: wf_tables_def sql_delete_members_def distinct_map_filterI)

lemma wf_insert_app:
  assumes "wf_tables tb" and "sql_insert_app r tb = Inr (u, tb')"
  shows "wf_tables tb'"
  using assms by (auto simp: wf_tables_def sql_insert_app_def split: if_splits)

lemma fresh_apps_keys:
  "distinct (map app_key (fresh_apps keys rows))
   \<and> app_key ` set (fresh_apps keys rows) = app_key ` set rows - set keys
   \<and> set (fresh_apps keys rows) \<subseteq> set rows"
  by (induction keys rows rule: fresh_apps.induct) auto

lemma wf_insert_apps_or_nothing:
  assumes "wf_tables tb" and "sql_insert_apps_or_nothing rows tb = Inr (u, tb')"
  shows "wf_tables tb'"
  using assms fresh_apps_keys [of "map app_key (t_apps tb)" rows]
  by (auto simp: wf_tables_def sql_insert_apps_or_nothing_def Let_def split: if_splits)

lemma wf_delete_apps_returning:
  assumes "wf_tables tb" and "sql_delete_apps_returning P tb = Inr (u, tb')"
  shows "wf_tables tb'"
  using assms by (auto simp: wf_tables_def sql_delete_apps_returning_def distinct_map_filterI)

lemmas wf_statements = wf_insert_group wf_update_groups wf_delete_groups wf_upsert_members
  wf_delete_members wf_insert_app wf_insert_apps_or_nothing wf_delete_apps_returning

section \<open>What every statement does to the relations\<close>

lemma fresh_members_keys:
  "member_key ` set (fresh_members rows tb) = member_key ` set rows - memberships tb"
proof -
  have "set (fresh_members rows tb) = {r \<in> set rows. member_key r \<notin> memberships tb}"
    by (simp add: fresh_members_def memberships_def)
  then show ?thesis by blast
qed

lemma memberships_upsert:
  assumes "sql_upsert_members rows tb = Inr (u, tb')"
  shows "memberships tb' = memberships tb \<union> member_key ` set rows"
    and "t_groups tb' = t_groups tb" and "t_apps tb' = t_apps tb"
proof -
  from assms have tb': "tb' = tb\<lparr>t_members := map (refresh_member rows) (t_members tb)
                                              @ fresh_members rows tb\<rparr>"
    by (simp add: sql_upsert_members_def split: if_splits)
  have "memberships tb' = memberships tb \<union> member_key ` set (fresh_members rows tb)"
    by (simp add: tb' memberships_def image_Un image_image)
  then show "memberships tb' = memberships tb \<union> member_key ` set rows"
    unfolding fresh_members_keys by blast
qed (use assms in \<open>auto simp: sql_upsert_members_def split: if_splits\<close>)

lemma memberships_delete:
  assumes "sql_delete_members P tb = Inr (u, tb')"
  shows "memberships tb' = member_key ` {m \<in> set (t_members tb). \<not> P m}"
    and "t_groups tb' = t_groups tb" and "t_apps tb' = t_apps tb"
  using assms by (auto simp: sql_delete_members_def memberships_def)

lemma upsert_members_ok:
  assumes "distinct (map member_key rows)"
    and "\<forall>r \<in> set rows. member_ref r \<in> set (map group_key (t_groups tb))"
  shows "\<exists>tb'. sql_upsert_members rows tb = Inr ((), tb')"
  using assms by (auto simp: sql_upsert_members_def fresh_members_def)

lemma wf_delete_groups_orphans:
  assumes wf: "wf_tables tb" and del: "sql_delete_groups gid tb = Inr (u, tb')"
  shows "\<not> group_exists gid tb'"
    and "memberships tb' = {(g, x) \<in> memberships tb. g \<noteq> gid}"
    and "allowances tb' = {(g, a) \<in> allowances tb. g \<noteq> gid}"
proof -
  have m: "gm_group_id x = gid \<longleftrightarrow> member_ref x \<in> group_key ` {r \<in> set (t_groups tb). gr_id r = gid}"
    if "x \<in> set (t_members tb)" for x
    using that wf by (force simp: wf_tables_def member_ref_def group_key_def image_iff)
  have a: "ag_group_id x = gid \<longleftrightarrow> app_ref x \<in> group_key ` {r \<in> set (t_groups tb). gr_id r = gid}"
    if "x \<in> set (t_apps tb)" for x
    using that wf by (force simp: wf_tables_def app_ref_def group_key_def image_iff)
  from del show "\<not> group_exists gid tb'"
    by (auto simp: group_exists_def sql_delete_groups_def Let_def)
  have "set (t_members tb') = {x \<in> set (t_members tb). member_ref x \<notin>
      group_key ` {r \<in> set (t_groups tb). gr_id r = gid}}"
    using del by (auto simp: sql_delete_groups_def Let_def)
  also have "\<dots> = {x \<in> set (t_members tb). gm_group_id x \<noteq> gid}"
    using m by blast
  finally have "set (t_members tb') = {x \<in> set (t_members tb). gm_group_id x \<noteq> gid}" .
  then show "memberships tb' = {(g, x) \<in> memberships tb. g \<noteq> gid}"
    by (auto simp: memberships_def member_key_def)
  have "set (t_apps tb') = {x \<in> set (t_apps tb). app_ref x \<notin>
      group_key ` {r \<in> set (t_groups tb). gr_id r = gid}}"
    using del by (auto simp: sql_delete_groups_def Let_def)
  also have "\<dots> = {x \<in> set (t_apps tb). ag_group_id x \<noteq> gid}"
    using a by blast
  finally have "set (t_apps tb') = {x \<in> set (t_apps tb). ag_group_id x \<noteq> gid}" .
  then show "allowances tb' = {(g, a) \<in> allowances tb. g \<noteq> gid}"
    by (auto simp: allowances_def app_key_def)
qed

end
