(* ===== verification/DbClient.thy ===== *)
theory DbClient
  imports SqlStore "HOL-Library.Word" "HOL-Library.Signed_Division"
begin

text \<open>
  The database client of \<^verbatim>\<open>internal/db\<close>: pagination arithmetic on 64-bit integers, the
  request context keys, the routing of every statement to the lazy transaction, an explicit
  transaction, the replica or the primary, the life of a transaction, the HTTP and gRPC
  middlewares that choose between them, and the replication lag monitor. A request runs alone:
  a transaction works on a copy of the primary's tables that the commit installs.
\<close>

section \<open>Pagination\<close>

definition defaultPage :: "64 word" where "defaultPage = 1"
definition defaultPageSize :: "64 word" where "defaultPageSize = 100"

definition Offset :: "64 word \<Rightarrow> 64 word \<Rightarrow> 64 word" where
  "Offset pageParam pageSize =
     (if sint pageParam \<le> 0 then (defaultPage - 1) * pageSize
      else (pageParam - 1) * pageSize)"

definition PageSize :: "64 word \<Rightarrow> 64 word" where
  "PageSize sizeParam = (if sint sizeParam \<le> 0 then defaultPageSize else sizeParam)"

section \<open>State\<close>

text \<open>The values a request context may carry under the three context keys.\<close>

record ctx =
  ctx_lazy :: bool
  ctx_tx :: bool
  ctx_ro :: bool

definition background :: ctx where
  "background = \<lparr>ctx_lazy = False, ctx_tx = False, ctx_ro = False\<rparr>"

text \<open>The functions that put these values into a context and read them. A key that is not set reads as nil.\<close>

definition contextWithLazyTx :: "ctx \<Rightarrow> ctx" where
  [simp]: "contextWithLazyTx c = c\<lparr>ctx_lazy := True\<rparr>"

definition lazyTxFromContext :: "ctx \<Rightarrow> bool" where
  [simp]: "lazyTxFromContext c = ctx_lazy c"

definition ContextWithTx :: "ctx \<Rightarrow> ctx" where
  [simp]: "ContextWithTx c = c\<lparr>ctx_tx := True\<rparr>"

definition TxFromContext :: "ctx \<Rightarrow> bool" where
  [simp]: "TxFromContext c = ctx_tx c"

definition contextWithReadOnly :: "ctx \<Rightarrow> ctx" where
  [simp]: "contextWithReadOnly c = c\<lparr>ctx_ro := True\<rparr>"

definition WithReadOnly :: "ctx \<Rightarrow> ctx" where
  [simp]: "WithReadOnly c = contextWithReadOnly c"

definition readOnlyFromContext :: "ctx \<Rightarrow> bool" where
  [simp]: "readOnlyFromContext c = ctx_ro c"

record txn =
  tx_tables :: tables
  tx_aborted :: bool

definition begin_txn :: "tables \<Rightarrow> txn" where
  "begin_txn tb = \<lparr>tx_tables = tb, tx_aborted = False\<rparr>"

record DBClient =
  db_hasReplica :: bool
  db_replicaLagMs :: int
  db_maxLagMs :: int
  db_replicaQueries :: nat
  db_primaryFallbacks :: nat

record world =
  w_primary :: tables
  w_replica :: tables
  w_lazyTx :: "txn option"
  w_tx :: "txn option"
  w_tick :: nat
  w_db :: DBClient

text \<open>The state between requests: no transaction is open; here without a replica.\<close>

definition world_of :: "tables \<Rightarrow> world" where
  "world_of tb = \<lparr>w_primary = tb, w_replica = tb, w_lazyTx = None, w_tx = None, w_tick = 0,
     w_db = \<lparr>db_hasReplica = False, db_replicaLagMs = 0, db_maxLagMs = 0, db_replicaQueries = 0,
             db_primaryFallbacks = 0\<rparr>\<rparr>"

definition MaxInt64 :: int where "MaxInt64 = 2 ^ 63 - 1"

section \<open>Routing a statement\<close>

datatype runner = RunLazyTx | RunTx | RunPrimary | RunReplica

definition tick :: "world \<Rightarrow> world" where
  "tick w = w\<lparr>w_tick := Suc (w_tick w)\<rparr>"

text \<open>\<open>lazyTx.get\<close>: the transaction is opened on the primary at its first use.\<close>

definition lazyTx_get :: "env \<Rightarrow> world \<Rightarrow> error option \<times> world" where
  "lazyTx_get env w =
     (case w_lazyTx w of
        Some t \<Rightarrow> (None, w)
      | None \<Rightarrow> (case env_begin env (w_tick w) of
                   Some e \<Rightarrow> (Some e, tick w)
                 | None \<Rightarrow> (None, (tick w)\<lparr>w_lazyTx := Some (begin_txn (w_primary w))\<rparr>)))"

text \<open>The part of \<open>Statement\<close> after the lazy transaction: explicit transaction, replica, primary.\<close>

definition route_rest :: "ctx \<Rightarrow> world \<Rightarrow> runner \<times> world" where
  "route_rest c w =
     (if TxFromContext c then (RunTx, w)
      else if readOnlyFromContext c \<and> db_hasReplica (w_db w) then
        (if db_maxLagMs (w_db w) < db_replicaLagMs (w_db w)
         then (RunPrimary,
               w\<lparr>w_db := (w_db w)\<lparr>db_primaryFallbacks := Suc (db_primaryFallbacks (w_db w))\<rparr>\<rparr>)
         else (RunReplica,
               w\<lparr>w_db := (w_db w)\<lparr>db_replicaQueries := Suc (db_replicaQueries (w_db w))\<rparr>\<rparr>))
      else (RunPrimary, w))"

definition Statement :: "env \<Rightarrow> ctx \<Rightarrow> world \<Rightarrow> runner \<times> world" where
  "Statement env c w =
     (if lazyTxFromContext c then
        (case lazyTx_get env w of
           (None, w1) \<Rightarrow> (RunLazyTx, w1)
         | (Some e, w1) \<Rightarrow> route_rest c w1)
      else route_rest c w)"

section \<open>Running a statement\<close>

abbreviation in_failed_transaction :: error where
  "in_failed_transaction \<equiv> PgError ''25P02'' ''current transaction is aborted''"

abbreviation read_only_transaction :: error where
  "read_only_transaction \<equiv> PgError ''25006'' ''cannot execute in a read-only transaction''"

abbreviation tx_done :: error where
  "tx_done \<equiv> ErrorNew ''sql: transaction has already been committed or rolled back''"

text \<open>A failed statement leaves its transaction unusable until the rollback.\<close>

definition tx_run :: "(tables \<Rightarrow> ('a \<times> tables) res) \<Rightarrow> txn \<Rightarrow> 'a res \<times> txn" where
  "tx_run f t =
     (if tx_aborted t then (Inl in_failed_transaction, t)
      else (case f (tx_tables t) of
              Inl e \<Rightarrow> (Inl e, t\<lparr>tx_aborted := True\<rparr>)
            | Inr (a, tb) \<Rightarrow> (Inr a, t\<lparr>tx_tables := tb\<rparr>)))"

definition abort_txn :: "txn option \<Rightarrow> txn option" where
  "abort_txn = map_option (\<lambda>t. t\<lparr>tx_aborted := True\<rparr>)"

text \<open>
  One statement on the store its runner stands for. The answer carries the fault (if any) that
  will strike while the rows are read. A replica accepts no write.
\<close>

definition run_on ::
  "bool \<Rightarrow> fault option \<Rightarrow> runner \<Rightarrow> (tables \<Rightarrow> ('a \<times> tables) res) \<Rightarrow> world \<Rightarrow>
   ('a \<times> fault option) res \<times> world" where
  "run_on writes flt r f w =
     (case r of
        RunPrimary \<Rightarrow> (case f (w_primary w) of
            Inl e \<Rightarrow> (Inl e, w) | Inr (a, tb) \<Rightarrow> (Inr (a, flt), w\<lparr>w_primary := tb\<rparr>))
      | RunReplica \<Rightarrow> (if writes then (Inl read_only_transaction, w)
          else (case f (w_replica w) of Inl e \<Rightarrow> (Inl e, w) | Inr (a, tb) \<Rightarrow> (Inr (a, flt), w)))
      | RunLazyTx \<Rightarrow> (case w_lazyTx w of None \<Rightarrow> (Inl tx_done, w)
          | Some t \<Rightarrow> (case tx_run f t of
              (Inl e, t') \<Rightarrow> (Inl e, w\<lparr>w_lazyTx := Some t'\<rparr>)
            | (Inr a, t') \<Rightarrow> (Inr (a, flt), w\<lparr>w_lazyTx := Some t'\<rparr>)))
      | RunTx \<Rightarrow> (case w_tx w of None \<Rightarrow> (Inl tx_done, w)
          | Some t \<Rightarrow> (case tx_run f t of
              (Inl e, t') \<Rightarrow> (Inl e, w\<lparr>w_tx := Some t'\<rparr>)
            | (Inr a, t') \<Rightarrow> (Inr (a, flt), w\<lparr>w_tx := Some t'\<rparr>))))"

definition fail_on :: "runner \<Rightarrow> world \<Rightarrow> world" where
  "fail_on r w =
     (case r of RunLazyTx \<Rightarrow> w\<lparr>w_lazyTx := abort_txn (w_lazyTx w)\<rparr>
      | RunTx \<Rightarrow> w\<lparr>w_tx := abort_txn (w_tx w)\<rparr> | _ \<Rightarrow> w)"

definition db_stmt ::
  "bool \<Rightarrow> env \<Rightarrow> ctx \<Rightarrow> (tables \<Rightarrow> ('a \<times> tables) res) \<Rightarrow> world \<Rightarrow>
   ('a \<times> fault option) res \<times> world" where
  "db_stmt writes env c f w =
     (let (r, w1) = Statement env c w; flt = env_fault env (w_tick w1) in
      case query_fault flt of
        Some e \<Rightarrow> (Inl e, fail_on r (tick w1))
      | None \<Rightarrow> run_on writes flt r f (tick w1))"

text \<open>A query, a statement that returns nothing, and one whose rows are read afterwards.\<close>

definition db_query :: "env \<Rightarrow> ctx \<Rightarrow> (tables \<Rightarrow> 'a) \<Rightarrow> world \<Rightarrow> ('a \<times> fault option) res \<times> world" where
  "db_query env c q w = db_stmt False env c (\<lambda>tb. Inr (q tb, tb)) w"

definition db_exec ::
  "env \<Rightarrow> ctx \<Rightarrow> (tables \<Rightarrow> ('a \<times> tables) res) \<Rightarrow> world \<Rightarrow> ('a \<times> fault option) res \<times> world" where
  "db_exec env c f w = db_stmt True env c f w"

section \<open>Transactions\<close>

definition BeginTx :: "env \<Rightarrow> ctx \<Rightarrow> world \<Rightarrow> (error option \<times> ctx) \<times> world" where
  "BeginTx env c w =
     (case env_begin env (w_tick w) of
        Some e \<Rightarrow> ((Some e, c), tick w)
      | None \<Rightarrow> ((None, ContextWithTx c), (tick w)\<lparr>w_tx := Some (begin_txn (w_primary w))\<rparr>))"

text \<open>\<open>TxStatement\<close> hands out the transaction itself, outside any context.\<close>

definition TxStatement :: "env \<Rightarrow> world \<Rightarrow> runner res \<times> world" where
  "TxStatement env w =
     (case env_begin env (w_tick w) of
        Some e \<Rightarrow> (Inl e, tick w)
      | None \<Rightarrow> (Inr RunTx, (tick w)\<lparr>w_tx := Some (begin_txn (w_primary w))\<rparr>))"

text \<open>
  \<open>WithTx\<close>: the function runs under a fresh lazy transaction; an error rolls back, a success
  commits what was started. The function's own results (\<open>'o\<close>) leave through captured variables.
\<close>

definition WithTx ::
  "env \<Rightarrow> ctx \<Rightarrow> (ctx \<Rightarrow> world \<Rightarrow> (error option \<times> 'o) \<times> world) \<Rightarrow> world \<Rightarrow>
   (error option \<times> 'o) \<times> world" where
  "WithTx env c fn w =
     (let outer = w_lazyTx w;
          ((err, out), w1) = fn (contextWithLazyTx c) (w\<lparr>w_lazyTx := None\<rparr>) in
      case err of
        Some e \<Rightarrow> ((Some e, out), w1\<lparr>w_lazyTx := outer\<rparr>)
      | None \<Rightarrow>
        (case w_lazyTx w1 of
           None \<Rightarrow> ((None, out), w1\<lparr>w_lazyTx := outer\<rparr>)
         | Some t \<Rightarrow>
           (case env_commit env (w_tick w1) of
              Some e \<Rightarrow> ((Some (Errorf_v ''failed to commit transaction'' e), out),
                         (tick w1)\<lparr>w_lazyTx := outer\<rparr>)
            | None \<Rightarrow>
              if tx_aborted t
              then ((Some (Errorf_v ''failed to commit transaction''
                             (ErrorNew ''commit unexpectedly resulted in rollback'')), out),
                    (tick w1)\<lparr>w_lazyTx := outer\<rparr>)
              else ((None, out), (tick w1)\<lparr>w_primary := tx_tables t, w_lazyTx := outer\<rparr>))))"

section \<open>Middlewares\<close>

text \<open>An HTTP handler answers with a status code and a body; the code is 200 unless it set one.\<close>

type_synonym 'b http_handler = "ctx \<Rightarrow> world \<Rightarrow> (nat \<times> 'b) \<times> world"

definition TransactionMiddleware :: "env \<Rightarrow> string \<Rightarrow> 'b http_handler \<Rightarrow> 'b http_handler" where
  "TransactionMiddleware env meth handler c w =
     (if meth = ''GET'' \<or> meth = ''HEAD'' then handler (contextWithReadOnly c) w
      else
        (case WithTx env c
           (\<lambda>txCtx w0. case handler txCtx w0 of (resp, w1) \<Rightarrow>
              ((if 400 \<le> fst resp then Some (ErrorNew (''request failed with status '' @ decimal (fst resp))) else None, resp),
               w1)) w
         of ((err, resp), w') \<Rightarrow> (resp, w')))"

definition hasTransaction :: "ctx \<Rightarrow> bool" where
  "hasTransaction c = (ctx_tx c \<or> ctx_lazy c)"

definition isReadOnlyMethod :: "string \<Rightarrow> bool" where
  "isReadOnlyMethod fullMethod =
     (let parts = Split fullMethod (CHR ''/'')
      in if length parts = 0 then False
         else let m = parts ! (length parts - 1)
              in HasPrefix m ''Get'' \<or> HasPrefix m ''List'' \<or> HasPrefix m ''Query''
                 \<or> HasPrefix m ''Describe'' \<or> HasPrefix m ''Search'')"

definition UnaryReplicaRoutingInterceptor :: "string \<Rightarrow> (ctx \<Rightarrow> 'r) \<Rightarrow> ctx \<Rightarrow> 'r" where
  "UnaryReplicaRoutingInterceptor fullMethod handler c =
     (if isReadOnlyMethod fullMethod \<and> \<not> hasTransaction c then handler (WithReadOnly c)
      else handler c)"

definition StreamReplicaRoutingInterceptor :: "string \<Rightarrow> (ctx \<Rightarrow> 'r) \<Rightarrow> ctx \<Rightarrow> 'r" where
  "StreamReplicaRoutingInterceptor fullMethod handler c =
     (if isReadOnlyMethod fullMethod \<and> \<not> hasTransaction c then handler (WithReadOnly c)
      else handler c)"

section \<open>Start-up and the replication lag monitor\<close>

definition isMissingRelation :: "error \<Rightarrow> bool" where
  "isMissingRelation e = (errors_As_pg e = Some ''42P01'')"

text \<open>
  One tick of the monitor on the answer of the lag query: the new client state, and whether the
  monitor goes on.
\<close>

definition monitor_tick :: "(nat \<times> int) res \<Rightarrow> DBClient \<Rightarrow> bool \<times> DBClient" where
  "monitor_tick answer d =
     (case answer of
        Inl e \<Rightarrow> (if isMissingRelation e then (False, d)
                  else (True, d\<lparr>db_replicaLagMs := MaxInt64\<rparr>))
      | Inr (count, lagMs) \<Rightarrow>
          (True, d\<lparr>db_replicaLagMs := (if count = 0 then MaxInt64 else lagMs)\<rparr>))"

fun monitorReplicationLag :: "(nat \<times> int) res list \<Rightarrow> DBClient \<Rightarrow> DBClient" where
  "monitorReplicationLag [] d = d"
| "monitorReplicationLag (a # as) d =
     (case monitor_tick a d of (True, d') \<Rightarrow> monitorReplicationLag as d' | (False, d') \<Rightarrow> d')"

section \<open>Start-up and clean-up\<close>

text \<open>What the code sees of the \<open>float64\<close> multiplier: whether it is positive, and the \<open>int32\<close> that a number of
  connections times the multiplier converts to. Durations are in nanoseconds.\<close>

record float64 =
  fl_positive :: bool
  fl_scale :: "int \<Rightarrow> int"

record db_Config =
  dc_DSN :: string
  dc_MaxConns :: int
  dc_MinConns :: int
  dc_MaxConnLifetime :: int
  dc_MaxConnIdleTime :: int
  dc_TracingEnabled :: bool
  dc_ReplicaDSN :: string
  dc_ReplicaMaxConns :: int
  dc_ReplicaMinConns :: int
  dc_ReplicaMaxConnLifetime :: int
  dc_ReplicaMaxConnIdleTime :: int
  dc_MaxReplicaLagMs :: int
  dc_ReplicaPoolSizeMultiplier :: float64

text \<open>The settings of a pool of connections that the code overrides.\<close>

record pool_config =
  pc_Tracer :: bool
  pc_MaxConns :: int
  pc_MinConns :: int
  pc_MaxConnLifetime :: int
  pc_MaxConnLifetimeJitter :: int
  pc_MaxConnIdleTime :: int

definition primary_pool_config :: "db_Config \<Rightarrow> pool_config" where
  "primary_pool_config cfg =
     \<lparr>pc_Tracer = dc_TracingEnabled cfg, pc_MaxConns = dc_MaxConns cfg, pc_MinConns = dc_MinConns cfg,
      pc_MaxConnLifetime = dc_MaxConnLifetime cfg, pc_MaxConnLifetimeJitter = dc_MaxConnLifetime cfg sdiv 10,
      pc_MaxConnIdleTime = dc_MaxConnIdleTime cfg\<rparr>"

definition replicaMaxConns :: "db_Config \<Rightarrow> int" where
  "replicaMaxConns cfg =
     (let n = dc_ReplicaMaxConns cfg;
          n1 = (if fl_positive (dc_ReplicaPoolSizeMultiplier cfg) \<and> n = 0
                then fl_scale (dc_ReplicaPoolSizeMultiplier cfg) (dc_MaxConns cfg) else n);
          n2 = (if n1 \<le> 0 then dc_MaxConns cfg else n1)
      in if n2 \<le> 0 then 5 else n2)"

definition replica_pool_config :: "db_Config \<Rightarrow> pool_config" where
  "replica_pool_config cfg =
     \<lparr>pc_Tracer = dc_TracingEnabled cfg, pc_MaxConns = replicaMaxConns cfg, pc_MinConns = dc_ReplicaMinConns cfg,
      pc_MaxConnLifetime = dc_ReplicaMaxConnLifetime cfg, pc_MaxConnLifetimeJitter = dc_ReplicaMaxConnLifetime cfg sdiv 10,
      pc_MaxConnIdleTime = dc_ReplicaMaxConnIdleTime cfg\<rparr>"

text \<open>The outcomes of the driver's calls are arguments: parsing the DSN, creating the pool of a configuration, starting the
  statistics (when tracing is on) and the ping, for the primary and for the replica. Which connections are opened
  and closed is a trace beside the result.\<close>

record boot_calls =
  bc_parse :: "error option"
  bc_pool :: "pool_config \<Rightarrow> error option"
  bc_stats :: "error option"
  bc_ping :: "error option"

datatype db_role = Primary | Replica

datatype db_op =
    OpensPool db_role pool_config
  | OpensDB db_role
  | StartsLagMonitor
  | CancelsLagMonitor
  | ClosesDB db_role
  | ClosesPool db_role

datatype boot = BootFatal | BootFail error | BootClient DBClient

definition new_client :: "bool \<Rightarrow> int \<Rightarrow> DBClient" where
  "new_client hasReplica maxReplicaLagMs =
     \<lparr>db_hasReplica = hasReplica, db_replicaLagMs = MaxInt64,
      db_maxLagMs = (if maxReplicaLagMs \<le> 0 then 1000 else maxReplicaLagMs),
      db_replicaQueries = 0, db_primaryFallbacks = 0\<rparr>"

text \<open>The replica is optional: whatever fails, the client works on the primary alone.\<close>

definition start_replica :: "db_Config \<Rightarrow> boot_calls \<Rightarrow> bool \<times> db_op list" where
  "start_replica cfg repl =
     (if dc_ReplicaDSN cfg \<noteq> [] then
        (case bc_parse repl of
           Some err \<Rightarrow> (False, [])
         | None \<Rightarrow>
             let replicaCfg = replica_pool_config cfg in
             (case bc_pool repl replicaCfg of
                Some err \<Rightarrow> (False, [])
              | None \<Rightarrow>
                  (case bc_ping repl of
                     Some err \<Rightarrow> (False, [OpensPool Replica replicaCfg, OpensDB Replica, ClosesDB Replica, ClosesPool Replica])
                   | None \<Rightarrow> (True, [OpensPool Replica replicaCfg, OpensDB Replica, StartsLagMonitor]))))
      else (False, []))"

definition NewDBClient :: "db_Config \<Rightarrow> boot_calls \<Rightarrow> boot_calls \<Rightarrow> boot \<times> db_op list" where
  "NewDBClient cfg prim repl =
     (if bc_parse prim \<noteq> None then (BootFatal, [])
      else
        let config = primary_pool_config cfg in
        (case bc_pool prim config of
           Some e \<Rightarrow> (BootFail (Errorf_v ''failed to create db pool'' e), [])
         | None \<Rightarrow>
             (case (if dc_TracingEnabled cfg then bc_stats prim else None) of
                Some e \<Rightarrow> (BootFail (Errorf_v ''failed to start metrics collection for database'' e), [OpensPool Primary config])
              | None \<Rightarrow>
                  (case bc_ping prim of
                     Some e \<Rightarrow> (BootFail (Errorf_v ''failed to connect to the database'' e), [OpensPool Primary config, OpensDB Primary])
                   | None \<Rightarrow>
                       (case start_replica cfg repl of (hasReplica, ops) \<Rightarrow>
                          (BootClient (new_client hasReplica (dc_MaxReplicaLagMs cfg)),
                           [OpensPool Primary config, OpensDB Primary] @ ops))))))"

text \<open>The fields of the replica and the function that stops the monitor are set together; those of the primary always are.\<close>

definition DBClient_Close :: "DBClient \<Rightarrow> db_op list" where
  "DBClient_Close d =
     (if db_hasReplica d then [CancelsLagMonitor, ClosesDB Replica, ClosesPool Replica] else [])
     @ [ClosesDB Primary, ClosesPool Primary]"

section \<open>What a statement acts on\<close>

text \<open>
  The tables a context works on, whether a statement has run already or not: the lazy
  transaction's copy once it is open, and the primary while it is not.
\<close>

definition target_rest :: "ctx \<Rightarrow> world \<Rightarrow> tables" where
  "target_rest c w =
     (if ctx_tx c then (case w_tx w of Some t \<Rightarrow> tx_tables t | None \<Rightarrow> w_primary w)
      else if ctx_ro c \<and> db_hasReplica (w_db w) \<and> db_replicaLagMs (w_db w) \<le> db_maxLagMs (w_db w)
      then w_replica w else w_primary w)"

definition target :: "ctx \<Rightarrow> world \<Rightarrow> tables" where
  "target c w =
     (if ctx_lazy c then (case w_lazyTx w of Some t \<Rightarrow> tx_tables t | None \<Rightarrow> target_rest c w)
      else target_rest c w)"

text \<open>Contexts that write: the background context of the commands and the lazy transaction of
  the HTTP middleware. A live one has no failed transaction.\<close>

definition writable :: "ctx \<Rightarrow> bool" where
  "writable c \<longleftrightarrow> \<not> ctx_tx c \<and> \<not> ctx_ro c"

definition live :: "ctx \<Rightarrow> world \<Rightarrow> bool" where
  "live c w \<longleftrightarrow> (ctx_lazy c \<longrightarrow> (\<forall>t. w_lazyTx w = Some t \<longrightarrow> \<not> tx_aborted t))"

definition wf_world :: "world \<Rightarrow> bool" where
  "wf_world w \<longleftrightarrow> wf_tables (w_primary w) \<and> wf_tables (w_replica w)
     \<and> (\<forall>t. w_lazyTx w = Some t \<longrightarrow> wf_tables (tx_tables t))
     \<and> (\<forall>t. w_tx w = Some t \<longrightarrow> wf_tables (tx_tables t))"

text \<open>What no statement ever does: touch the replica, or touch the primary from inside a lazy
  transaction that can be opened.\<close>

definition frame :: "env \<Rightarrow> ctx \<Rightarrow> world \<Rightarrow> world \<Rightarrow> bool" where
  "frame env c w w' \<longleftrightarrow> w_replica w' = w_replica w
     \<and> (ctx_lazy c \<and> begins_ok env \<longrightarrow> w_primary w' = w_primary w)
     \<and> (ctx_lazy c \<and> w_lazyTx w \<noteq> None \<longrightarrow> w_lazyTx w' \<noteq> None)"

lemmas route_defs = Statement_def route_rest_def lazyTx_get_def
lemmas stmt_defs = db_stmt_def run_on_def fail_on_def abort_txn_def tx_run_def tick_def
  begin_txn_def

lemma writable_simps [simp]:
  "writable background" "writable (c\<lparr>ctx_lazy := b\<rparr>) = writable c"
  by (simp_all add: writable_def background_def)

lemma background_simps [simp]:
  "\<not> ctx_lazy background" "\<not> ctx_tx background" "\<not> ctx_ro background"
  by (simp_all add: background_def)

lemma world_of_simps [simp]:
  "w_primary (world_of tb) = tb" "w_replica (world_of tb) = tb" "w_lazyTx (world_of tb) = None"
  "w_tx (world_of tb) = None" "w_tick (world_of tb) = 0" "\<not> db_hasReplica (w_db (world_of tb))"
  "wf_world (world_of tb) = wf_tables tb"
  by (simp_all add: world_of_def wf_world_def)

lemma target_background [simp]: "target background w = w_primary w"
  by (simp add: target_def target_rest_def)

lemma live_background [simp]: "live background w"
  by (simp add: live_def)

lemma frame_refl [simp, intro]: "frame env c w w"
  by (simp add: frame_def)

lemma frame_trans [trans]: "frame env c w w1 \<Longrightarrow> frame env c w1 w2 \<Longrightarrow> frame env c w w2"
  by (auto simp: frame_def)

text \<open>The counter of interactions is not part of any store.\<close>

lemma tick_simps [simp]:
  "w_primary (tick w) = w_primary w" "w_replica (tick w) = w_replica w"
  "w_lazyTx (tick w) = w_lazyTx w" "w_tx (tick w) = w_tx w" "w_db (tick w) = w_db w"
  "w_tick (tick w) = Suc (w_tick w)" "target c (tick w) = target c w" "live c (tick w) = live c w"
  "wf_world (tick w) = wf_world w"
  by (simp_all add: tick_def target_def target_rest_def live_def wf_world_def split: option.splits)

lemma world_same_primary [simp]:
  "w\<lparr>w_primary := w_primary w\<rparr> = w" "(tick w)\<lparr>w_primary := w_primary w\<rparr> = tick w"
  by (simp_all add: tick_def)

lemma frame_tick [simp]: "frame env c w (tick w)" "frame env c w (tick w') = frame env c w w'"
  "frame env c (tick w) w' = frame env c w w'"
  by (simp_all add: frame_def)

lemma target_fail_on [simp]: "target c (fail_on k w) = target c w"
  by (cases "w_lazyTx w"; cases "w_tx w"; cases k)
    (simp_all add: fail_on_def abort_txn_def target_def target_rest_def)

text \<open>Which runner a writing context gets, and what the routing leaves alone.\<close>

lemma Statement_writable:
  assumes "writable c" and "Statement env c w = (r, w1)"
  shows "w_primary w1 = w_primary w \<and> target c w1 = target c w \<and> live c w1 = live c w \<and>
         (r = RunPrimary \<and> (\<not> ctx_lazy c \<or> w_lazyTx w1 = None)
          \<or> r = RunLazyTx \<and> ctx_lazy c \<and> w_lazyTx w1 \<noteq> None)"
  using assms
  by (cases "w_lazyTx w"; cases "env_begin env (w_tick w)")
    (auto simp: writable_def route_defs target_def target_rest_def live_def begin_txn_def
      split: if_splits)

lemma writable_cases:
  assumes wr: "writable c" and k: "Statement env c w = (k, w1)"
  obtains (prim) "k = RunPrimary" "\<not> ctx_lazy c \<or> w_lazyTx w1 = None" "target c w = w_primary w1"
    | (lazy) t where "k = RunLazyTx" "ctx_lazy c" "w_lazyTx w1 = Some t" "target c w = tx_tables t"
proof (cases k)
  case RunPrimary
  with Statement_writable [OF wr k] wr show ?thesis
    by (intro prim) (auto simp: target_def target_rest_def writable_def)
next
  case RunLazyTx
  with Statement_writable [OF wr k] obtain t where "w_lazyTx w1 = Some t" "ctx_lazy c"
    by auto
  with RunLazyTx Statement_writable [OF wr k] show ?thesis
    by (intro lazy) (auto simp: target_def)
qed (use Statement_writable [OF wr k] in auto)

lemma db_stmt_writable:
  assumes wr: "writable c" and st: "db_stmt writes env c f w = (r, w')"
  shows "(\<exists>e. r = Inl e \<and> target c w' = target c w) \<or>
         (\<exists>a flt. r = Inr (a, flt) \<and> f (target c w) = Inr (a, target c w') \<and> (live c w \<longrightarrow> live c w'))"
proof -
  obtain k w1 where k: "Statement env c w = (k, w1)" by (cases "Statement env c w")
  note S = Statement_writable [OF wr k]
  show ?thesis
  proof (cases "query_fault (env_fault env (w_tick w1))")
    case None
    with st k have run: "run_on writes (env_fault env (w_tick w1)) k f (tick w1) = (r, w')"
      by (simp add: db_stmt_def)
    from wr k show ?thesis
    proof (cases rule: writable_cases)
      case prim
      with run wr S show ?thesis
        by (auto simp: run_on_def target_def target_rest_def writable_def live_def
            split: sum.splits option.splits)
    next
      case lazy
      with run S show ?thesis
        by (auto simp: run_on_def tx_run_def target_def live_def split: sum.splits if_splits)
    qed
  next
    case (Some e)
    with st k have "r = Inl e" and w': "w' = fail_on k (tick w1)"
      by (simp_all add: db_stmt_def)
    moreover from w' S have "target c w' = target c w" by simp
    ultimately show ?thesis by simp
  qed
qed

lemma db_stmt_no_faults:
  assumes wr: "writable c" and nf: "no_faults env" and lv: "live c w"
  shows "fst (db_stmt writes env c f w) =
         (case f (target c w) of Inl e \<Rightarrow> Inl e | Inr (a, tb) \<Rightarrow> Inr (a, None))"
proof -
  obtain k w1 where k: "Statement env c w = (k, w1)" by (cases "Statement env c w")
  from nf k have run: "db_stmt writes env c f w = run_on writes None k f (tick w1)"
    by (simp add: db_stmt_def)
  from wr k show ?thesis
  proof (cases rule: writable_cases)
    case prim
    with run show ?thesis by (simp add: run_on_def split: sum.splits)
  next
    case (lazy t)
    with lv Statement_writable [OF wr k] have "\<not> tx_aborted t"
      by (auto simp: live_def)
    with run lazy show ?thesis by (simp add: run_on_def tx_run_def split: sum.splits)
  qed
qed

text \<open>Queries, in any context: the answer is about the tables the context works on, and nothing
  changes.\<close>

lemma route_rest_frame:
  assumes "route_rest c w = (k, w1)"
  shows "w_primary w1 = w_primary w" "w_replica w1 = w_replica w" "w_lazyTx w1 = w_lazyTx w"
    "w_tx w1 = w_tx w" "target_rest c w1 = target_rest c w" "k \<noteq> RunLazyTx"
    "w_tick w1 = w_tick w"
  using assms by (auto simp: route_rest_def target_rest_def split: if_splits)

lemma Statement_cases:
  assumes "Statement env c w = (k, w1)"
  obtains (opened) t where "ctx_lazy c" "w_lazyTx w = Some t" "k = RunLazyTx" "w1 = w"
    | (begun) "ctx_lazy c" "w_lazyTx w = None" "env_begin env (w_tick w) = None" "k = RunLazyTx"
        "w1 = (tick w)\<lparr>w_lazyTx := Some (begin_txn (w_primary w))\<rparr>"
    | (fallback) e where "ctx_lazy c" "w_lazyTx w = None" "env_begin env (w_tick w) = Some e"
        "route_rest c (tick w) = (k, w1)"
    | (rest) "\<not> ctx_lazy c" "route_rest c w = (k, w1)"
  using assms by (auto simp: Statement_def lazyTx_get_def split: if_splits option.splits)

lemma target_congI:
  assumes "w_lazyTx w1 = w_lazyTx w" and "target_rest c w1 = target_rest c w"
  shows "target c w1 = target c w"
  using assms by (simp add: target_def split: option.splits)

lemma target_lazy:
  "ctx_lazy c \<Longrightarrow> target c (w\<lparr>w_lazyTx := Some s\<rparr>) = tx_tables s"
  by (simp add: target_def)

lemma target_rest_tick [simp]: "target_rest c (tick w) = target_rest c w"
  by (simp add: target_rest_def split: option.splits)

lemma Statement_frame:
  assumes "Statement env c w = (k, w1)"
  shows "frame env c w w1" "wf_world w \<Longrightarrow> wf_world w1"
    "ctx_lazy c \<Longrightarrow> begins_ok env \<Longrightarrow> k = RunLazyTx"
  using assms
  by (cases rule: Statement_cases;
      auto simp: frame_def wf_world_def begin_txn_def dest: route_rest_frame)+

lemma Statement_target:
  assumes "\<not> ctx_tx c" "\<not> ctx_ro c \<or> \<not> ctx_lazy c" and "Statement env c w = (k, w1)"
  shows "target c w1 = target c w"
  using assms(3)
proof (cases rule: Statement_cases)
  case begun
  with assms(1,2) show ?thesis by (simp add: target_def target_rest_def begin_txn_def)
next
  case fallback
  from route_rest_frame [OF fallback(4)] show ?thesis by (intro target_congI) simp_all
next
  case rest
  from route_rest_frame [OF rest(2)] show ?thesis by (intro target_congI) simp_all
qed simp

lemma run_on_frame:
  assumes "ctx_lazy c \<Longrightarrow> begins_ok env \<Longrightarrow> k = RunLazyTx"
  shows "frame env c w (snd (run_on writes flt k f w))"
  using assms
  by (cases k) (auto simp: run_on_def frame_def split: sum.splits option.splits prod.splits)

lemma db_stmt_frame: "frame env c w (snd (db_stmt writes env c f w))"
proof -
  obtain k w1 where k: "Statement env c w = (k, w1)" by (cases "Statement env c w")
  note S = Statement_frame [OF k]
  show ?thesis
  proof (cases "query_fault (env_fault env (w_tick w1))")
    case None
    have "frame env c (tick w1) (snd (run_on writes (env_fault env (w_tick w1)) k f (tick w1)))"
      by (rule run_on_frame) (rule S(3))
    with S(1) have "frame env c w (snd (run_on writes (env_fault env (w_tick w1)) k f (tick w1)))"
      by (auto intro: frame_trans)
    with None k show ?thesis by (simp add: db_stmt_def)
  next
    case (Some e)
    then have "frame env c w1 (snd (db_stmt writes env c f w))"
      using k by (auto simp: db_stmt_def fail_on_def frame_def abort_txn_def split: runner.splits)
    with S(1) show ?thesis by (rule frame_trans)
  qed
qed

lemma tx_run_wf:
  assumes "wf_tables (tx_tables t)"
    and f: "\<And>tb a tb'. wf_tables tb \<Longrightarrow> f tb = Inr (a, tb') \<Longrightarrow> wf_tables tb'"
  shows "wf_tables (tx_tables (snd (tx_run f t)))"
proof (cases "f (tx_tables t)")
  case (Inr p)
  with assms show ?thesis by (cases p) (auto simp: tx_run_def)
qed (use assms in \<open>simp add: tx_run_def\<close>)

lemma run_on_wf:
  assumes wf: "wf_world w"
    and f: "\<And>tb a tb'. wf_tables tb \<Longrightarrow> f tb = Inr (a, tb') \<Longrightarrow> wf_tables tb'"
  shows "wf_world (snd (run_on writes flt k f w))"
proof (cases k)
  case RunPrimary
  show ?thesis
  proof (cases "f (w_primary w)")
    case (Inr p)
    obtain a tb where p: "p = (a, tb)" by (cases p)
    from wf have "wf_tables (w_primary w)" by (simp add: wf_world_def)
    from f [OF this, of a tb] Inr p have "wf_tables tb" by simp
    with RunPrimary Inr p wf show ?thesis by (simp add: run_on_def wf_world_def)
  qed (use RunPrimary wf in \<open>simp add: run_on_def\<close>)
next
  case RunReplica
  with wf show ?thesis by (simp add: run_on_def split: sum.splits)
next
  case RunLazyTx
  show ?thesis
  proof (cases "w_lazyTx w")
    case (Some t)
    obtain x t' where t': "tx_run f t = (x, t')" by (cases "tx_run f t")
    from wf Some have "wf_tables (tx_tables t)" by (simp add: wf_world_def)
    from tx_run_wf [of t f, OF this f] t' have "wf_tables (tx_tables t')" by simp
    with RunLazyTx Some t' wf show ?thesis by (cases x) (simp_all add: run_on_def wf_world_def)
  qed (use RunLazyTx wf in \<open>simp add: run_on_def\<close>)
next
  case RunTx
  show ?thesis
  proof (cases "w_tx w")
    case (Some t)
    obtain x t' where t': "tx_run f t = (x, t')" by (cases "tx_run f t")
    from wf Some have "wf_tables (tx_tables t)" by (simp add: wf_world_def)
    from tx_run_wf [of t f, OF this f] t' have "wf_tables (tx_tables t')" by simp
    with RunTx Some t' wf show ?thesis by (cases x) (simp_all add: run_on_def wf_world_def)
  qed (use RunTx wf in \<open>simp add: run_on_def\<close>)
qed

lemma db_stmt_wf:
  assumes wf: "wf_world w"
    and f: "\<And>tb a tb'. wf_tables tb \<Longrightarrow> f tb = Inr (a, tb') \<Longrightarrow> wf_tables tb'"
  shows "wf_world (snd (db_stmt writes env c f w))"
proof -
  obtain k w1 where k: "Statement env c w = (k, w1)" by (cases "Statement env c w")
  from Statement_frame(2) [OF k wf] have w1: "wf_world w1" .
  show ?thesis
  proof (cases "query_fault (env_fault env (w_tick w1))")
    case None
    from w1 have "wf_world (tick w1)" by simp
    from run_on_wf [of _ f, OF this f] None k show ?thesis by (simp add: db_stmt_def)
  next
    case (Some e)
    with k w1 show ?thesis
      by (auto simp: db_stmt_def fail_on_def wf_world_def abort_txn_def split: runner.splits)
  qed
qed

text \<open>Contexts that read: no explicit transaction, and not both a lazy transaction and the
  read-only mark (the middleware sets one or the other).\<close>

definition readable :: "ctx \<Rightarrow> bool" where
  "readable c \<longleftrightarrow> \<not> ctx_tx c \<and> (\<not> ctx_ro c \<or> \<not> ctx_lazy c)"

lemma writable_readable [simp]: "writable c \<Longrightarrow> readable c"
  by (simp add: writable_def readable_def)

lemma readable_runner:
  assumes "readable c" and "Statement env c w = (k, w1)"
  shows "k = RunReplica \<and> target c w1 = w_replica w1 \<or> k = RunPrimary \<and> target c w1 = w_primary w1
       \<or> k = RunLazyTx \<and> (\<exists>t. w_lazyTx w1 = Some t \<and> target c w1 = tx_tables t \<and> ctx_lazy c)"
  using assms(2)
proof (cases rule: Statement_cases)
  case fallback
  with assms(1) show ?thesis
    by (auto simp: route_rest_def target_def target_rest_def readable_def split: if_splits)
next
  case rest
  with assms(1) show ?thesis
    by (auto simp: route_rest_def target_def target_rest_def readable_def split: if_splits)
qed (simp_all add: target_def)

lemma db_query_answer:
  assumes rd: "readable c" and q: "db_query env c q w = (r, w')"
  shows "target c w' = target c w \<and> (\<forall>a flt. r = Inr (a, flt) \<longrightarrow> a = q (target c w))"
proof -
  obtain k w1 where k: "Statement env c w = (k, w1)" by (cases "Statement env c w")
  from rd k have t: "target c w1 = target c w"
    by (auto simp: readable_def intro: Statement_target)
  note R = readable_runner [OF rd k]
  show ?thesis
  proof (cases "query_fault (env_fault env (w_tick w1))")
    case None
    with q k have run: "run_on False (env_fault env (w_tick w1)) k (\<lambda>tb. Inr (q tb, tb)) (tick w1) = (r, w')"
      by (simp add: db_query_def db_stmt_def)
    from R consider (repl) "k = RunReplica" "target c w1 = w_replica w1"
      | (prim) "k = RunPrimary" "target c w1 = w_primary w1"
      | (lazy) s where "k = RunLazyTx" "w_lazyTx w1 = Some s" "target c w1 = tx_tables s" "ctx_lazy c"
      by blast
    then show ?thesis
    proof cases
      case lazy
      with run t show ?thesis
        by (cases "tx_aborted s") (auto simp: run_on_def tx_run_def target_lazy)
    qed (use run t in \<open>auto simp: run_on_def\<close>)
  next
    case (Some e)
    with q k t show ?thesis by (auto simp: db_query_def db_stmt_def)
  qed
qed

lemma db_query_no_faults:
  assumes rd: "readable c" and nf: "no_faults env" and lv: "live c w"
  shows "fst (db_query env c q w) = Inr (q (target c w), None)"
proof -
  obtain k w1 where k: "Statement env c w = (k, w1)" by (cases "Statement env c w")
  from rd k have t: "target c w1 = target c w"
    by (auto simp: readable_def intro: Statement_target)
  from nf k have run: "db_query env c q w = run_on False None k (\<lambda>tb. Inr (q tb, tb)) (tick w1)"
    by (simp add: db_query_def db_stmt_def)
  from readable_runner [OF rd k] consider (repl) "k = RunReplica" "target c w1 = w_replica w1"
    | (prim) "k = RunPrimary" "target c w1 = w_primary w1"
    | (lazy) s where "k = RunLazyTx" "w_lazyTx w1 = Some s" "target c w1 = tx_tables s" "ctx_lazy c"
    by blast
  then show ?thesis
  proof cases
    case lazy
    from k have "live c w1"
    proof (cases rule: Statement_cases)
      case fallback
      with lazy(1) show ?thesis by (auto dest: route_rest_frame)
    qed (use lv lazy in \<open>auto simp: live_def begin_txn_def\<close>)
    with lazy have "\<not> tx_aborted s" by (simp add: live_def)
    with run lazy t show ?thesis by (simp add: run_on_def tx_run_def)
  qed (use run t in \<open>simp_all add: run_on_def\<close>)
qed

section \<open>Rules for client code\<close>

text \<open>The facts above in the shape the storage proofs use: one rule per outcome.\<close>

lemma db_exec_Inr:
  "writable c \<Longrightarrow> db_exec env c f w = (Inr (a, flt), w') \<Longrightarrow> f (target c w) = Inr (a, target c w')"
  by (drule db_stmt_writable [of c True env f w], simp add: db_exec_def, auto)

lemma db_exec_Inl:
  "writable c \<Longrightarrow> db_exec env c f w = (Inl e, w') \<Longrightarrow> target c w' = target c w"
  by (drule db_stmt_writable [of c True env f w], simp add: db_exec_def, auto)

lemma db_exec_live:
  "writable c \<Longrightarrow> db_exec env c f w = (Inr x, w') \<Longrightarrow> live c w \<Longrightarrow> live c w'"
  by (drule db_stmt_writable [of c True env f w], simp add: db_exec_def, auto)

lemma db_exec_no_faults:
  assumes "writable c" "no_faults env" "live c w" "db_exec env c f w = (r, w')"
  shows "r = (case f (target c w) of Inl e \<Rightarrow> Inl e | Inr (a, tb) \<Rightarrow> Inr (a, None))"
  using db_stmt_no_faults [OF assms(1-3), of True f] assms(4) by (simp add: db_exec_def)

lemma db_exec_frame: "db_exec env c f w = (r, w') \<Longrightarrow> frame env c w w'"
  using db_stmt_frame [of env c w True f] by (simp add: db_exec_def)

lemma db_query_frame: "db_query env c q w = (r, w') \<Longrightarrow> frame env c w w'"
  using db_stmt_frame [of env c w False "\<lambda>tb. Inr (q tb, tb)"] by (simp add: db_query_def)

lemma db_query_wf: "db_query env c q w = (r, w') \<Longrightarrow> wf_world w \<Longrightarrow> wf_world w'"
  using db_stmt_wf [of w "\<lambda>tb. Inr (q tb, tb)" False env c] by (simp add: db_query_def)

lemma db_exec_wf:
  assumes "db_exec env c f w = (r, w')" and "wf_world w"
    and "\<And>tb a tb'. wf_tables tb \<Longrightarrow> f tb = Inr (a, tb') \<Longrightarrow> wf_tables tb'"
  shows "wf_world w'"
proof -
  from assms(2,3) have "wf_world (snd (db_stmt True env c f w))" by (rule db_stmt_wf)
  with assms(1) show ?thesis by (simp add: db_exec_def)
qed

lemma db_query_target:
  "readable c \<Longrightarrow> db_query env c q w = (r, w') \<Longrightarrow> target c w' = target c w"
  by (drule (1) db_query_answer, simp)

lemma db_query_Inr:
  "readable c \<Longrightarrow> db_query env c q w = (Inr (a, flt), w') \<Longrightarrow> a = q (target c w)"
  by (drule (1) db_query_answer, simp)

text \<open>A query changes no table, on whatever connection it runs.\<close>

lemma db_query_tables:
  assumes "db_query env c q w = (r, w')"
  shows "w_primary w' = w_primary w \<and> w_replica w' = w_replica w"
  using assms
  by (auto simp: db_query_def stmt_defs route_defs Let_def split: if_splits option.splits prod.splits sum.splits runner.splits)

lemma wf_world_target: "wf_world w \<Longrightarrow> wf_tables (target c w)"
  by (simp add: wf_world_def target_def target_rest_def split: option.splits)

end
