(* ===== verification/Storage.thy ===== *)
theory Storage
  imports DbClient
begin

text \<open>
  The storage layer of \<^verbatim>\<open>internal/storage\<close>: every method of \<open>Storage\<close> on groups,
  memberships and application permissions, with its statements in order, its error texts and its
  early returns. Time comes from \<open>env_clock\<close>, identifiers from \<open>env_uuid\<close>, the order of a map
  iteration from \<open>env_map_rank\<close>. Row cursors are lists of events so that a failing scan or a
  broken cursor is a branch of the code's own loops.
\<close>

section \<open>Errors\<close>

definition IsDuplicateKeyError :: "error \<Rightarrow> bool" where
  "IsDuplicateKeyError err = (case errors_As_pg err of Some code \<Rightarrow> code = ''23505'' | None \<Rightarrow> False)"

definition IsForeignKeyViolation :: "error \<Rightarrow> bool" where
  "IsForeignKeyViolation err = (case errors_As_pg err of Some code \<Rightarrow> code = ''23503'' | None \<Rightarrow> False)"

definition WrapDuplicateKeyError :: "error \<Rightarrow> string \<Rightarrow> error" where
  "WrapDuplicateKeyError err context =
     (if \<not> IsDuplicateKeyError err then err
      else Errorf_w context (Sentinel storage_ErrDuplicateKey))"

definition WrapForeignKeyError :: "error \<Rightarrow> string \<Rightarrow> error" where
  "WrapForeignKeyError err context =
     (if \<not> IsForeignKeyViolation err then err
      else Errorf_w context (Sentinel storage_ErrForeignKeyViolation))"

section \<open>Cursors\<close>

datatype 'r event = Row 'r | BadRow error

definition cursor :: "fault option \<Rightarrow> 'r list \<Rightarrow> 'r event list \<times> error option" where
  "cursor flt rows =
     (case flt of
        Some (ScanFault n e) \<Rightarrow>
          (if n < length rows then (map Row (take n rows) @ [BadRow e], None)
           else (map Row rows, None))
      | Some (RowsFault n e) \<Rightarrow> (map Row (take n rows), Some e)
      | _ \<Rightarrow> (map Row rows, None))"

text \<open>The loop \<open>for rows.Next() { scan; append }\<close> and the check of \<open>rows.Err()\<close> after it.\<close>

fun scan_loop :: "('r \<Rightarrow> 'a) \<Rightarrow> string \<Rightarrow> 'r event list \<Rightarrow> 'a list \<Rightarrow> 'a list res" where
  "scan_loop conv msg [] acc = Inr acc"
| "scan_loop conv msg (Row r # es) acc = scan_loop conv msg es (acc @ [conv r])"
| "scan_loop conv msg (BadRow e # es) acc = Inl (Errorf_v msg e)"

definition read_rows ::
  "('r \<Rightarrow> 'a) \<Rightarrow> string \<Rightarrow> string \<Rightarrow> 'r event list \<times> error option \<Rightarrow> 'a list res" where
  "read_rows conv scanMsg iterMsg cur =
     (case scan_loop conv scanMsg (fst cur) [] of
        Inl e \<Rightarrow> Inl e
      | Inr xs \<Rightarrow> (case snd cur of Some e \<Rightarrow> Inl (Errorf_v iterMsg e) | None \<Rightarrow> Inr xs))"

text \<open>\<open>QueryRowContext(...).Scan\<close>: the first row, or \<open>sql.ErrNoRows\<close>.\<close>

definition scan_row :: "('r \<Rightarrow> 'a) \<Rightarrow> 'r event list \<times> error option \<Rightarrow> 'a res" where
  "scan_row conv cur =
     (case fst cur of
        [] \<Rightarrow> (case snd cur of Some e \<Rightarrow> Inl e | None \<Rightarrow> Inl (Sentinel sql_ErrNoRows))
      | Row r # _ \<Rightarrow> Inr (conv r)
      | BadRow e # _ \<Rightarrow> Inl e)"

text \<open>The loop that hands every row to a callback with a state of its own.\<close>

fun stream_loop ::
  "('r \<Rightarrow> 'a) \<Rightarrow> string \<Rightarrow> ('a \<Rightarrow> 's \<Rightarrow> error option \<times> 's) \<Rightarrow> 'r event list \<Rightarrow> 's \<Rightarrow>
   error option \<times> 's" where
  "stream_loop conv msg fn [] s = (None, s)"
| "stream_loop conv msg fn (Row r # es) s =
     (case fn (conv r) s of
        (Some e, s') \<Rightarrow> (Some e, s')
      | (None, s') \<Rightarrow> stream_loop conv msg fn es s')"
| "stream_loop conv msg fn (BadRow e # es) s = (Some (Errorf_v msg e), s)"

definition stream_rows ::
  "('r \<Rightarrow> 'a) \<Rightarrow> string \<Rightarrow> string \<Rightarrow> ('a \<Rightarrow> 's \<Rightarrow> error option \<times> 's) \<Rightarrow>
   'r event list \<times> error option \<Rightarrow> 's \<Rightarrow> error option \<times> 's" where
  "stream_rows conv scanMsg iterMsg fn cur s =
     (case stream_loop conv scanMsg fn (fst cur) s of
        (Some e, s') \<Rightarrow> (Some e, s')
      | (None, s') \<Rightarrow> (case snd cur of Some e \<Rightarrow> (Some (Errorf_v iterMsg e), s')
                                   | None \<Rightarrow> (None, s')))"

definition scanGroup :: "groups_row \<Rightarrow> Group" where
  "scanGroup r =
     \<lparr>g_ID = gr_id r, g_Name = gr_name r, g_TenantId = gr_tenant_id r,
      g_Description = gr_description r, g_Type = gr_type r,
      g_CreatedAt = gr_created_at r, g_UpdatedAt = gr_updated_at r\<rparr>"

section \<open>Groups\<close>

definition DefaultTenantID :: string where "DefaultTenantID = ''default''"

definition by_name :: "env \<Rightarrow> groups_row list \<Rightarrow> groups_row list" where
  "by_name env = sort_key (\<lambda>r. env_strxfrm env (gr_name r))"

definition ListGroups :: "env \<Rightarrow> ctx \<Rightarrow> world \<Rightarrow> Group list res \<times> world" where
  "ListGroups env c w =
     (case db_query env c (\<lambda>tb. by_name env (t_groups tb)) w of
        (Inl e, w1) \<Rightarrow> (Inl (Errorf_v ''failed to query groups'' e), w1)
      | (Inr (rows, flt), w1) \<Rightarrow>
          (read_rows scanGroup ''failed to scan group'' ''error iterating groups'' (cursor flt rows), w1))"

definition CreateGroup :: "env \<Rightarrow> ctx \<Rightarrow> Group \<Rightarrow> world \<Rightarrow> Group res \<times> world" where
  "CreateGroup env c grp w =
     (case env_uuid env (w_tick w) of
        Inl e \<Rightarrow> (Inl (Errorf_v ''failed to generate uuid'' e), tick w)
      | Inr gid \<Rightarrow>
        (let now = env_clock env (w_tick w);
             row = \<lparr>gr_id = gid, gr_name = g_Name grp, gr_tenant_id = g_TenantId grp,
                    gr_description = g_Description grp, gr_type = g_Type grp,
                    gr_created_at = now, gr_updated_at = now\<rparr>;
             failed = (\<lambda>e. if IsDuplicateKeyError e
                           then WrapDuplicateKeyError e ''group name already exists''
                           else Errorf_v ''failed to insert group'' e)
         in case db_exec env c (sql_insert_group row) (tick w) of
              (Inl e, w1) \<Rightarrow> (Inl (failed e), w1)
            | (Inr (u, flt), w1) \<Rightarrow>
                (case scan_row (\<lambda>p. p) (cursor flt [(now, now)]) of
                   Inl e \<Rightarrow> (Inl (failed e), w1)
                 | Inr (createdAt, updatedAt) \<Rightarrow>
                     (Inr \<lparr>g_ID = gid, g_Name = g_Name grp, g_TenantId = g_TenantId grp,
                           g_Description = g_Description grp, g_Type = g_Type grp,
                           g_CreatedAt = createdAt, g_UpdatedAt = updatedAt\<rparr>, w1))))"

text \<open>The common tail of the two single-group queries.\<close>

definition one_group ::
  "(groups_row list \<times> fault option) res \<times> world \<Rightarrow> Group res \<times> world" where
  "one_group q =
     (let r = (case fst q of Inl e \<Rightarrow> Inl e | Inr (rows, flt) \<Rightarrow> scan_row scanGroup (cursor flt rows))
      in case r of
           Inl err \<Rightarrow> (if errors_Is err sql_ErrNoRows then Inl (Sentinel storage_ErrNotFound)
                      else Inl (Errorf_v ''failed to query group'' err), snd q)
         | Inr g \<Rightarrow> (Inr g, snd q))"

definition GetGroup :: "env \<Rightarrow> ctx \<Rightarrow> string \<Rightarrow> world \<Rightarrow> Group res \<times> world" where
  "GetGroup env c gid w =
     one_group (db_query env c (\<lambda>tb. filter (\<lambda>r. gr_id r = gid) (t_groups tb)) w)"

definition GetGroupByName :: "env \<Rightarrow> ctx \<Rightarrow> string \<Rightarrow> string \<Rightarrow> world \<Rightarrow> Group res \<times> world" where
  "GetGroupByName env c name tenantID w =
     (let tenant = (if tenantID = [] then DefaultTenantID else tenantID)
      in one_group (db_query env c
           (\<lambda>tb. filter (\<lambda>r. gr_name r = name \<and> gr_tenant_id r = tenant) (t_groups tb)) w))"

text \<open>\<open>RowsAffected\<close> fails exactly when the connection reports trouble after the statement.\<close>

definition rows_affected :: "fault option \<Rightarrow> nat \<Rightarrow> nat res" where
  "rows_affected flt n = (case flt of Some (RowsFault k e) \<Rightarrow> Inl e | _ \<Rightarrow> Inr n)"

definition UpdateGroup :: "env \<Rightarrow> ctx \<Rightarrow> string \<Rightarrow> Group \<Rightarrow> world \<Rightarrow> Group res \<times> world" where
  "UpdateGroup env c gid grp w =
     (let now = env_clock env (w_tick w) in
      case db_exec env c
             (sql_update_groups gid (g_Name grp) (g_Description grp) (g_Type grp) now) w of
        (Inl e, w1) \<Rightarrow> (Inl (Errorf_v ''failed to update group'' e), w1)
      | (Inr (n, flt), w1) \<Rightarrow>
          (case rows_affected flt n of
             Inl e \<Rightarrow> (Inl (Errorf_v ''failed to get rows affected'' e), w1)
           | Inr k \<Rightarrow> (if k = 0 then Inl (Sentinel storage_ErrNotFound)
                      else Inr (grp\<lparr>g_ID := gid, g_UpdatedAt := now\<rparr>), w1)))"

definition exec_result :: "string \<Rightarrow> ('a \<times> fault option) res \<times> world \<Rightarrow> unit res \<times> world" where
  "exec_result msg q =
     (case q of (Inl e, w1) \<Rightarrow> (Inl (Errorf_v msg e), w1) | (Inr _, w1) \<Rightarrow> (Inr (), w1))"

definition DeleteGroup :: "env \<Rightarrow> ctx \<Rightarrow> string \<Rightarrow> world \<Rightarrow> unit res \<times> world" where
  "DeleteGroup env c gid w =
     exec_result ''failed to delete group'' (db_exec env c (sql_delete_groups gid) w)"

section \<open>Memberships\<close>

definition member_row :: "nat \<Rightarrow> string \<Rightarrow> string \<Rightarrow> group_members_row" where
  "member_row now gid uid =
     \<lparr>gm_group_id = gid, gm_user_id = uid, gm_tenant_id = ''default'', gm_role = RoleMember,
      gm_created_at = now, gm_updated_at = now\<rparr>"

definition AddUsersToGroup :: "env \<Rightarrow> ctx \<Rightarrow> string \<Rightarrow> string list \<Rightarrow> world \<Rightarrow> unit res \<times> world" where
  "AddUsersToGroup env c groupID userIDs w =
     (if length userIDs = 0 then (Inr (), w)
      else
        let unique = dedup_loop [] [] userIDs; now = env_clock env (w_tick w) in
        (case db_exec env c (sql_upsert_members (map (member_row now groupID) unique)) w of
           (Inl e, w1) \<Rightarrow>
             (Inl (if IsForeignKeyViolation e then WrapForeignKeyError e ''group does not exist''
                   else Errorf_v ''failed to insert group members'' e), w1)
         | (Inr _, w1) \<Rightarrow> (Inr (), w1)))"

definition by_collation :: "env \<Rightarrow> string list \<Rightarrow> string list" where
  "by_collation env = sort_key (env_strxfrm env)"

definition ListUsersInGroup :: "env \<Rightarrow> ctx \<Rightarrow> string \<Rightarrow> world \<Rightarrow> string list res \<times> world" where
  "ListUsersInGroup env c groupID w =
     (case db_query env c (\<lambda>tb. by_collation env
             (map gm_user_id (filter (\<lambda>m. gm_group_id m = groupID) (t_members tb)))) w of
        (Inl e, w1) \<Rightarrow> (Inl (Errorf_v ''failed to query group members'' e), w1)
      | (Inr (rows, flt), w1) \<Rightarrow>
          (read_rows (\<lambda>u. u) ''failed to scan user ID'' ''error iterating group members''
             (cursor flt rows), w1))"

definition RemoveUsersFromGroup ::
  "env \<Rightarrow> ctx \<Rightarrow> string \<Rightarrow> string list \<Rightarrow> world \<Rightarrow> unit res \<times> world" where
  "RemoveUsersFromGroup env c groupID users w =
     exec_result ''failed to remove users from group''
       (db_exec env c
          (sql_delete_members (\<lambda>m. gm_group_id m = groupID \<and> gm_user_id m \<in> set users)) w)"

text \<open>\<open>groups g JOIN group_members gm ON g.id = gm.group_id WHERE gm.user_id = u\<close>\<close>

definition join_user :: "string \<Rightarrow> tables \<Rightarrow> groups_row list" where
  "join_user userID tb =
     concat (map (\<lambda>g. map (\<lambda>m. g)
        (filter (\<lambda>m. gm_group_id m = gr_id g \<and> gm_user_id m = userID) (t_members tb)))
       (t_groups tb))"

definition GetGroupsForUser :: "env \<Rightarrow> ctx \<Rightarrow> string \<Rightarrow> world \<Rightarrow> Group list res \<times> world" where
  "GetGroupsForUser env c userID w =
     (case db_query env c (\<lambda>tb. by_name env (join_user userID tb)) w of
        (Inl e, w1) \<Rightarrow> (Inl (Errorf_v ''failed to query groups for user'' e), w1)
      | (Inr (rows, flt), w1) \<Rightarrow>
          (read_rows scanGroup ''failed to scan group'' ''error iterating groups'' (cursor flt rows), w1))"

text \<open>The keys of the map that deduplicates a slice, in the order the iteration meets them.\<close>

definition unique_keys :: "env \<Rightarrow> world \<Rightarrow> string list \<Rightarrow> string list" where
  "unique_keys env w ids = map_range env (w_tick w) (remdups ids)"

definition UpdateGroupsForUser ::
  "env \<Rightarrow> ctx \<Rightarrow> string \<Rightarrow> string list \<Rightarrow> world \<Rightarrow> unit res \<times> world" where
  "UpdateGroupsForUser env c userID groupIDs w =
     (let unique = unique_keys env w groupIDs;
          stale = (\<lambda>m. gm_user_id m = userID \<and>
                       (length unique > 0 \<longrightarrow> gm_group_id m \<notin> set unique)) in
      case db_exec env c (sql_delete_members stale) w of
        (Inl e, w1) \<Rightarrow> (Inl (Errorf_v ''failed to remove old group memberships'' e), w1)
      | (Inr _, w1) \<Rightarrow>
          if length unique = 0 then (Inr (), w1)
          else
            let now = env_clock env (w_tick w1) in
            (case db_exec env c
                    (sql_upsert_members (map (\<lambda>g. member_row now g userID) unique)) w1 of
               (Inl e, w2) \<Rightarrow>
                 (Inl (if IsForeignKeyViolation e
                       then WrapForeignKeyError e ''one or more groups do not exist''
                       else Errorf_v ''failed to upsert group memberships'' e), w2)
             | (Inr _, w2) \<Rightarrow> (Inr (), w2)))"

definition RemoveUserFromAllGroups :: "env \<Rightarrow> ctx \<Rightarrow> string \<Rightarrow> world \<Rightarrow> unit res \<times> world" where
  "RemoveUserFromAllGroups env c userID w =
     exec_result ''failed to remove user from all groups''
       (db_exec env c (sql_delete_members (\<lambda>m. gm_user_id m = userID)) w)"

section \<open>Groups by prefix\<close>

text \<open>\<open>strings.NewReplacer\<close> with three single-byte patterns replaces byte by byte.\<close>

definition escape_char :: "char \<Rightarrow> string" where
  "escape_char ch =
     (if ch = CHR 0x5C then [CHR 0x5C, CHR 0x5C]
      else if ch = CHR ''%'' then [CHR 0x5C, CHR ''%'']
      else if ch = CHR ''_'' then [CHR 0x5C, CHR ''_'']
      else [ch])"

definition escape_like :: "string \<Rightarrow> string" where
  "escape_like s = concat (map escape_char s)"

text \<open>\<open>s LIKE p ESCAPE '\'\<close>.\<close>

function like :: "string \<Rightarrow> string \<Rightarrow> bool" where
  "like [] s = (s = [])"
| "like (p # ps) s =
     (if p = CHR 0x5C then
        (case ps of [] \<Rightarrow> False
         | q # qs \<Rightarrow> (case s of [] \<Rightarrow> False | ch # cs \<Rightarrow> ch = q \<and> like qs cs))
      else if p = CHR ''%'' then
        (like ps s \<or> (case s of [] \<Rightarrow> False | ch # cs \<Rightarrow> like (p # ps) cs))
      else if p = CHR ''_'' then (case s of [] \<Rightarrow> False | ch # cs \<Rightarrow> like ps cs)
      else (case s of [] \<Rightarrow> False | ch # cs \<Rightarrow> ch = p \<and> like ps cs))"
  by pat_completeness auto
termination
  by (relation "measure (\<lambda>(p, s). length p + length s)") auto

definition ListGroupsByPrefix ::
  "env \<Rightarrow> ctx \<Rightarrow> string \<Rightarrow> string \<Rightarrow> world \<Rightarrow> Group list res \<times> world" where
  "ListGroupsByPrefix env c pre tenantID w =
     (let tenant = (if tenantID = [] then DefaultTenantID else tenantID);
          escaped = escape_like pre in
      case db_query env c (\<lambda>tb. by_name env
             (filter (\<lambda>r. gr_tenant_id r = tenant \<and> like (escaped @ ''%'') (gr_name r))
                     (t_groups tb))) w of
        (Inl e, w1) \<Rightarrow> (Inl (Errorf_v ''failed to query groups by prefix'' e), w1)
      | (Inr (rows, flt), w1) \<Rightarrow>
          (read_rows scanGroup ''failed to scan group'' ''error iterating groups'' (cursor flt rows), w1))"

definition SyncGroupMembers :: "env \<Rightarrow> ctx \<Rightarrow> string \<Rightarrow> string list \<Rightarrow> world \<Rightarrow> unit res \<times> world" where
  "SyncGroupMembers env c groupID userIDs w =
     (let unique = unique_keys env w userIDs;
          stale = (\<lambda>m. gm_group_id m = groupID \<and>
                       (length unique > 0 \<longrightarrow> gm_user_id m \<notin> set unique)) in
      case db_exec env c (sql_delete_members stale) w of
        (Inl e, w1) \<Rightarrow> (Inl (Errorf_v ''failed to remove stale group members'' e), w1)
      | (Inr _, w1) \<Rightarrow>
          if length unique = 0 then (Inr (), w1)
          else
            let now = env_clock env (w_tick w1) in
            exec_result ''failed to upsert group members''
              (db_exec env c (sql_upsert_members (map (member_row now groupID) unique)) w1))"

section \<open>Streams\<close>

text \<open>The state of a \<open>Storage\<close> that is not the database client: the time limit of a stream, in nanoseconds.\<close>

record Storage =
  st_streamTimeout :: int

definition streamTimeout :: int where
  "streamTimeout = 30 * 1000000000"

definition NewStorage :: Storage where
  "NewStorage = \<lparr>st_streamTimeout = streamTimeout\<rparr>"

definition SetStreamTimeout :: "int \<Rightarrow> Storage \<Rightarrow> Storage" where
  "SetStreamTimeout d st = st\<lparr>st_streamTimeout := d\<rparr>"

text \<open>\<open>context.WithTimeout\<close>: a limit that is not positive has passed at once, and no query starts on such a context. A
  limit that passes while the rows are read is one of the faults of the environment.\<close>

abbreviation deadline_exceeded :: error where
  "deadline_exceeded \<equiv> ErrorNew ''context deadline exceeded''"

definition with_timeout :: "int \<Rightarrow> env \<Rightarrow> env" where
  "with_timeout d env = (if d \<le> 0 then env\<lparr>env_fault := (\<lambda>t. Some (QueryFault deadline_exceeded))\<rparr> else env)"

definition StreamGroupsForUser ::
  "Storage \<Rightarrow> env \<Rightarrow> ctx \<Rightarrow> string \<Rightarrow> string \<Rightarrow> (Group \<Rightarrow> 's \<Rightarrow> error option \<times> 's) \<Rightarrow> 's \<Rightarrow> world \<Rightarrow>
   (error option \<times> 's) \<times> world" where
  "StreamGroupsForUser st env c tenantID userID fn s w =
     (case db_query (with_timeout (st_streamTimeout st) env) c (\<lambda>tb. by_name env
             (filter (\<lambda>g. tenantID \<noteq> [] \<longrightarrow> gr_tenant_id g = tenantID) (join_user userID tb))) w of
        (Inl e, w1) \<Rightarrow> ((Some (Errorf_v ''failed to query groups for user'' e), s), w1)
      | (Inr (rows, flt), w1) \<Rightarrow>
          (stream_rows scanGroup ''failed to scan group'' ''error iterating groups'' fn
             (cursor flt rows) s, w1))"

definition StreamUsersInGroup ::
  "Storage \<Rightarrow> env \<Rightarrow> ctx \<Rightarrow> string \<Rightarrow> string \<Rightarrow> (string \<Rightarrow> 's \<Rightarrow> error option \<times> 's) \<Rightarrow> 's \<Rightarrow> world \<Rightarrow>
   (error option \<times> 's) \<times> world" where
  "StreamUsersInGroup st env c tenantID groupID fn s w =
     (case db_query (with_timeout (st_streamTimeout st) env) c (\<lambda>tb. by_collation env (map gm_user_id
             (filter (\<lambda>m. gm_group_id m = groupID \<and> (tenantID \<noteq> [] \<longrightarrow> gm_tenant_id m = tenantID))
                     (t_members tb)))) w of
        (Inl e, w1) \<Rightarrow> ((Some (Errorf_v ''failed to query group members'' e), s), w1)
      | (Inr (rows, flt), w1) \<Rightarrow>
          (stream_rows (\<lambda>u. u) ''failed to scan user ID'' ''error iterating group members'' fn
             (cursor flt rows) s, w1))"

section \<open>Application permissions\<close>

definition app_row :: "nat \<Rightarrow> string \<Rightarrow> string \<Rightarrow> application_groups_row" where
  "app_row now gid aid =
     \<lparr>ag_group_id = gid, ag_application_id = aid, ag_tenant_id = ''default'',
      ag_created_at = now, ag_updated_at = now\<rparr>"

text \<open>\<open>scanApps\<close> reads the rows; the caller adds its own text to a scan error.\<close>

definition scanApps :: "string event list \<times> error option \<Rightarrow> string list res" where
  "scanApps cur = scan_loop (\<lambda>a. a) ''failed to scan application ID'' (fst cur) []"

definition read_apps :: "string \<Rightarrow> string event list \<times> error option \<Rightarrow> string list res" where
  "read_apps iterMsg cur =
     (case scanApps cur of
        Inl e \<Rightarrow> Inl (Errorf_v ''failed to scan allowed apps'' e)
      | Inr xs \<Rightarrow> (case snd cur of Some e \<Rightarrow> Inl (Errorf_v iterMsg e) | None \<Rightarrow> Inr xs))"

definition GetAllowedApps :: "env \<Rightarrow> ctx \<Rightarrow> string \<Rightarrow> world \<Rightarrow> string list res \<times> world" where
  "GetAllowedApps env c groupID w =
     (case db_query env c (\<lambda>tb. by_collation env
             (map ag_application_id (filter (\<lambda>a. ag_group_id a = groupID) (t_apps tb)))) w of
        (Inl e, w1) \<Rightarrow> (Inl (Errorf_v ''failed to query allowed apps'' e), w1)
      | (Inr (rows, flt), w1) \<Rightarrow> (read_apps ''error iterating allowed apps'' (cursor flt rows), w1))"

definition AddAllowedApp :: "env \<Rightarrow> ctx \<Rightarrow> string \<Rightarrow> string \<Rightarrow> world \<Rightarrow> unit res \<times> world" where
  "AddAllowedApp env c groupID appID w =
     (let now = env_clock env (w_tick w) in
      case db_exec env c (sql_insert_app (app_row now groupID appID)) w of
        (Inl e, w1) \<Rightarrow>
          (Inl (if IsDuplicateKeyError e then WrapDuplicateKeyError e ''app already allowed for group''
                else if IsForeignKeyViolation e then WrapForeignKeyError e ''group does not exist''
                else Errorf_v ''failed to insert allowed app'' e), w1)
      | (Inr _, w1) \<Rightarrow> (Inr (), w1))"

definition AddAllowedApps ::
  "env \<Rightarrow> ctx \<Rightarrow> string \<Rightarrow> string list \<Rightarrow> world \<Rightarrow> unit res \<times> world" where
  "AddAllowedApps env c groupID appIDs w =
     (if length appIDs = 0 then (Inr (), w)
      else
        let now = env_clock env (w_tick w) in
        (case db_exec env c (sql_insert_apps_or_nothing (map (app_row now groupID) appIDs)) w of
           (Inl e, w1) \<Rightarrow>
             (Inl (if IsForeignKeyViolation e then WrapForeignKeyError e ''group does not exist''
                   else Errorf_v ''failed to insert allowed apps'' e), w1)
         | (Inr _, w1) \<Rightarrow> (Inr (), w1)))"

definition RemoveAllowedApp :: "env \<Rightarrow> ctx \<Rightarrow> string \<Rightarrow> string \<Rightarrow> world \<Rightarrow> unit res \<times> world" where
  "RemoveAllowedApp env c groupID appID w =
     exec_result ''failed to remove allowed app''
       (db_exec env c
          (sql_delete_apps_returning (\<lambda>a. ag_group_id a = groupID \<and> ag_application_id a = appID)) w)"

definition RemoveAllowedApps :: "env \<Rightarrow> ctx \<Rightarrow> string \<Rightarrow> world \<Rightarrow> string list res \<times> world" where
  "RemoveAllowedApps env c groupID w =
     (case db_exec env c (sql_delete_apps_returning (\<lambda>a. ag_group_id a = groupID)) w of
        (Inl e, w1) \<Rightarrow> (Inl (Errorf_v ''failed to remove allowed apps'' e), w1)
      | (Inr (rows, flt), w1) \<Rightarrow>
          (read_apps ''error iterating removed apps'' (cursor flt (map ag_application_id rows)), w1))"

definition AddAllowedGroupsForApp ::
  "env \<Rightarrow> ctx \<Rightarrow> string \<Rightarrow> string list \<Rightarrow> world \<Rightarrow> unit res \<times> world" where
  "AddAllowedGroupsForApp env c appID groupIDs w =
     (if length groupIDs = 0 then (Inr (), w)
      else
        let now = env_clock env (w_tick w) in
        (case db_exec env c
                (sql_insert_apps_or_nothing (map (\<lambda>g. app_row now g appID) groupIDs)) w of
           (Inl e, w1) \<Rightarrow>
             (Inl (if IsForeignKeyViolation e
                   then WrapForeignKeyError e ''one or more groups do not exist''
                   else Errorf_v ''failed to insert allowed groups for app'' e), w1)
         | (Inr _, w1) \<Rightarrow> (Inr (), w1)))"

text \<open>A UUID column sorts by its bytes, which is the order of the canonical text.\<close>

definition GetAllowedGroupsForApp :: "env \<Rightarrow> ctx \<Rightarrow> string \<Rightarrow> world \<Rightarrow> string list res \<times> world" where
  "GetAllowedGroupsForApp env c appID w =
     (case db_query env c (\<lambda>tb.
             sort (map ag_group_id (filter (\<lambda>a. ag_application_id a = appID) (t_apps tb)))) w of
        (Inl e, w1) \<Rightarrow> (Inl (Errorf_v ''failed to query allowed groups for app'' e), w1)
      | (Inr (rows, flt), w1) \<Rightarrow>
          (read_rows (\<lambda>g. g) ''failed to scan group ID'' ''error iterating allowed groups''
             (cursor flt rows), w1))"

definition RemoveAllAllowedGroupsForApp ::
  "env \<Rightarrow> ctx \<Rightarrow> string \<Rightarrow> world \<Rightarrow> string list res \<times> world" where
  "RemoveAllAllowedGroupsForApp env c appID w =
     (case db_exec env c (sql_delete_apps_returning (\<lambda>a. ag_application_id a = appID)) w of
        (Inl e, w1) \<Rightarrow> (Inl (Errorf_v ''failed to remove allowed groups for app'' e), w1)
      | (Inr (rows, flt), w1) \<Rightarrow>
          (read_rows (\<lambda>g. g) ''failed to scan group ID'' ''error iterating removed groups''
             (cursor flt (map ag_group_id rows)), w1))"

end
