(* ===== verification/DbLaws.thy ===== *)
theory DbLaws
  imports DbClient
begin

text \<open>
  What the database client promises: the contract every operation on the stores meets
  (\<open>keeps\<close>), when the replica may answer, what the transaction middleware makes of a handler that
  meets the contract, and the arithmetic of pagination.
\<close>

section \<open>The common contract\<close>

definition keeps :: "env \<Rightarrow> ctx \<Rightarrow> (world \<Rightarrow> 'a \<times> world) \<Rightarrow> bool" where
  "keeps env c op \<longleftrightarrow>
     (\<forall>w. frame env c w (snd (op w)) \<and> (wf_world w \<longrightarrow> wf_world (snd (op w))))"

named_theorems keeps_intros \<open>operations that keep the invariant and the frame\<close>

lemma keepsI:
  "(\<And>w. frame env c w (snd (op w))) \<Longrightarrow> (\<And>w. wf_world w \<Longrightarrow> wf_world (snd (op w))) \<Longrightarrow> keeps env c op"
  by (simp add: keeps_def)

lemma keeps_frame: "keeps env c op \<Longrightarrow> op w = (r, w') \<Longrightarrow> frame env c w w'"
  unfolding keeps_def by (metis snd_conv)

lemma keeps_wf: "keeps env c op \<Longrightarrow> op w = (r, w') \<Longrightarrow> wf_world w \<Longrightarrow> wf_world w'"
  unfolding keeps_def by (metis snd_conv)

lemma keeps_snd:
  assumes "keeps env c op" and "\<And>w. snd (op' w) = snd (op w)"
  shows "keeps env c op'"
  using assms by (simp add: keeps_def)

lemma keeps_return [keeps_intros]: "keeps env c (\<lambda>w. (x, w))"
  by (rule keepsI) simp_all

lemma keeps_tick [keeps_intros]: "keeps env c (\<lambda>w. (x w, tick w))"
  by (rule keepsI) simp_all

lemma keeps_bind:
  assumes "keeps env c op" and "\<And>r. keeps env c (k r)"
  shows "keeps env c (\<lambda>w. case op w of (r, w1) \<Rightarrow> k r w1)"
proof (rule keepsI)
  fix w
  obtain r w1 where r: "op w = (r, w1)" by (cases "op w")
  from keeps_frame [OF assms(1) r] assms(2) [of r]
  show "frame env c w (snd (case op w of (r, w1) \<Rightarrow> k r w1))"
    by (auto simp: r keeps_def intro: frame_trans)
next
  fix w assume wf: "wf_world w"
  obtain r w1 where r: "op w = (r, w1)" by (cases "op w")
  from keeps_wf [OF assms(1) r wf] assms(2) [of r]
  show "wf_world (snd (case op w of (r, w1) \<Rightarrow> k r w1))"
    by (simp add: r keeps_def)
qed

lemma keeps_query [keeps_intros]: "keeps env c (db_query env c q)"
proof (rule keepsI)
  fix w
  obtain r w1 where "db_query env c q w = (r, w1)" by (cases "db_query env c q w")
  then show "frame env c w (snd (db_query env c q w))"
    and "wf_world w \<Longrightarrow> wf_world (snd (db_query env c q w))"
    using db_query_frame db_query_wf by (metis snd_conv)+
qed

lemma keeps_exec:
  assumes f: "\<And>tb a tb'. wf_tables tb \<Longrightarrow> f tb = Inr (a, tb') \<Longrightarrow> wf_tables tb'"
  shows "keeps env c (db_exec env c f)"
proof (rule keepsI)
  fix w
  obtain r w1 where r: "db_exec env c f w = (r, w1)" by (cases "db_exec env c f w")
  from db_exec_frame [OF r] show "frame env c w (snd (db_exec env c f w))" by (simp add: r)
  show "wf_world w \<Longrightarrow> wf_world (snd (db_exec env c f w))"
    using db_exec_wf [OF r _ f] by (simp add: r)
qed

text \<open>Statements may depend on the state they run in (the clock, the order of a map iteration).\<close>

lemma keeps_dep:
  assumes "\<And>w0. keeps env c (op w0)"
  shows "keeps env c (\<lambda>w. op w w)"
  using assms by (simp add: keeps_def)

lemma keeps_query_then [keeps_intros]:
  "keeps env c (\<lambda>w. case db_query env c (q w) w of (r, w1) \<Rightarrow> (h r w w1, w1))"
  by (rule keeps_snd [OF keeps_dep [of env c "\<lambda>w0. db_query env c (q w0)"]])
    (auto intro: keeps_intros split: prod.splits)

lemma keeps_exec_then:
  assumes "\<And>w0 tb a tb'. wf_tables tb \<Longrightarrow> f w0 tb = Inr (a, tb') \<Longrightarrow> wf_tables tb'"
  shows "keeps env c (\<lambda>w. case db_exec env c (f w) w of (r, w1) \<Rightarrow> (h r w w1, w1))"
  by (rule keeps_snd [OF keeps_dep [of env c "\<lambda>w0. db_exec env c (f w0)"]])
    (auto intro: keeps_exec assms split: prod.splits)

lemma keeps_if: "keeps env c p \<Longrightarrow> keeps env c q \<Longrightarrow> keeps env c (\<lambda>w. if b w then p w else q w)"
  by (simp add: keeps_def)

section \<open>When the replica may answer\<close>

lemma Statement_replica:
  assumes "fst (Statement env c w) = RunReplica"
  shows "ctx_ro c \<and> \<not> ctx_tx c \<and> db_hasReplica (w_db w) \<and> db_replicaLagMs (w_db w) \<le> db_maxLagMs (w_db w)
       \<and> (ctx_lazy c \<longrightarrow> w_lazyTx w = None \<and> env_begin env (w_tick w) \<noteq> None)"
  using assms
  by (cases "w_lazyTx w"; cases "env_begin env (w_tick w)")
    (auto simp: Statement_def lazyTx_get_def route_rest_def split: if_splits)

text \<open>The last measurement the monitor took before it was stopped or ran out of ticks.\<close>

fun last_measurement :: "(nat \<times> int) res list \<Rightarrow> (nat \<times> int) res option" where
  "last_measurement [] = None"
| "last_measurement (Inl e # as) =
     (if isMissingRelation e then None
      else (case last_measurement as of None \<Rightarrow> Some (Inl e) | Some m \<Rightarrow> Some m))"
| "last_measurement (Inr m # as) =
     (case last_measurement as of None \<Rightarrow> Some (Inr m) | Some m' \<Rightarrow> Some m')"

lemma monitor_last:
  "db_replicaLagMs (monitorReplicationLag as d) =
     (case last_measurement as of
        None \<Rightarrow> db_replicaLagMs d
      | Some (Inl e) \<Rightarrow> MaxInt64
      | Some (Inr (count, lag)) \<Rightarrow> if count = 0 then MaxInt64 else lag)"
proof (induction as arbitrary: d rule: last_measurement.induct)
  case (2 e as)
  then show ?case
    by (cases "isMissingRelation e"; cases "last_measurement as") (simp_all add: monitor_tick_def)
next
  case (3 m as)
  then show ?case
    by (cases m; cases "last_measurement as") (simp_all add: monitor_tick_def)
qed simp

lemma monitor_keeps:
  "db_maxLagMs (monitorReplicationLag as d) = db_maxLagMs d
   \<and> db_hasReplica (monitorReplicationLag as d) = db_hasReplica d"
  by (induction as arbitrary: d rule: last_measurement.induct)
    (simp_all add: monitor_tick_def split_beta)

lemma NewDBClient_client:
  assumes "NewDBClient cfg prim repl = (BootClient d, ops)"
  shows "d = new_client (dc_ReplicaDSN cfg \<noteq> [] \<and> bc_parse repl = None \<and> bc_pool repl (replica_pool_config cfg) = None
    \<and> bc_ping repl = None) (dc_MaxReplicaLagMs cfg)"
  using assms by (auto simp: NewDBClient_def start_replica_def Let_def split: option.splits if_splits prod.splits)


definition demo_db_config :: db_Config where
  "demo_db_config = \<lparr>dc_DSN = ''postgres://db'', dc_MaxConns = 25, dc_MinConns = 2, dc_MaxConnLifetime = 3600000000000,
     dc_MaxConnIdleTime = 1800000000000, dc_TracingEnabled = False, dc_ReplicaDSN = [], dc_ReplicaMaxConns = 0,
     dc_ReplicaMinConns = 0, dc_ReplicaMaxConnLifetime = 0, dc_ReplicaMaxConnIdleTime = 0, dc_MaxReplicaLagMs = 0,
     dc_ReplicaPoolSizeMultiplier = \<lparr>fl_positive = True, fl_scale = (\<lambda>n. n)\<rparr>\<rparr>"


section \<open>What the transaction middleware makes of a handler\<close>

text \<open>The interface between the middleware and a request handler: under every context the handler
  keeps the contract.\<close>

locale framed_handler =
  fixes env :: env and handler :: "'b http_handler"
  assumes handler_keeps: "keeps env c (handler c)"
begin

text \<open>The request under a fresh lazy transaction: neither store moves before the commit.\<close>

lemma under_transaction:
  assumes "begins_ok env" and "handler (c\<lparr>ctx_lazy := True\<rparr>) (w\<lparr>w_lazyTx := None\<rparr>) = (resp, w1)"
  shows "w_primary w1 = w_primary w" "w_replica w1 = w_replica w"
  using keeps_frame [OF handler_keeps assms(2)] assms(1) by (simp_all add: frame_def)

lemma failed_request_is_rolled_back:
  assumes "begins_ok env" and "meth \<noteq> ''GET''" and "meth \<noteq> ''HEAD''"
    and "TransactionMiddleware env meth handler c w = (resp, w')" and "400 \<le> fst resp"
  shows "w_primary w' = w_primary w \<and> w_replica w' = w_replica w \<and> w_lazyTx w' = w_lazyTx w"
proof -
  obtain resp1 w1 where h: "handler (c\<lparr>ctx_lazy := True\<rparr>) (w\<lparr>w_lazyTx := None\<rparr>) = (resp1, w1)"
    by fastforce
  with assms(2-5) have "w' = w1\<lparr>w_lazyTx := w_lazyTx w\<rparr>"
    by (auto simp: TransactionMiddleware_def WithTx_def Let_def split: option.splits if_splits)
  with under_transaction [OF assms(1) h] show ?thesis by simp
qed

lemma commit_is_all_or_nothing:
  assumes "begins_ok env" and "meth \<noteq> ''GET''" and "meth \<noteq> ''HEAD''"
    and "handler (c\<lparr>ctx_lazy := True\<rparr>) (w\<lparr>w_lazyTx := None\<rparr>) = (resp, w1)"
    and "TransactionMiddleware env meth handler c w = (resp', w')"
  shows "resp' = resp \<and> w_replica w' = w_replica w \<and> w_lazyTx w' = w_lazyTx w \<and>
    w_primary w' =
      (case w_lazyTx w1 of
         None \<Rightarrow> w_primary w
       | Some t \<Rightarrow> if fst resp < 400 \<and> env_commit env (w_tick w1) = None \<and> \<not> tx_aborted t
                 then tx_tables t else w_primary w)"
proof (cases "w_lazyTx w1")
  case None
  with under_transaction [OF assms(1,4)] assms(2-5) show ?thesis
    by (cases "400 \<le> fst resp") (auto simp: TransactionMiddleware_def WithTx_def Let_def)
next
  case (Some t)
  with under_transaction [OF assms(1,4)] assms(2-5) show ?thesis
    by (cases "env_commit env (w_tick w1)"; cases "tx_aborted t"; cases "400 \<le> fst resp")
      (auto simp: TransactionMiddleware_def WithTx_def Let_def)
qed

lemma middleware_wf:
  assumes "TransactionMiddleware env meth handler c w = (resp, w')" and "wf_world w"
  shows "wf_world w'"
proof (cases "meth = ''GET'' \<or> meth = ''HEAD''")
  case True
  with assms keeps_wf [OF handler_keeps] show ?thesis by (auto simp: TransactionMiddleware_def)
next
  case False
  obtain resp1 w1 where h: "handler (c\<lparr>ctx_lazy := True\<rparr>) (w\<lparr>w_lazyTx := None\<rparr>) = (resp1, w1)"
    by fastforce
  from assms(2) have "wf_world (w\<lparr>w_lazyTx := None\<rparr>)" by (simp add: wf_world_def)
  from keeps_wf [OF handler_keeps h this] have w1: "wf_world w1" .
  with False assms h show ?thesis
    by (cases "w_lazyTx w1"; cases "400 \<le> fst resp1"; cases "env_commit env (w_tick w1)")
      (auto simp: TransactionMiddleware_def WithTx_def Let_def wf_world_def split: if_splits)
qed

end

section \<open>Pagination\<close>

lemma sint_nonneg_uint:
  fixes p :: "64 word"
  assumes "0 \<le> sint p"
  shows "uint p = sint p"
proof -
  have "sint p < 2 ^ 64" using sint_lt [of p] by simp
  with assms show ?thesis by (simp add: uint_sint take_bit_int_eq_self)
qed

text \<open>C34: pages tile the result. For a positive page number whose page ends within 64 bits, the
  unsigned offset is \<open>(page - 1) * size\<close> without wrap-around, and the next page starts exactly where
  this one ends; a non-positive page number is page one and a non-positive size is a hundred.\<close>

theorem pages_tile:
  assumes p: "1 \<le> sint p" "sint p < 2 ^ 63 - 1" and fits: "sint p * uint (PageSize sz) < 2 ^ 64"
  shows "uint (Offset p (PageSize sz)) = (sint p - 1) * uint (PageSize sz)
       \<and> uint (Offset (p + 1) (PageSize sz)) = uint (Offset p (PageSize sz)) + uint (PageSize sz)
       \<and> Offset 0 (PageSize sz) = 0
       \<and> uint (PageSize sz) = (if sint sz \<le> 0 then 100 else sint sz)"
proof -
  let ?s = "PageSize sz"
  have up: "uint p = sint p" using p by (simp add: sint_nonneg_uint)
  have "uint (p + 1) = sint p + 1"
    using p uint_add_lem [of p 1] by (simp add: up)
  then have sp: "sint (p + 1) = sint p + 1"
    using p by (simp only: sint_uint) (simp add: signed_take_bit_int_eq_self)
  have "uint (p * ?s) = sint p * uint ?s"
    using fits uint_mult_lem [of p ?s] by (simp add: up)
  with p sp have nxt: "uint (Offset (p + 1) ?s) = sint p * uint ?s" by (simp add: Offset_def)
  have u1: "uint (p - 1) = sint p - 1"
    using p uint_sub_lem [of 1 p] by (simp add: up)
  have "(sint p - 1) * uint ?s \<le> sint p * uint ?s" by (intro mult_right_mono) auto
  from order_le_less_trans [OF this fits] have "uint ((p - 1) * ?s) = (sint p - 1) * uint ?s"
    using uint_mult_lem [of "p - 1" ?s] by (simp add: u1)
  with p have off: "uint (Offset p ?s) = (sint p - 1) * uint ?s" by (simp add: Offset_def)
  from off nxt have "uint (Offset (p + 1) ?s) = uint (Offset p ?s) + uint ?s"
    by (simp add: algebra_simps)
  with off show ?thesis
    by (simp add: Offset_def PageSize_def defaultPage_def defaultPageSize_def sint_nonneg_uint)
qed

theorem pages_tile_witness:
  "uint (Offset 3 (PageSize 25)) = 50 \<and> uint (Offset (3 + 1) (PageSize 25)) = 75"
  using pages_tile [of 3 25] by (simp add: PageSize_def)

end
