(* ===== verification/StorageLaws.thy ===== *)
theory StorageLaws
  imports Storage DbLaws
begin

text \<open>
  What the storage layer promises. First its common contract: every method keeps the schema's
  invariant, never writes to the replica, and inside a lazy transaction leaves the primary alone
  (\<open>keeps\<close>). Then what each method answers and what it does to the relations
  \<open>memberships\<close> and \<open>allowances\<close>, on success and on failure, and that it succeeds when the
  database does.
\<close>

section \<open>Cursors\<close>

lemma scan_loop_Row [simp]: "scan_loop conv msg (map Row rs) acc = Inr (acc @ map conv rs)"
  by (induction rs arbitrary: acc) simp_all

lemma scan_loop_BadRow [simp]:
  "scan_loop conv msg (map Row rs @ [BadRow e]) acc = Inl (Errorf_v msg e)"
  by (induction rs arbitrary: acc) simp_all

lemma read_rows_None [simp]: "read_rows conv s i (cursor None rows) = Inr (map conv rows)"
  by (simp add: read_rows_def cursor_def)

text \<open>A slice that comes back without an error is complete: a scan failure or a cursor that breaks
  half way never passes for the end of the rows.\<close>

lemma read_rows_Inr:
  "read_rows conv s i (cursor flt rows) = Inr xs \<Longrightarrow> xs = map conv rows"
  by (auto simp: read_rows_def cursor_def split: option.splits fault.splits if_splits)

lemma read_apps_None [simp]: "read_apps i (cursor None rows) = Inr rows"
  by (simp add: read_apps_def scanApps_def cursor_def)

lemma read_apps_Inr: "read_apps i (cursor flt rows) = Inr xs \<Longrightarrow> xs = rows"
  by (auto simp: read_apps_def scanApps_def cursor_def split: option.splits fault.splits if_splits)

lemma scan_row_None [simp]:
  "scan_row conv (cursor None (r # rs)) = Inr (conv r)"
  "scan_row conv (cursor None []) = Inl (Sentinel sql_ErrNoRows)"
  by (simp_all add: scan_row_def cursor_def)

lemma scan_row_Inr:
  assumes "scan_row conv (cursor flt rows) = Inr x"
  shows "\<exists>r rs. rows = r # rs \<and> x = conv r"
proof (cases rows)
  case Nil
  with assms show ?thesis by (auto simp: scan_row_def cursor_def split: option.splits fault.splits)
next
  case (Cons r rs)
  with assms show ?thesis
    by (auto simp: scan_row_def cursor_def take_Cons' split: option.splits fault.splits if_splits)
qed

section \<open>The common contract\<close>

lemma keeps_execs [keeps_intros]:
  "keeps env c (db_exec env c (sql_insert_group r))"
  "keeps env c (db_exec env c (sql_update_groups gid n d t now))"
  "keeps env c (db_exec env c (sql_delete_groups gid))"
  "keeps env c (db_exec env c (sql_upsert_members ms))"
  "keeps env c (db_exec env c (sql_delete_members P))"
  "keeps env c (db_exec env c (sql_insert_app a))"
  "keeps env c (db_exec env c (sql_insert_apps_or_nothing as))"
  "keeps env c (db_exec env c (sql_delete_apps_returning Q))"
  by (rule keeps_exec, erule (1) wf_statements)+

text \<open>The world an operation leaves is the one its only statement leaves.\<close>

lemma snd_case_query:
  "snd (case q of (Inl e, w1) \<Rightarrow> (f e, w1) | (Inr (rows, flt), w1) \<Rightarrow> (g rows flt, w1)) = snd q"
  by (auto split: prod.splits sum.splits)

lemma snd_exec_result [simp]: "snd (exec_result msg q) = snd q"
  by (auto simp: exec_result_def split: prod.splits sum.splits)

lemma snd_one_group [simp]: "snd (one_group q) = snd q"
  by (auto simp: one_group_def Let_def split: sum.splits)

lemma keeps_ListGroups [keeps_intros]: "keeps env c (ListGroups env c)"
  by (rule keeps_snd [OF keeps_query]) (simp add: ListGroups_def snd_case_query)

lemma keeps_GetGroup [keeps_intros]: "keeps env c (GetGroup env c gid)"
  by (rule keeps_snd [OF keeps_query]) (simp add: GetGroup_def)

lemma keeps_GetGroupByName [keeps_intros]: "keeps env c (GetGroupByName env c name tenantID)"
  by (rule keeps_snd [OF keeps_query]) (simp add: GetGroupByName_def Let_def)

lemma keeps_ListUsersInGroup [keeps_intros]: "keeps env c (ListUsersInGroup env c gid)"
  by (rule keeps_snd [OF keeps_query]) (simp add: ListUsersInGroup_def snd_case_query)

lemma keeps_GetGroupsForUser [keeps_intros]: "keeps env c (GetGroupsForUser env c uid)"
  by (rule keeps_snd [OF keeps_query]) (simp add: GetGroupsForUser_def snd_case_query)

lemma keeps_ListGroupsByPrefix [keeps_intros]: "keeps env c (ListGroupsByPrefix env c pre tenantID)"
  by (rule keeps_snd [OF keeps_query]) (simp add: ListGroupsByPrefix_def Let_def snd_case_query)

lemma keeps_with_timeout: "keeps (with_timeout d env) c op = keeps env c op"
  by (simp add: keeps_def frame_def begins_ok_def with_timeout_def)

lemmas keeps_stream = keeps_query [of "with_timeout d env" for d env, unfolded keeps_with_timeout]

lemma keeps_StreamGroupsForUser [keeps_intros]: "keeps env c (StreamGroupsForUser st env c tid uid fn s)"
  by (rule keeps_snd [OF keeps_stream]) (simp add: StreamGroupsForUser_def snd_case_query)

lemma keeps_StreamUsersInGroup [keeps_intros]: "keeps env c (StreamUsersInGroup st env c tid gid fn s)"
  by (rule keeps_snd [OF keeps_stream]) (simp add: StreamUsersInGroup_def snd_case_query)

lemma keeps_GetAllowedApps [keeps_intros]: "keeps env c (GetAllowedApps env c gid)"
  by (rule keeps_snd [OF keeps_query]) (simp add: GetAllowedApps_def snd_case_query)

lemma keeps_GetAllowedGroupsForApp [keeps_intros]: "keeps env c (GetAllowedGroupsForApp env c aid)"
  by (rule keeps_snd [OF keeps_query]) (simp add: GetAllowedGroupsForApp_def snd_case_query)

lemma keeps_DeleteGroup [keeps_intros]: "keeps env c (DeleteGroup env c gid)"
  by (rule keeps_snd [OF keeps_execs(3)]) (simp add: DeleteGroup_def)

lemma keeps_RemoveUsersFromGroup [keeps_intros]: "keeps env c (RemoveUsersFromGroup env c gid users)"
  by (rule keeps_snd [OF keeps_execs(5)]) (simp add: RemoveUsersFromGroup_def)

lemma keeps_RemoveUserFromAllGroups [keeps_intros]: "keeps env c (RemoveUserFromAllGroups env c uid)"
  by (rule keeps_snd [OF keeps_execs(5)]) (simp add: RemoveUserFromAllGroups_def)

lemma keeps_RemoveAllowedApp [keeps_intros]: "keeps env c (RemoveAllowedApp env c gid aid)"
  by (rule keeps_snd [OF keeps_execs(8)]) (simp add: RemoveAllowedApp_def)

lemma keeps_RemoveAllowedApps [keeps_intros]: "keeps env c (RemoveAllowedApps env c gid)"
  by (rule keeps_snd [OF keeps_execs(8)]) (simp add: RemoveAllowedApps_def snd_case_query)

lemma keeps_RemoveAllAllowedGroupsForApp [keeps_intros]:
  "keeps env c (RemoveAllAllowedGroupsForApp env c aid)"
  by (rule keeps_snd [OF keeps_execs(8)]) (simp add: RemoveAllAllowedGroupsForApp_def snd_case_query)

lemma keeps_UpdateGroup [keeps_intros]: "keeps env c (UpdateGroup env c gid grp)"
  by (rule keeps_snd [OF keeps_dep [of env c "\<lambda>w0. db_exec env c (sql_update_groups gid (g_Name grp)
        (g_Description grp) (g_Type grp) (env_clock env (w_tick w0)))", OF keeps_execs(2)]])
    (auto simp: UpdateGroup_def Let_def split: prod.splits sum.splits)

lemma keeps_AddAllowedApp [keeps_intros]: "keeps env c (AddAllowedApp env c gid aid)"
  by (rule keeps_snd [OF keeps_dep [of env c "\<lambda>w0. db_exec env c (sql_insert_app
        (app_row (env_clock env (w_tick w0)) gid aid))", OF keeps_execs(6)]])
    (auto simp: AddAllowedApp_def Let_def split: prod.splits sum.splits)

lemma keeps_AddAllowedApps [keeps_intros]: "keeps env c (AddAllowedApps env c gid aids)"
proof (cases "aids = []")
  case False
  show ?thesis
    by (rule keeps_snd [OF keeps_dep [of env c "\<lambda>w0. db_exec env c (sql_insert_apps_or_nothing
          (map (app_row (env_clock env (w_tick w0)) gid) aids))", OF keeps_execs(7)]])
      (use False in \<open>auto simp: AddAllowedApps_def Let_def split: prod.splits sum.splits\<close>)
qed (simp add: AddAllowedApps_def keeps_def)

lemma keeps_AddAllowedGroupsForApp [keeps_intros]: "keeps env c (AddAllowedGroupsForApp env c aid gids)"
proof (cases "gids = []")
  case False
  show ?thesis
    by (rule keeps_snd [OF keeps_dep [of env c "\<lambda>w0. db_exec env c (sql_insert_apps_or_nothing
          (map (\<lambda>g. app_row (env_clock env (w_tick w0)) g aid) gids))", OF keeps_execs(7)]])
      (use False in \<open>auto simp: AddAllowedGroupsForApp_def Let_def split: prod.splits sum.splits\<close>)
qed (simp add: AddAllowedGroupsForApp_def keeps_def)

lemma keeps_AddUsersToGroup [keeps_intros]: "keeps env c (AddUsersToGroup env c gid users)"
proof (cases "users = []")
  case False
  show ?thesis
    by (rule keeps_snd [OF keeps_dep [of env c "\<lambda>w0. db_exec env c (sql_upsert_members
          (map (member_row (env_clock env (w_tick w0)) gid) (dedup_loop [] [] users)))", OF keeps_execs(4)]])
      (use False in \<open>auto simp: AddUsersToGroup_def Let_def split: prod.splits sum.splits\<close>)
qed (simp add: AddUsersToGroup_def keeps_def)

lemma keeps_CreateGroup [keeps_intros]: "keeps env c (CreateGroup env c grp)"
proof (rule keepsI)
  fix w
  show "frame env c w (snd (CreateGroup env c grp w))"
    by (auto simp: CreateGroup_def Let_def split: prod.splits sum.splits dest!: db_exec_frame)
  show "wf_world w \<Longrightarrow> wf_world (snd (CreateGroup env c grp w))"
    by (auto simp: CreateGroup_def Let_def split: prod.splits sum.splits
        dest!: db_exec_wf [OF _ _ wf_insert_group])
qed

section \<open>Statements one by one\<close>

lemma exec_result_simps [simp]:
  "exec_result msg (Inl e, w) = (Inl (Errorf_v msg e), w)"
  "exec_result msg (Inr x, w) = (Inr (), w)"
  by (simp_all add: exec_result_def)

lemma exec_result_Inr: "exec_result msg q = (Inr u, w') \<longleftrightarrow> (\<exists>x. q = (Inr x, w'))"
  by (auto simp: exec_result_def split: prod.splits sum.splits)

lemma exec_result_Inl: "exec_result msg q = (Inl e, w') \<longleftrightarrow> (\<exists>e'. q = (Inl e', w') \<and> e = Errorf_v msg e')"
  by (auto simp: exec_result_def split: prod.splits sum.splits)

lemma exec_result_unchanged:
  assumes "writable c" and "exec_result msg (db_exec env c f w) = (Inl e, w')"
  shows "target c w' = target c w"
proof -
  from assms(2) obtain e' where "db_exec env c f w = (Inl e', w')" by (auto simp: exec_result_Inl)
  from db_exec_Inl [OF assms(1) this] show ?thesis .
qed

lemma delete_members_exec:
  assumes "writable c" and "db_exec env c (sql_delete_members P) w = (Inr x, w')"
  shows "memberships (target c w') = member_key ` {m \<in> set (t_members (target c w)). \<not> P m}"
    "t_groups (target c w') = t_groups (target c w)" "t_apps (target c w') = t_apps (target c w)"
proof -
  obtain a flt where x: "x = (a, flt)" by (cases x)
  from db_exec_Inr [OF assms(1) assms(2) [unfolded x]]
  have e: "sql_delete_members P (target c w) = Inr (a, target c w')" .
  from memberships_delete [OF e] show
    "memberships (target c w') = member_key ` {m \<in> set (t_members (target c w)). \<not> P m}"
    "t_groups (target c w') = t_groups (target c w)" "t_apps (target c w') = t_apps (target c w)"
    by simp_all
qed

lemma upsert_members_exec:
  assumes "writable c" and "db_exec env c (sql_upsert_members rows) w = (Inr x, w')"
  shows "memberships (target c w') = memberships (target c w) \<union> member_key ` set rows"
    "t_groups (target c w') = t_groups (target c w)" "t_apps (target c w') = t_apps (target c w)"
proof -
  obtain a flt where x: "x = (a, flt)" by (cases x)
  from db_exec_Inr [OF assms(1) assms(2) [unfolded x]]
  have e: "sql_upsert_members rows (target c w) = Inr (a, target c w')" .
  from memberships_upsert [OF e] show
    "memberships (target c w') = memberships (target c w) \<union> member_key ` set rows"
    "t_groups (target c w') = t_groups (target c w)" "t_apps (target c w') = t_apps (target c w)"
    by simp_all
qed

lemma delete_members_succeeds:
  assumes "writable c" "no_faults env" "live c w"
  shows "\<exists>x w'. db_exec env c (sql_delete_members P) w = (Inr x, w') \<and> live c w'"
proof -
  obtain r w' where r: "db_exec env c (sql_delete_members P) w = (r, w')"
    by (cases "db_exec env c (sql_delete_members P) w")
  from db_exec_no_faults [OF assms r] have "\<exists>x. r = Inr x"
    by (simp add: sql_delete_members_def)
  with r db_exec_live [OF assms(1) _ assms(3)] show ?thesis by blast
qed

lemma delete_members_not_Inl:
  assumes "writable c" "no_faults env" "live c w"
  shows "db_exec env c (sql_delete_members P) w \<noteq> (Inl e, w')"
  using delete_members_succeeds [OF assms, of P] by auto

text \<open>The groups a membership can refer to: the rows of the default tenant.\<close>

definition default_groups :: "tables \<Rightarrow> string set" where
  "default_groups tb = set (map gr_id (filter (\<lambda>r. gr_tenant_id r = ''default'') (t_groups tb)))"

lemma default_groups_key: "g \<in> default_groups tb \<longleftrightarrow> (g, ''default'') \<in> group_key ` set (t_groups tb)"
  by (force simp: default_groups_def group_key_def image_iff)

lemma member_row_simps [simp]:
  "member_key (member_row now g u) = (g, u)" "member_ref (member_row now g u) = (g, ''default'')"
  by (simp_all add: member_row_def member_key_def member_ref_def)

lemma upsert_members_succeeds:
  assumes "writable c" "no_faults env" "live c w" "distinct (map member_key rows)"
    and "\<forall>r \<in> set rows. member_ref r \<in> group_key ` set (t_groups (target c w))"
  shows "\<exists>x w'. db_exec env c (sql_upsert_members rows) w = (Inr x, w') \<and> live c w'"
proof -
  obtain r w' where r: "db_exec env c (sql_upsert_members rows) w = (r, w')"
    by (cases "db_exec env c (sql_upsert_members rows) w")
  from upsert_members_ok [OF assms(4)] assms(5) obtain tb
    where "sql_upsert_members rows (target c w) = Inr ((), tb)" by auto
  with db_exec_no_faults [OF assms(1-3) r] have "\<exists>x. r = Inr x" by simp
  with r db_exec_live [OF assms(1) _ assms(3)] show ?thesis by blast
qed

lemma unique_keys_simps [simp]:
  "set (unique_keys env w ids) = set ids" "distinct (unique_keys env w ids)"
  "unique_keys env w ids = [] \<longleftrightarrow> ids = []"
  by (auto simp: unique_keys_def)

section \<open>Replacing memberships\<close>

text \<open>
  The two-step replacement of \<open>UpdateGroupsForUser\<close> and \<open>SyncGroupMembers\<close>: delete what is
  not wanted, then upsert what is.
\<close>

lemma UpdateGroupsForUser_cases:
  assumes "UpdateGroupsForUser env c u gs w = (r, w')"
  obtains (del_failed) e where "db_exec env c (sql_delete_members (\<lambda>m. gm_user_id m = u \<and>
        (gs \<noteq> [] \<longrightarrow> gm_group_id m \<notin> set gs))) w = (Inl e, w')"
      "r = Inl (Errorf_v ''failed to remove old group memberships'' e)"
  | (deleted) x where "db_exec env c (sql_delete_members (\<lambda>m. gm_user_id m = u \<and>
        (gs \<noteq> [] \<longrightarrow> gm_group_id m \<notin> set gs))) w = (Inr x, w')" "gs = []" "r = Inr ()"
  | (upsert) x w1 y now where "db_exec env c (sql_delete_members (\<lambda>m. gm_user_id m = u \<and>
        (gs \<noteq> [] \<longrightarrow> gm_group_id m \<notin> set gs))) w = (Inr x, w1)" "gs \<noteq> []"
      "db_exec env c (sql_upsert_members (map (\<lambda>g. member_row now g u) (unique_keys env w gs))) w1
         = (y, w')"
      "r = (case y of Inr z \<Rightarrow> Inr () | Inl e \<Rightarrow> Inl (if IsForeignKeyViolation e
              then WrapForeignKeyError e ''one or more groups do not exist''
              else Errorf_v ''failed to upsert group memberships'' e))"
  using assms
  by (auto simp: UpdateGroupsForUser_def Let_def split: prod.splits sum.splits if_splits)

lemma SyncGroupMembers_cases:
  assumes "SyncGroupMembers env c gid us w = (r, w')"
  obtains (del_failed) e where "db_exec env c (sql_delete_members (\<lambda>m. gm_group_id m = gid \<and>
        (us \<noteq> [] \<longrightarrow> gm_user_id m \<notin> set us))) w = (Inl e, w')"
      "r = Inl (Errorf_v ''failed to remove stale group members'' e)"
  | (deleted) x where "db_exec env c (sql_delete_members (\<lambda>m. gm_group_id m = gid \<and>
        (us \<noteq> [] \<longrightarrow> gm_user_id m \<notin> set us))) w = (Inr x, w')" "us = []" "r = Inr ()"
  | (upsert) x w1 y now where "db_exec env c (sql_delete_members (\<lambda>m. gm_group_id m = gid \<and>
        (us \<noteq> [] \<longrightarrow> gm_user_id m \<notin> set us))) w = (Inr x, w1)" "us \<noteq> []"
      "db_exec env c (sql_upsert_members (map (member_row now gid) (unique_keys env w us))) w1
         = (y, w')"
      "r = (case y of Inr z \<Rightarrow> Inr () | Inl e \<Rightarrow> Inl (Errorf_v ''failed to upsert group members'' e))"
  using assms
  by (auto simp: SyncGroupMembers_def Let_def exec_result_def split: prod.splits sum.splits if_splits)

lemma keeps_UpdateGroupsForUser [keeps_intros]: "keeps env c (UpdateGroupsForUser env c u gs)"
proof (rule keepsI)
  fix w
  obtain r w' where r: "UpdateGroupsForUser env c u gs w = (r, w')"
    by (cases "UpdateGroupsForUser env c u gs w")
  from r have "frame env c w w' \<and> (wf_world w \<longrightarrow> wf_world w')"
    by (cases rule: UpdateGroupsForUser_cases;
        blast intro: frame_trans db_exec_frame keeps_wf [OF keeps_execs(5)] keeps_wf [OF keeps_execs(4)])
  with r show "frame env c w (snd (UpdateGroupsForUser env c u gs w))"
    and "wf_world w \<Longrightarrow> wf_world (snd (UpdateGroupsForUser env c u gs w))" by simp_all
qed

lemma keeps_SyncGroupMembers [keeps_intros]: "keeps env c (SyncGroupMembers env c gid us)"
proof (rule keepsI)
  fix w
  obtain r w' where r: "SyncGroupMembers env c gid us w = (r, w')"
    by (cases "SyncGroupMembers env c gid us w")
  from r have "frame env c w w' \<and> (wf_world w \<longrightarrow> wf_world w')"
    by (cases rule: SyncGroupMembers_cases;
        blast intro: frame_trans db_exec_frame keeps_wf [OF keeps_execs(5)] keeps_wf [OF keeps_execs(4)])
  with r show "frame env c w (snd (SyncGroupMembers env c gid us w))"
    and "wf_world w \<Longrightarrow> wf_world (snd (SyncGroupMembers env c gid us w))" by simp_all
qed

lemma UpdateGroupsForUser_effect:
  assumes wr: "writable c" and op: "UpdateGroupsForUser env c u gs w = (Inr v, w')"
  shows "memberships (target c w') = {(g, x) \<in> memberships (target c w). x \<noteq> u} \<union> set gs \<times> {u}
       \<and> t_groups (target c w') = t_groups (target c w) \<and> t_apps (target c w') = t_apps (target c w)"
  using op
proof (cases rule: UpdateGroupsForUser_cases)
  case (deleted x)
  from delete_members_exec [OF wr deleted(1)] deleted(2) show ?thesis
    by (auto simp: memberships_def member_key_def)
next
  case (upsert x w1 y now)
  from upsert(4) obtain z where y: "y = Inr z" by (cases y) simp_all
  note D = delete_members_exec [OF wr upsert(1)]
  note U = upsert_members_exec [OF wr upsert(3) [unfolded y]]
  from U(2,3) D(2,3) have "t_groups (target c w') = t_groups (target c w)"
    "t_apps (target c w') = t_apps (target c w)" by simp_all
  moreover have "member_key ` set (map (\<lambda>g. member_row now g u) (unique_keys env w gs)) = set gs \<times> {u}"
    by (auto simp: image_image)
  with U(1) D(1) upsert(2) have "memberships (target c w') =
      {(g, x) \<in> memberships (target c w). x \<noteq> u} \<union> set gs \<times> {u}"
    by (auto simp: memberships_def member_key_def)
  ultimately show ?thesis by simp
qed simp

lemma SyncGroupMembers_effect:
  assumes wr: "writable c" and op: "SyncGroupMembers env c gid us w = (Inr v, w')"
  shows "memberships (target c w') = {(g, x) \<in> memberships (target c w). g \<noteq> gid} \<union> {gid} \<times> set us
       \<and> t_groups (target c w') = t_groups (target c w) \<and> t_apps (target c w') = t_apps (target c w)"
  using op
proof (cases rule: SyncGroupMembers_cases)
  case (deleted x)
  from delete_members_exec [OF wr deleted(1)] deleted(2) show ?thesis
    by (auto simp: memberships_def member_key_def)
next
  case (upsert x w1 y now)
  from upsert(4) obtain z where y: "y = Inr z" by (cases y) simp_all
  note D = delete_members_exec [OF wr upsert(1)]
  note U = upsert_members_exec [OF wr upsert(3) [unfolded y]]
  from U(2,3) D(2,3) have "t_groups (target c w') = t_groups (target c w)"
    "t_apps (target c w') = t_apps (target c w)" by simp_all
  moreover have "member_key ` set (map (member_row now gid) (unique_keys env w us)) = {gid} \<times> set us"
    by (auto simp: image_image)
  with U(1) D(1) upsert(2) have "memberships (target c w') =
      {(g, x) \<in> memberships (target c w). g \<noteq> gid} \<union> {gid} \<times> set us"
    by (auto simp: memberships_def member_key_def)
  ultimately show ?thesis by simp
qed simp

text \<open>What a failure can leave behind: the deletion alone, never a half-done insertion.\<close>

lemma UpdateGroupsForUser_failure:
  assumes wr: "writable c" and op: "UpdateGroupsForUser env c u gs w = (Inl e, w')"
  shows "memberships (target c w') = memberships (target c w) \<or>
         memberships (target c w') = {(g, x) \<in> memberships (target c w). x = u \<longrightarrow> g \<in> set gs}"
  using op
proof (cases rule: UpdateGroupsForUser_cases)
  case del_failed
  from db_exec_Inl [OF wr del_failed(1)] show ?thesis by simp
next
  case (upsert x w1 y now)
  from upsert(4) obtain e' where "y = Inl e'" by (cases y) simp_all
  with db_exec_Inl [OF wr] upsert(3) have "target c w' = target c w1" by blast
  with delete_members_exec(1) [OF wr upsert(1)] upsert(2) show ?thesis
    by (auto simp: memberships_def member_key_def)
qed simp

lemma SyncGroupMembers_failure:
  assumes wr: "writable c" and op: "SyncGroupMembers env c gid us w = (Inl e, w')"
  shows "memberships (target c w') = memberships (target c w) \<or>
         memberships (target c w') = {(g, x) \<in> memberships (target c w). g = gid \<longrightarrow> x \<in> set us}"
  using op
proof (cases rule: SyncGroupMembers_cases)
  case del_failed
  from db_exec_Inl [OF wr del_failed(1)] show ?thesis by simp
next
  case (upsert x w1 y now)
  from upsert(4) obtain e' where "y = Inl e'" by (cases y) simp_all
  with db_exec_Inl [OF wr] upsert(3) have "target c w' = target c w1" by blast
  with delete_members_exec(1) [OF wr upsert(1)] upsert(2) show ?thesis
    by (auto simp: memberships_def member_key_def)
qed simp

text \<open>Success, when the database works and the groups exist in the default tenant.\<close>

lemma UpdateGroupsForUser_succeeds:
  assumes wr: "writable c" "no_faults env" "live c w" and gs: "set gs \<subseteq> default_groups (target c w)"
  shows "\<exists>w'. UpdateGroupsForUser env c u gs w = (Inr (), w') \<and> live c w'"
proof -
  obtain r w' where op: "UpdateGroupsForUser env c u gs w = (r, w')"
    by (cases "UpdateGroupsForUser env c u gs w")
  from op show ?thesis
  proof (cases rule: UpdateGroupsForUser_cases)
    case del_failed
    with delete_members_not_Inl [OF wr] show ?thesis by blast
  next
    case deleted
    with op db_exec_live [OF wr(1) deleted(1) wr(3)] show ?thesis by simp
  next
    case (upsert x w1 y now)
    from db_exec_live [OF wr(1) upsert(1) wr(3)] have lv: "live c w1" .
    let ?rows = "map (\<lambda>g. member_row now g u) (unique_keys env w gs)"
    have "distinct (map member_key ?rows)"
      by (simp add: comp_def distinct_map inj_on_def)
    moreover have "\<forall>r \<in> set ?rows. member_ref r \<in> group_key ` set (t_groups (target c w1))"
      using gs by (auto simp: delete_members_exec(2) [OF wr(1) upsert(1)] default_groups_key)
    ultimately obtain z w2 where "db_exec env c (sql_upsert_members ?rows) w1 = (Inr z, w2)" "live c w2"
      using upsert_members_succeeds [OF wr(1,2) lv] by blast
    with upsert(3,4) op show ?thesis by auto
  qed
qed

lemma SyncGroupMembers_succeeds:
  assumes wr: "writable c" "no_faults env" "live c w" and gs: "us \<noteq> [] \<longrightarrow> gid \<in> default_groups (target c w)"
  shows "\<exists>w'. SyncGroupMembers env c gid us w = (Inr (), w') \<and> live c w'"
proof -
  obtain r w' where op: "SyncGroupMembers env c gid us w = (r, w')"
    by (cases "SyncGroupMembers env c gid us w")
  from op show ?thesis
  proof (cases rule: SyncGroupMembers_cases)
    case del_failed
    with delete_members_not_Inl [OF wr] show ?thesis by blast
  next
    case deleted
    with op db_exec_live [OF wr(1) deleted(1) wr(3)] show ?thesis by simp
  next
    case (upsert x w1 y now)
    from db_exec_live [OF wr(1) upsert(1) wr(3)] have lv: "live c w1" .
    let ?rows = "map (member_row now gid) (unique_keys env w us)"
    have "distinct (map member_key ?rows)"
      by (simp add: comp_def distinct_map inj_on_def)
    moreover have "\<forall>r \<in> set ?rows. member_ref r \<in> group_key ` set (t_groups (target c w1))"
      using gs upsert(2) by (auto simp: delete_members_exec(2) [OF wr(1) upsert(1)] default_groups_key)
    ultimately obtain z w2 where "db_exec env c (sql_upsert_members ?rows) w1 = (Inr z, w2)" "live c w2"
      using upsert_members_succeeds [OF wr(1,2) lv] by blast
    with upsert(3,4) op show ?thesis by auto
  qed
qed

section \<open>Adding and removing members\<close>

lemma upsert_members_fk:
  assumes "distinct (map member_key rows)" and "r \<in> set (fresh_members rows tb)"
    and "member_ref r \<notin> set (map group_key (t_groups tb))"
  shows "sql_upsert_members rows tb = Inl foreign_key_violation"
proof -
  from assms(2,3) have "\<exists>r \<in> set (fresh_members rows tb). member_ref r \<notin> set (map group_key (t_groups tb))"
    by blast
  with assms(1) show ?thesis by (simp add: sql_upsert_members_def)
qed

lemma delete_groups_rows:
  "sql_delete_groups gid tb = Inr (u, tb') \<Longrightarrow> t_groups tb' = filter (\<lambda>r. gr_id r \<noteq> gid) (t_groups tb)"
  by (auto simp: sql_delete_groups_def Let_def)

lemma AddUsersToGroup_cases:
  assumes "AddUsersToGroup env c gid us w = (r, w')"
  obtains (nothing) "us = []" "r = Inr ()" "w' = w"
  | (upsert) y now where "us \<noteq> []"
      "db_exec env c (sql_upsert_members (map (member_row now gid) (dedup_loop [] [] us))) w = (y, w')"
      "r = (case y of Inr z \<Rightarrow> Inr () | Inl e \<Rightarrow> Inl (if IsForeignKeyViolation e
              then WrapForeignKeyError e ''group does not exist''
              else Errorf_v ''failed to insert group members'' e))"
  using assms by (auto simp: AddUsersToGroup_def Let_def split: prod.splits sum.splits if_splits)

lemma AddUsersToGroup_effect:
  assumes wr: "writable c" and op: "AddUsersToGroup env c gid us w = (r, w')"
  shows "t_groups (target c w') = t_groups (target c w) \<and> t_apps (target c w') = t_apps (target c w) \<and>
    memberships (target c w') =
      (if is_ok r then memberships (target c w) \<union> {gid} \<times> set us else memberships (target c w))"
  using op
proof (cases rule: AddUsersToGroup_cases)
  case (upsert y now)
  show ?thesis
  proof (cases y)
    case (Inl e)
    from db_exec_Inl [OF wr upsert(2) [unfolded Inl]] upsert(3) Inl show ?thesis by simp
  next
    case (Inr z)
    have "member_key ` set (map (member_row now gid) (dedup_loop [] [] us)) = {gid} \<times> set us"
      by (auto simp: image_image)
    with upsert_members_exec [OF wr upsert(2) [unfolded Inr]] upsert(3) Inr show ?thesis by simp
  qed
qed auto

lemma AddUsersToGroup_succeeds:
  assumes wr: "writable c" "no_faults env" "live c w" and g: "gid \<in> default_groups (target c w)"
  shows "\<exists>w'. AddUsersToGroup env c gid us w = (Inr (), w') \<and> live c w'"
proof -
  obtain r w' where op: "AddUsersToGroup env c gid us w = (r, w')"
    by (cases "AddUsersToGroup env c gid us w")
  from op show ?thesis
  proof (cases rule: AddUsersToGroup_cases)
    case (upsert y now)
    let ?rows = "map (member_row now gid) (dedup_loop [] [] us)"
    have "distinct (map member_key ?rows)"
      by (simp add: comp_def distinct_map inj_on_def)
    moreover have "\<forall>r \<in> set ?rows. member_ref r \<in> group_key ` set (t_groups (target c w))"
      using g by (auto simp: default_groups_key)
    ultimately obtain z w2 where "db_exec env c (sql_upsert_members ?rows) w = (Inr z, w2)" "live c w2"
      using upsert_members_succeeds [OF wr] by blast
    with upsert(2,3) op show ?thesis by auto
  qed (use op wr in auto)
qed

lemma fk_codes [simp]:
  "IsForeignKeyViolation foreign_key_violation" "\<not> IsDuplicateKeyError foreign_key_violation"
  "IsDuplicateKeyError unique_violation" "\<not> IsForeignKeyViolation unique_violation"
  "\<not> IsForeignKeyViolation cardinality_violation"
  by (simp_all add: IsForeignKeyViolation_def IsDuplicateKeyError_def)

lemma Wrap_Is [simp]:
  "IsForeignKeyViolation e \<Longrightarrow>
     errors_Is (WrapForeignKeyError e msg) s \<longleftrightarrow> s = storage_ErrForeignKeyViolation"
  "IsDuplicateKeyError e \<Longrightarrow>
     errors_Is (WrapDuplicateKeyError e msg) s \<longleftrightarrow> s = storage_ErrDuplicateKey"
  by (auto simp: WrapForeignKeyError_def WrapDuplicateKeyError_def)

text \<open>Adding someone new to a group that is not in the default tenant: the foreign key stops it, and
  the caller can tell.\<close>

lemma AddUsersToGroup_missing_group:
  assumes wr: "writable c" "no_faults env" "live c w" and wf: "wf_world w"
    and g: "gid \<notin> default_groups (target c w)" and u: "u \<in> set us" "(gid, u) \<notin> memberships (target c w)"
  shows "\<exists>e w'. AddUsersToGroup env c gid us w = (Inl e, w')
           \<and> errors_Is e storage_ErrForeignKeyViolation \<and> target c w' = target c w"
proof -
  obtain r w' where op: "AddUsersToGroup env c gid us w = (r, w')"
    by (cases "AddUsersToGroup env c gid us w")
  from op show ?thesis
  proof (cases rule: AddUsersToGroup_cases)
    case (upsert y now)
    let ?rows = "map (member_row now gid) (dedup_loop [] [] us)"
    have "distinct (map member_key ?rows)"
      by (simp add: comp_def distinct_map inj_on_def)
    moreover have "member_row now gid u \<in> set (fresh_members ?rows (target c w))"
      using u by (simp add: fresh_members_def memberships_def)
    moreover have "member_ref (member_row now gid u) \<notin> set (map group_key (t_groups (target c w)))"
      using g by (simp add: default_groups_key)
    ultimately have "sql_upsert_members ?rows (target c w) = Inl foreign_key_violation"
      by (rule upsert_members_fk)
    with db_exec_no_faults [OF wr upsert(2)] have y: "y = Inl foreign_key_violation" by simp
    with upsert(3) have r: "r = Inl (WrapForeignKeyError foreign_key_violation ''group does not exist'')"
      by simp
    from db_exec_Inl [OF wr(1) upsert(2) [unfolded y]] have t: "target c w' = target c w" .
    show ?thesis
    proof (intro exI conjI)
      show "AddUsersToGroup env c gid us w =
          (Inl (WrapForeignKeyError foreign_key_violation ''group does not exist''), w')"
        using op r by simp
    qed (use t in simp_all)
  qed (use u in simp)
qed

lemma RemoveUsersFromGroup_effect:
  assumes wr: "writable c" and op: "RemoveUsersFromGroup env c gid us w = (r, w')"
  shows "t_groups (target c w') = t_groups (target c w) \<and> t_apps (target c w') = t_apps (target c w) \<and>
    memberships (target c w') =
      (if is_ok r then memberships (target c w) - {gid} \<times> set us else memberships (target c w))"
proof (cases r)
  case (Inl e)
  with exec_result_unchanged [OF wr op [unfolded RemoveUsersFromGroup_def Inl]] show ?thesis by simp
next
  case (Inr v)
  with op obtain x where "db_exec env c
      (sql_delete_members (\<lambda>m. gm_group_id m = gid \<and> gm_user_id m \<in> set us)) w = (Inr x, w')"
    by (auto simp: RemoveUsersFromGroup_def exec_result_Inr)
  from delete_members_exec [OF wr this] Inr show ?thesis
    by (auto simp: memberships_def member_key_def)
qed

lemma RemoveUserFromAllGroups_effect:
  assumes wr: "writable c" and op: "RemoveUserFromAllGroups env c u w = (r, w')"
  shows "t_groups (target c w') = t_groups (target c w) \<and> t_apps (target c w') = t_apps (target c w) \<and>
    memberships (target c w') =
      (if is_ok r then {(g, x) \<in> memberships (target c w). x \<noteq> u} else memberships (target c w))"
proof (cases r)
  case (Inl e)
  with exec_result_unchanged [OF wr op [unfolded RemoveUserFromAllGroups_def Inl]] show ?thesis by simp
next
  case (Inr v)
  with op obtain x where "db_exec env c (sql_delete_members (\<lambda>m. gm_user_id m = u)) w = (Inr x, w')"
    by (auto simp: RemoveUserFromAllGroups_def exec_result_Inr)
  from delete_members_exec [OF wr this] Inr show ?thesis
    by (auto simp: memberships_def member_key_def)
qed

section \<open>Groups\<close>

lemma scanGroup_sel [simp]:
  "g_ID (scanGroup r) = gr_id r" "g_Name (scanGroup r) = gr_name r"
  "g_TenantId (scanGroup r) = gr_tenant_id r" "g_Description (scanGroup r) = gr_description r"
  "g_Type (scanGroup r) = gr_type r" "g_CreatedAt (scanGroup r) = gr_created_at r"
  "g_UpdatedAt (scanGroup r) = gr_updated_at r"
  by (simp_all add: scanGroup_def)

text \<open>A successful creation appends one row, and the struct handed back is that row.\<close>

lemma CreateGroup_effect:
  assumes wr: "writable c" and op: "CreateGroup env c grp w = (Inr g, w')"
  shows "\<exists>row. t_groups (target c w') = t_groups (target c w) @ [row] \<and> g = scanGroup row
       \<and> t_members (target c w') = t_members (target c w) \<and> t_apps (target c w') = t_apps (target c w)
       \<and> env_uuid env (w_tick w) = Inr (gr_id row)
       \<and> gr_name row = g_Name grp \<and> gr_tenant_id row = g_TenantId grp
       \<and> gr_description row = g_Description grp \<and> gr_type row = g_Type grp
       \<and> group_key row \<notin> group_key ` set (t_groups (target c w))
       \<and> group_name_key row \<notin> group_name_key ` set (t_groups (target c w))"
proof -
  let ?now = "env_clock env (w_tick w)"
  let ?row = "\<lambda>gid. \<lparr>gr_id = gid, gr_name = g_Name grp, gr_tenant_id = g_TenantId grp,
       gr_description = g_Description grp, gr_type = g_Type grp, gr_created_at = ?now, gr_updated_at = ?now\<rparr>"
  from op obtain gid where u: "env_uuid env (w_tick w) = Inr gid"
    by (auto simp: CreateGroup_def split: sum.splits)
  from op u obtain u flt ca ua where ex: "db_exec env c (sql_insert_group (?row gid)) (tick w) = (Inr (u, flt), w')"
    and sc: "scan_row (\<lambda>p. p) (cursor flt [(?now, ?now)]) = Inr (ca, ua)"
    and g: "g = \<lparr>g_ID = gid, g_Name = g_Name grp, g_TenantId = g_TenantId grp,
        g_Description = g_Description grp, g_Type = g_Type grp, g_CreatedAt = ca, g_UpdatedAt = ua\<rparr>"
    by (auto simp: CreateGroup_def Let_def split: sum.splits prod.splits)
  from scan_row_Inr [OF sc] have t: "ca = ?now" "ua = ?now" by auto
  from db_exec_Inr [OF wr ex] have "sql_insert_group (?row gid) (target c w) = Inr (u, target c w')"
    by simp
  then have "target c w' = (target c w)\<lparr>t_groups := t_groups (target c w) @ [?row gid]\<rparr>"
    and "group_key (?row gid) \<notin> group_key ` set (t_groups (target c w))"
    and "group_name_key (?row gid) \<notin> group_name_key ` set (t_groups (target c w))"
    by (auto simp: sql_insert_group_def split: if_splits)
  with u g t show ?thesis by (intro exI [of _ "?row gid"]) (simp add: scanGroup_def)
qed

lemma UpdateGroup_effect:
  assumes wr: "writable c" and op: "UpdateGroup env c gid grp w = (Inr g, w')"
  shows "\<exists>now. t_groups (target c w') = map (\<lambda>r. if gr_id r = gid then
             set_group_row (g_Name grp) (g_Description grp) (g_Type grp) now r else r) (t_groups (target c w))
       \<and> group_exists gid (target c w)
       \<and> t_members (target c w') = t_members (target c w) \<and> t_apps (target c w') = t_apps (target c w)
       \<and> g = grp\<lparr>g_ID := gid, g_UpdatedAt := now\<rparr>"
proof -
  let ?now = "env_clock env (w_tick w)"
  from op obtain n flt where
    ex: "db_exec env c (sql_update_groups gid (g_Name grp) (g_Description grp) (g_Type grp) ?now) w
           = (Inr (n, flt), w')"
    and n: "n \<noteq> 0" and g: "g = grp\<lparr>g_ID := gid, g_UpdatedAt := ?now\<rparr>"
    by (auto simp: UpdateGroup_def Let_def rows_affected_def
        split: sum.splits prod.splits if_splits option.splits fault.splits)
  from db_exec_Inr [OF wr ex] have
    "target c w' = (target c w)\<lparr>t_groups := map (\<lambda>r. if gr_id r = gid then
       set_group_row (g_Name grp) (g_Description grp) (g_Type grp) ?now r else r) (t_groups (target c w))\<rparr>"
    and "n = length (filter (\<lambda>r. gr_id r = gid) (t_groups (target c w)))"
    by (simp_all add: sql_update_groups_def Let_def split: if_splits)
  with n g show ?thesis
    by (intro exI [of _ ?now]) (auto simp: group_exists_def filter_empty_conv)
qed

lemma DeleteGroup_effect:
  assumes wr: "writable c" "wf_world w" and op: "DeleteGroup env c gid w = (Inr v, w')"
  shows "\<not> group_exists gid (target c w')
       \<and> t_groups (target c w') = filter (\<lambda>r. gr_id r \<noteq> gid) (t_groups (target c w))
       \<and> memberships (target c w') = {(g, x) \<in> memberships (target c w). g \<noteq> gid}
       \<and> allowances (target c w') = {(g, a) \<in> allowances (target c w). g \<noteq> gid}"
proof -
  from op obtain a flt where ex: "db_exec env c (sql_delete_groups gid) w = (Inr (a, flt), w')"
    by (auto simp: DeleteGroup_def exec_result_Inr)
  from db_exec_Inr [OF wr(1) ex] have d: "sql_delete_groups gid (target c w) = Inr (a, target c w')" .
  from delete_groups_rows [OF d] have
    "t_groups (target c w') = filter (\<lambda>r. gr_id r \<noteq> gid) (t_groups (target c w))" .
  with wf_delete_groups_orphans [OF wf_world_target [OF wr(2)] d] show ?thesis by simp
qed

section \<open>Queries\<close>

lemma like_percent [simp]: "like ''%'' s"
  by (induction s) simp_all

lemma escape_like_Nil [simp]: "escape_like [] = []"
  by (simp add: escape_like_def)

lemma escape_like_Cons [simp]: "escape_like (ch # p) = escape_char ch @ escape_like p"
  by (simp add: escape_like_def)

lemma like_escape_char: "like (escape_char ch @ ps) s = (\<exists>cs. s = ch # cs \<and> like ps cs)"
  by (cases s) (auto simp: escape_char_def)

lemma like_escape: "like (escape_like p @ ''%'') s = prefix p s"
proof (induction p arbitrary: s)
  case Nil
  show ?case by (simp del: like.simps)
next
  case (Cons ch p)
  have "like (escape_like (ch # p) @ ''%'') s = (\<exists>cs. s = ch # cs \<and> prefix p cs)"
    by (simp only: escape_like_Cons append_assoc like_escape_char Cons.IH)
  then show ?case by (cases s) auto
qed

lemma set_by_name [simp]: "set (by_name env rs) = set rs"
  by (simp add: by_name_def)

lemma set_by_collation [simp]: "set (by_collation env xs) = set xs"
  by (simp add: by_collation_def)

lemma set_join_user: "set (join_user u tb) = {g \<in> set (t_groups tb). (gr_id g, u) \<in> memberships tb}"
  by (force simp: join_user_def memberships_def member_key_def image_iff)

lemma ListGroups_Inr:
  assumes "readable c" and "ListGroups env c w = (Inr gs, w')"
  shows "gs = map scanGroup (by_name env (t_groups (target c w)))"
  using assms by (auto simp: ListGroups_def split: prod.splits sum.splits dest!: db_query_Inr read_rows_Inr)

lemma ListUsersInGroup_Inr:
  assumes "readable c" and "ListUsersInGroup env c gid w = (Inr us, w')"
  shows "us = by_collation env (map gm_user_id (filter (\<lambda>m. gm_group_id m = gid) (t_members (target c w))))"
  using assms by (auto simp: ListUsersInGroup_def split: prod.splits sum.splits
      dest!: db_query_Inr read_rows_Inr)

lemma ListUsersInGroup_members:
  assumes "readable c" and "ListUsersInGroup env c gid w = (Inr us, w')"
  shows "set us = {u. (gid, u) \<in> memberships (target c w)}"
proof -
  from ListUsersInGroup_Inr [OF assms] have
    "set us = gm_user_id ` {m \<in> set (t_members (target c w)). gm_group_id m = gid}"
    by (simp add: image_iff)
  then show ?thesis by (force simp: memberships_def member_key_def)
qed

lemma GetGroupsForUser_Inr:
  assumes "readable c" and "GetGroupsForUser env c u w = (Inr gs, w')"
  shows "gs = map scanGroup (by_name env (join_user u (target c w)))"
  using assms by (auto simp: GetGroupsForUser_def split: prod.splits sum.splits
      dest!: db_query_Inr read_rows_Inr)

lemma GetGroupsForUser_members:
  assumes "readable c" and "GetGroupsForUser env c u w = (Inr gs, w')"
  shows "set gs = scanGroup ` {r \<in> set (t_groups (target c w)). (gr_id r, u) \<in> memberships (target c w)}"
  using GetGroupsForUser_Inr [OF assms] by (simp add: set_join_user)

lemma GetGroupsForUser_succeeds:
  assumes "readable c" "no_faults env" "live c w"
  shows "fst (GetGroupsForUser env c u w) = Inr (map scanGroup (by_name env (join_user u (target c w))))"
  using db_query_no_faults [OF assms, of "\<lambda>tb. by_name env (join_user u tb)"]
  by (auto simp: GetGroupsForUser_def split: prod.splits sum.splits)

lemma ListGroupsByPrefix_Inr:
  assumes "readable c" and "ListGroupsByPrefix env c pre tid w = (Inr gs, w')"
  shows "gs = map scanGroup (by_name env (filter (\<lambda>r. prefix pre (gr_name r)
            \<and> gr_tenant_id r = (if tid = [] then DefaultTenantID else tid)) (t_groups (target c w))))"
  using assms
  by (cases "tid = []") (auto simp: ListGroupsByPrefix_def Let_def like_escape conj_commute
      split: prod.splits sum.splits dest!: db_query_Inr read_rows_Inr)

lemma one_group_Inr:
  assumes "one_group (q, w1) = (Inr g, w')"
  shows "\<exists>rows flt r rs. q = Inr (rows, flt) \<and> rows = r # rs \<and> g = scanGroup r \<and> w' = w1"
  using assms by (auto simp: one_group_def Let_def split: sum.splits prod.splits if_splits
      dest!: scan_row_Inr)

lemma GetGroup_Inr:
  assumes "readable c" and op: "GetGroup env c gid w = (Inr g, w')"
  shows "\<exists>r \<in> set (t_groups (target c w)). gr_id r = gid \<and> g = scanGroup r"
proof -
  obtain q w1 where q: "db_query env c (\<lambda>tb. filter (\<lambda>r. gr_id r = gid) (t_groups tb)) w = (q, w1)"
    by fastforce
  with op have "one_group (q, w1) = (Inr g, w')" by (simp add: GetGroup_def)
  from one_group_Inr [OF this] obtain r rs flt where e: "q = Inr (r # rs, flt)" "g = scanGroup r" by auto
  from db_query_Inr [OF assms(1) q [unfolded e(1)]]
  have "r \<in> set (filter (\<lambda>r. gr_id r = gid) (t_groups (target c w)))"
    by (metis list.set_intros(1))
  with e(2) show ?thesis by auto
qed

lemma find_filter: "find P xs = (case filter P xs of [] \<Rightarrow> None | r # rs \<Rightarrow> Some r)"
  by (induction xs) simp_all

lemma one_group_no_fault:
  assumes "fst q = Inr (filter P xs, None)"
  shows "fst (one_group q) = (case find P xs of
           None \<Rightarrow> Inl (Sentinel storage_ErrNotFound) | Some r \<Rightarrow> Inr (scanGroup r))"
  using assms by (cases "filter P xs") (simp_all add: one_group_def Let_def find_filter)

lemma GetGroup_no_faults:
  assumes "readable c" "no_faults env" "live c w"
  shows "fst (GetGroup env c gid w) =
     (case find (\<lambda>r. gr_id r = gid) (t_groups (target c w)) of
        None \<Rightarrow> Inl (Sentinel storage_ErrNotFound) | Some r \<Rightarrow> Inr (scanGroup r))"
  unfolding GetGroup_def
  by (rule one_group_no_fault) (rule db_query_no_faults [OF assms])

lemma GetGroupByName_no_faults:
  assumes "readable c" "no_faults env" "live c w"
  shows "fst (GetGroupByName env c name tid w) =
     (case find (\<lambda>r. gr_name r = name \<and> gr_tenant_id r = (if tid = [] then DefaultTenantID else tid))
             (t_groups (target c w)) of
        None \<Rightarrow> Inl (Sentinel storage_ErrNotFound) | Some r \<Rightarrow> Inr (scanGroup r))"
  unfolding GetGroupByName_def Let_def
  by (rule one_group_no_fault) (rule db_query_no_faults [OF assms])

section \<open>Application permissions\<close>

lemma app_row_key [simp]:
  "app_key (app_row now g a) = (g, a)" "app_ref (app_row now g a) = (g, ''default'')"
  by (simp_all add: app_row_def app_key_def app_ref_def)

lemma insert_apps_exec:
  assumes "writable c" and "db_exec env c (sql_insert_apps_or_nothing rows) w = (Inr x, w')"
  shows "allowances (target c w') = allowances (target c w) \<union> app_key ` set rows"
    "t_groups (target c w') = t_groups (target c w)" "t_members (target c w') = t_members (target c w)"
proof -
  let ?new = "fresh_apps (map app_key (t_apps (target c w))) rows"
  obtain a flt where x: "x = (a, flt)" by (cases x)
  from db_exec_Inr [OF assms(1) assms(2) [unfolded x]]
  have "target c w' = (target c w)\<lparr>t_apps := t_apps (target c w) @ ?new\<rparr>"
    by (simp add: sql_insert_apps_or_nothing_def Let_def split: if_splits)
  with fresh_apps_keys [of "map app_key (t_apps (target c w))" rows]
  show "allowances (target c w') = allowances (target c w) \<union> app_key ` set rows"
    "t_groups (target c w') = t_groups (target c w)" "t_members (target c w') = t_members (target c w)"
    by (simp_all add: allowances_def image_Un)
qed

lemma delete_apps_exec:
  assumes "writable c" and "db_exec env c (sql_delete_apps_returning P) w = (Inr (rows, flt), w')"
  shows "rows = filter P (t_apps (target c w))"
    "allowances (target c w') = app_key ` {a \<in> set (t_apps (target c w)). \<not> P a}"
    "t_groups (target c w') = t_groups (target c w)" "t_members (target c w') = t_members (target c w)"
proof -
  from db_exec_Inr [OF assms] have "target c w' = (target c w)\<lparr>t_apps := filter (\<lambda>a. \<not> P a) (t_apps (target c w))\<rparr>"
    and r: "rows = filter P (t_apps (target c w))"
    by (simp_all add: sql_delete_apps_returning_def)
  then show "allowances (target c w') = app_key ` {a \<in> set (t_apps (target c w)). \<not> P a}"
    "t_groups (target c w') = t_groups (target c w)" "t_members (target c w') = t_members (target c w)"
    by (simp_all add: allowances_def)
  show "rows = filter P (t_apps (target c w))" by (rule r)
qed

lemma AddAllowedApps_effect:
  assumes wr: "writable c" and op: "AddAllowedApps env c gid aids w = (Inr v, w')"
  shows "allowances (target c w') = allowances (target c w) \<union> {gid} \<times> set aids
       \<and> t_groups (target c w') = t_groups (target c w) \<and> t_members (target c w') = t_members (target c w)"
proof (cases "aids = []")
  case False
  with op obtain now x where
    ex: "db_exec env c (sql_insert_apps_or_nothing (map (app_row now gid) aids)) w = (Inr x, w')"
    by (auto simp: AddAllowedApps_def Let_def split: prod.splits sum.splits)
  from insert_apps_exec [OF wr ex] show ?thesis by (auto simp: image_image)
qed (use op in \<open>simp add: AddAllowedApps_def\<close>)

lemma AddAllowedGroupsForApp_effect:
  assumes wr: "writable c" and op: "AddAllowedGroupsForApp env c aid gids w = (Inr v, w')"
  shows "allowances (target c w') = allowances (target c w) \<union> set gids \<times> {aid}
       \<and> t_groups (target c w') = t_groups (target c w) \<and> t_members (target c w') = t_members (target c w)"
proof (cases "gids = []")
  case False
  with op obtain now x where
    ex: "db_exec env c (sql_insert_apps_or_nothing (map (\<lambda>g. app_row now g aid) gids)) w = (Inr x, w')"
    by (auto simp: AddAllowedGroupsForApp_def Let_def split: prod.splits sum.splits)
  from insert_apps_exec [OF wr ex] show ?thesis by (auto simp: image_image)
qed (use op in \<open>simp add: AddAllowedGroupsForApp_def\<close>)

lemma AddAllowedApp_effect:
  assumes wr: "writable c" and op: "AddAllowedApp env c gid aid w = (Inr v, w')"
  shows "allowances (target c w') = insert (gid, aid) (allowances (target c w))
       \<and> (gid, aid) \<notin> allowances (target c w)
       \<and> t_groups (target c w') = t_groups (target c w) \<and> t_members (target c w') = t_members (target c w)"
proof -
  from op obtain now a flt where
    ex: "db_exec env c (sql_insert_app (app_row now gid aid)) w = (Inr (a, flt), w')"
    by (auto simp: AddAllowedApp_def Let_def split: prod.splits sum.splits)
  from db_exec_Inr [OF wr ex]
  have "target c w' = (target c w)\<lparr>t_apps := t_apps (target c w) @ [app_row now gid aid]\<rparr>"
    and "(gid, aid) \<notin> app_key ` set (t_apps (target c w))"
    by (simp_all add: sql_insert_app_def split: if_splits)
  then show ?thesis by (simp add: allowances_def)
qed

lemma RemoveAllowedApp_effect:
  assumes wr: "writable c" and op: "RemoveAllowedApp env c gid aid w = (Inr v, w')"
  shows "allowances (target c w') = allowances (target c w) - {(gid, aid)}
       \<and> t_groups (target c w') = t_groups (target c w) \<and> t_members (target c w') = t_members (target c w)"
proof -
  from op obtain rows flt where ex: "db_exec env c (sql_delete_apps_returning
      (\<lambda>a. ag_group_id a = gid \<and> ag_application_id a = aid)) w = (Inr (rows, flt), w')"
    by (auto simp: RemoveAllowedApp_def exec_result_Inr)
  from delete_apps_exec(2-4) [OF wr ex] show ?thesis
    by (auto simp: allowances_def app_key_def)
qed

text \<open>The two bulk removals report exactly what they removed.\<close>

lemma RemoveAllowedApps_effect:
  assumes wr: "writable c" and op: "RemoveAllowedApps env c gid w = (Inr as, w')"
  shows "set as = {a. (gid, a) \<in> allowances (target c w)}
       \<and> allowances (target c w') = {(g, a) \<in> allowances (target c w). g \<noteq> gid}"
proof -
  from op obtain rows flt where ex: "db_exec env c (sql_delete_apps_returning
      (\<lambda>a. ag_group_id a = gid)) w = (Inr (rows, flt), w')"
    and rd: "read_apps ''error iterating removed apps'' (cursor flt (map ag_application_id rows)) = Inr as"
    by (auto simp: RemoveAllowedApps_def split: prod.splits sum.splits)
  from delete_apps_exec(1,2) [OF wr ex] read_apps_Inr [OF rd] show ?thesis
    by (force simp: allowances_def app_key_def)
qed

lemma RemoveAllAllowedGroupsForApp_effect:
  assumes wr: "writable c" and op: "RemoveAllAllowedGroupsForApp env c aid w = (Inr gs, w')"
  shows "set gs = {g. (g, aid) \<in> allowances (target c w)}
       \<and> allowances (target c w') = {(g, a) \<in> allowances (target c w). a \<noteq> aid}"
proof -
  from op obtain rows flt where ex: "db_exec env c (sql_delete_apps_returning
      (\<lambda>a. ag_application_id a = aid)) w = (Inr (rows, flt), w')"
    and rd: "read_rows (\<lambda>g. g) ''failed to scan group ID'' ''error iterating removed groups''
               (cursor flt (map ag_group_id rows)) = Inr gs"
    by (auto simp: RemoveAllAllowedGroupsForApp_def split: prod.splits sum.splits)
  from delete_apps_exec(1,2) [OF wr ex] read_rows_Inr [OF rd] show ?thesis
    by (force simp: allowances_def app_key_def)
qed

lemma GetAllowedApps_Inr:
  assumes "readable c" and "GetAllowedApps env c gid w = (Inr as, w')"
  shows "set as = {a. (gid, a) \<in> allowances (target c w)}"
proof -
  from assms have "as = by_collation env (map ag_application_id
      (filter (\<lambda>a. ag_group_id a = gid) (t_apps (target c w))))"
    by (auto simp: GetAllowedApps_def split: prod.splits sum.splits dest!: db_query_Inr read_apps_Inr)
  then show ?thesis by (force simp: allowances_def app_key_def)
qed

lemma GetAllowedGroupsForApp_Inr:
  assumes "readable c" and "GetAllowedGroupsForApp env c aid w = (Inr gs, w')"
  shows "set gs = {g. (g, aid) \<in> allowances (target c w)} \<and> sorted gs"
proof -
  from assms have "gs = sort (map ag_group_id
      (filter (\<lambda>a. ag_application_id a = aid) (t_apps (target c w))))"
    by (auto simp: GetAllowedGroupsForApp_def split: prod.splits sum.splits
        dest!: db_query_Inr read_rows_Inr)
  then show ?thesis by (force simp: allowances_def app_key_def)
qed

section \<open>Runs of the storage layer\<close>

text \<open>One call of a method of \<open>Storage\<close>, whatever its arguments and its outcome.\<close>

inductive storage_step :: "env \<Rightarrow> ctx \<Rightarrow> world \<Rightarrow> world \<Rightarrow> bool" for env and c where
  "ListGroups env c w = (r, w') \<Longrightarrow> storage_step env c w w'"
| "CreateGroup env c grp w = (r1, w') \<Longrightarrow> storage_step env c w w'"
| "GetGroup env c gid w = (r1, w') \<Longrightarrow> storage_step env c w w'"
| "GetGroupByName env c name tid w = (r1, w') \<Longrightarrow> storage_step env c w w'"
| "UpdateGroup env c gid grp w = (r1, w') \<Longrightarrow> storage_step env c w w'"
| "DeleteGroup env c gid w = (r2, w') \<Longrightarrow> storage_step env c w w'"
| "AddUsersToGroup env c gid us w = (r2, w') \<Longrightarrow> storage_step env c w w'"
| "ListUsersInGroup env c gid w = (r3, w') \<Longrightarrow> storage_step env c w w'"
| "RemoveUsersFromGroup env c gid us w = (r2, w') \<Longrightarrow> storage_step env c w w'"
| "GetGroupsForUser env c u w = (r, w') \<Longrightarrow> storage_step env c w w'"
| "UpdateGroupsForUser env c u gids w = (r2, w') \<Longrightarrow> storage_step env c w w'"
| "RemoveUserFromAllGroups env c u w = (r2, w') \<Longrightarrow> storage_step env c w w'"
| "ListGroupsByPrefix env c pre tid w = (r, w') \<Longrightarrow> storage_step env c w w'"
| "SyncGroupMembers env c gid us w = (r2, w') \<Longrightarrow> storage_step env c w w'"
| "GetAllowedApps env c gid w = (r3, w') \<Longrightarrow> storage_step env c w w'"
| "AddAllowedApp env c gid aid w = (r2, w') \<Longrightarrow> storage_step env c w w'"
| "AddAllowedApps env c gid aids w = (r2, w') \<Longrightarrow> storage_step env c w w'"
| "RemoveAllowedApp env c gid aid w = (r2, w') \<Longrightarrow> storage_step env c w w'"
| "RemoveAllowedApps env c gid w = (r3, w') \<Longrightarrow> storage_step env c w w'"
| "AddAllowedGroupsForApp env c aid gids w = (r2, w') \<Longrightarrow> storage_step env c w w'"
| "GetAllowedGroupsForApp env c aid w = (r3, w') \<Longrightarrow> storage_step env c w w'"
| "RemoveAllAllowedGroupsForApp env c aid w = (r3, w') \<Longrightarrow> storage_step env c w w'"

lemma keeps_step:
  "keeps env c op \<Longrightarrow> op w = (r, w') \<Longrightarrow> frame env c w w' \<and> (wf_world w \<longrightarrow> wf_world w')"
  by (blast intro: keeps_frame keeps_wf)

lemma storage_step_keeps:
  assumes "storage_step env c w w'"
  shows "frame env c w w' \<and> (wf_world w \<longrightarrow> wf_world w')"
  using assms
  by (cases rule: storage_step.cases) (erule keeps_step [rotated], rule keeps_intros)+

lemma storage_run_keeps:
  assumes "(storage_step env c)\<^sup>*\<^sup>* w w'"
  shows "frame env c w w' \<and> (wf_world w \<longrightarrow> wf_world w')"
  using assms
proof (induction rule: rtranclp_induct)
  case (step y z)
  with storage_step_keeps [OF step(2)] show ?case by (auto intro: frame_trans)
qed simp

section \<open>Properties\<close>


text \<open>A small database for the witnesses: two groups, one member, one permission.\<close>

definition demo_tables :: tables where
  "demo_tables =
     \<lparr>t_groups = [\<lparr>gr_id = ''g1'', gr_name = ''100%'', gr_tenant_id = ''default'', gr_description = [],
                   gr_type = 0, gr_created_at = 0, gr_updated_at = 0\<rparr>,
                  \<lparr>gr_id = ''g2'', gr_name = ''100 men'', gr_tenant_id = ''default'', gr_description = [],
                   gr_type = 0, gr_created_at = 0, gr_updated_at = 0\<rparr>],
      t_members = [\<lparr>gm_group_id = ''g1'', gm_user_id = ''ann'', gm_tenant_id = ''default'', gm_role = 0,
                    gm_created_at = 0, gm_updated_at = 0\<rparr>],
      t_apps = [\<lparr>ag_group_id = ''g1'', ag_application_id = ''app'', ag_tenant_id = ''default'',
                 ag_created_at = 0, ag_updated_at = 0\<rparr>]\<rparr>"

lemma demo_facts [simp]:
  "wf_tables demo_tables" "default_groups demo_tables = {''g1'', ''g2''}"
  "memberships demo_tables = {(''g1'', ''ann'')}" "allowances demo_tables = {(''g1'', ''app'')}"
  by (auto simp: demo_tables_def wf_tables_def default_groups_def memberships_def allowances_def key_defs)


text \<open>\<open>UpdateGroupsForUser\<close> replaces. For a context that writes and a working database it
  succeeds whenever the wanted groups exist in the default tenant, in whatever order the map of wanted
  identifiers is iterated and however often they are repeated; afterwards the user is a member of
  exactly those groups, nobody else's membership has changed, and no group or permission has.\<close>

theorem UpdateGroupsForUser_replaces:
  assumes "writable c" "no_faults env" "live c w" "set gids \<subseteq> default_groups (target c w)"
  shows "\<exists>w'. UpdateGroupsForUser env c u gids w = (Inr (), w')
       \<and> memberships (target c w') = {(g, x) \<in> memberships (target c w). x \<noteq> u} \<union> set gids \<times> {u}
       \<and> t_groups (target c w') = t_groups (target c w) \<and> t_apps (target c w') = t_apps (target c w)"
proof -
  from UpdateGroupsForUser_succeeds [OF assms] obtain w'
    where w': "UpdateGroupsForUser env c u gids w = (Inr (), w')" by blast
  from UpdateGroupsForUser_effect [OF assms(1) w'] w' show ?thesis by blast
qed

theorem UpdateGroupsForUser_replaces_witness:
  "\<exists>w'. UpdateGroupsForUser quiet_env background ''ann'' [''g2'', ''g2''] (world_of demo_tables) = (Inr (), w')
     \<and> memberships (w_primary w') = {(''g2'', ''ann'')}"
  using UpdateGroupsForUser_replaces [of background quiet_env "world_of demo_tables" "[''g2'', ''g2'']" "''ann''"]
  by auto

text \<open>\<open>SyncGroupMembers\<close> makes the members of a group exactly the given users (the empty list
  empties it), leaves every other group alone, and succeeds when the database does and the group
  exists in the default tenant.\<close>

theorem SyncGroupMembers_replaces:
  assumes "writable c" "no_faults env" "live c w" "us \<noteq> [] \<longrightarrow> gid \<in> default_groups (target c w)"
  shows "\<exists>w'. SyncGroupMembers env c gid us w = (Inr (), w')
       \<and> memberships (target c w') = {(g, x) \<in> memberships (target c w). g \<noteq> gid} \<union> {gid} \<times> set us
       \<and> t_groups (target c w') = t_groups (target c w) \<and> t_apps (target c w') = t_apps (target c w)"
proof -
  from SyncGroupMembers_succeeds [OF assms] obtain w'
    where w': "SyncGroupMembers env c gid us w = (Inr (), w')" by blast
  from SyncGroupMembers_effect [OF assms(1) w'] w' show ?thesis by blast
qed

theorem SyncGroupMembers_replaces_witness:
  "\<exists>w'. SyncGroupMembers quiet_env background ''g1'' [''bob'', ''eve'', ''bob''] (world_of demo_tables) = (Inr (), w')
     \<and> memberships (w_primary w') = {(''g1'', ''bob''), (''g1'', ''eve'')}"
  using SyncGroupMembers_replaces [of background quiet_env "world_of demo_tables" "[''bob'', ''eve'', ''bob'']" "''g1''"]
  by auto

text \<open>Adding and removing members are the set operations their names promise. Success adds exactly
  the listed users to the group, removes exactly them, or removes the user from every group; a
  reported failure has changed nothing; groups and permissions are never touched.\<close>

theorem member_edits_are_set_operations:
  assumes wr: "writable c"
    and add: "AddUsersToGroup env c gid us w = (r1, w1)"
    and rem: "RemoveUsersFromGroup env c gid us w = (r2, w2)"
    and all: "RemoveUserFromAllGroups env c u w = (r3, w3)"
  shows "(memberships (target c w1) =
            (if is_ok r1 then memberships (target c w) \<union> {gid} \<times> set us else memberships (target c w)))
       \<and> (memberships (target c w2) =
            (if is_ok r2 then memberships (target c w) - {gid} \<times> set us else memberships (target c w)))
       \<and> (memberships (target c w3) =
            (if is_ok r3 then {(g, x) \<in> memberships (target c w). x \<noteq> u} else memberships (target c w)))
       \<and> (\<forall>w' \<in> {w1, w2, w3}. t_groups (target c w') = t_groups (target c w)
            \<and> t_apps (target c w') = t_apps (target c w))"
  using AddUsersToGroup_effect [OF wr add] RemoveUsersFromGroup_effect [OF wr rem]
    RemoveUserFromAllGroups_effect [OF wr all] by simp

theorem member_edits_are_set_operations_witness:
  "\<exists>w1. AddUsersToGroup quiet_env background ''g2'' [''bob''] (world_of demo_tables) = (Inr (), w1)
     \<and> memberships (w_primary w1) = {(''g1'', ''ann''), (''g2'', ''bob'')}"
proof -
  let ?w = "world_of demo_tables"
  obtain w1 where a: "AddUsersToGroup quiet_env background ''g2'' [''bob''] ?w = (Inr (), w1)"
    using AddUsersToGroup_succeeds [of background quiet_env ?w "''g2''" "[''bob'']"] by auto
  obtain r2 w2 where b: "RemoveUsersFromGroup quiet_env background ''g2'' [''bob''] ?w = (r2, w2)" by fastforce
  obtain r3 w3 where d: "RemoveUserFromAllGroups quiet_env background ''bob'' ?w = (r3, w3)" by fastforce
  have "writable background" by simp
  from member_edits_are_set_operations [OF this a b d] a show ?thesis by auto
qed

text \<open>Nobody is added to a group that is not there. When one of the users is not yet a member and
  the group does not exist in the default tenant, the call fails with an error the caller recognises
  as \<open>ErrForeignKeyViolation\<close>, and nothing has changed.\<close>

theorem AddUsersToGroup_unknown_group:
  assumes "writable c" "no_faults env" "live c w" "wf_world w"
    and "gid \<notin> default_groups (target c w)" "u \<in> set us" "(gid, u) \<notin> memberships (target c w)"
  shows "\<exists>e w'. AddUsersToGroup env c gid us w = (Inl e, w')
           \<and> errors_Is e storage_ErrForeignKeyViolation \<and> target c w' = target c w"
  by (rule AddUsersToGroup_missing_group [OF assms])

theorem AddUsersToGroup_unknown_group_witness:
  "\<exists>e w'. AddUsersToGroup quiet_env background ''g3'' [''ann''] (world_of demo_tables) = (Inl e, w')
     \<and> errors_Is e storage_ErrForeignKeyViolation \<and> w_primary w' = demo_tables"
  using AddUsersToGroup_unknown_group [of background quiet_env "world_of demo_tables" "''g3''" "''ann''" "[''ann'']"]
  by simp

text \<open>C30: a created group can be read back. When the generated identifier is new, \<open>GetGroup\<close> under
  that identifier and \<open>GetGroupByName\<close> under its name and tenant both return the very struct
  \<open>CreateGroup\<close> returned, which carries the caller's name, tenant, description and type.\<close>

theorem CreateGroup_then_read:
  assumes c: "writable c" "no_faults env" "live c w"
    and op: "CreateGroup env c grp w = (Inr g, w')"
    and fresh: "\<not> group_exists (g_ID g) (target c w)" and tenant: "g_TenantId grp \<noteq> []"
  shows "fst (GetGroup env c (g_ID g) w') = Inr g
       \<and> fst (GetGroupByName env c (g_Name grp) (g_TenantId grp) w') = Inr g
       \<and> g_Name g = g_Name grp \<and> g_TenantId g = g_TenantId grp
       \<and> g_Description g = g_Description grp \<and> g_Type g = g_Type grp"
proof -
  from CreateGroup_effect [OF c(1) op] obtain row where
    rows: "t_groups (target c w') = t_groups (target c w) @ [row]" and g: "g = scanGroup row"
    and sel: "gr_name row = g_Name grp" "gr_tenant_id row = g_TenantId grp"
      "gr_description row = g_Description grp" "gr_type row = g_Type grp"
    and name: "group_name_key row \<notin> group_name_key ` set (t_groups (target c w))"
    by blast
  from op c(1,3) have lv: "live c w'"
    by (auto simp: CreateGroup_def Let_def split: sum.splits prod.splits dest!: db_exec_live)
  have last: "find P (xs @ [x]) = Some x" if "\<forall>y \<in> set xs. \<not> P y" "P x" for P xs and x :: groups_row
    using that by (induction xs) simp_all
  have "find (\<lambda>r. gr_id r = gr_id row) (t_groups (target c w')) = Some row"
    using fresh by (simp add: rows last g group_exists_def)
  moreover have "find (\<lambda>r. gr_name r = g_Name grp \<and> gr_tenant_id r = g_TenantId grp) (t_groups (target c w')) = Some row"
    using name by (simp add: rows) (rule last, auto simp: sel group_name_key_def image_iff)
  ultimately show ?thesis
    using tenant c lv sel by (simp add: GetGroup_no_faults GetGroupByName_no_faults g)
qed

theorem CreateGroup_then_read_witness:
  "\<exists>g w'. CreateGroup quiet_env background (zero_Group\<lparr>g_Name := ''dev'', g_TenantId := ''default''\<rparr>)
            (world_of demo_tables) = (Inr g, w')
     \<and> fst (GetGroup quiet_env background (g_ID g) w') = Inr g"
proof -
  let ?w = "world_of demo_tables" and ?grp = "zero_Group\<lparr>g_Name := ''dev'', g_TenantId := ''default''\<rparr>"
  obtain r w' where op: "CreateGroup quiet_env background ?grp ?w = (r, w')" by fastforce
  have "\<exists>g. r = Inr g \<and> g_ID g = ''id''"
    using op by (auto simp: CreateGroup_def Let_def db_exec_def db_stmt_def Statement_def route_rest_def
        run_on_def sql_insert_group_def demo_tables_def key_defs zero_Group_def split: if_splits)
  then obtain g where g: "r = Inr g" "g_ID g = ''id''" by blast
  have "\<not> group_exists (g_ID g) (target background ?w)"
    by (simp add: g group_exists_def demo_tables_def)
  from CreateGroup_then_read [OF _ _ _ op [unfolded g(1)] this] op g show ?thesis by (simp add: zero_Group_def)
qed

text \<open>Deleting a group takes its memberships and its permissions with it, and nothing else.\<close>

theorem DeleteGroup_cascades:
  assumes "writable c" "wf_world w" "DeleteGroup env c gid w = (Inr v, w')"
  shows "\<not> group_exists gid (target c w')
       \<and> t_groups (target c w') = filter (\<lambda>r. gr_id r \<noteq> gid) (t_groups (target c w))
       \<and> memberships (target c w') = {(g, x) \<in> memberships (target c w). g \<noteq> gid}
       \<and> allowances (target c w') = {(g, a) \<in> allowances (target c w). g \<noteq> gid}"
  by (rule DeleteGroup_effect [OF assms])

theorem DeleteGroup_cascades_witness:
  "\<exists>w'. DeleteGroup quiet_env background ''g1'' (world_of demo_tables) = (Inr (), w')
     \<and> memberships (w_primary w') = {} \<and> allowances (w_primary w') = {}"
proof -
  let ?w = "world_of demo_tables"
  obtain r w' where op: "DeleteGroup quiet_env background ''g1'' ?w = (r, w')" by fastforce
  have "r = Inr ()"
    using op by (auto simp: DeleteGroup_def db_exec_def db_stmt_def Statement_def route_rest_def run_on_def
        sql_delete_groups_def Let_def)
  from DeleteGroup_cascades [OF _ _ op [unfolded this]] op this show ?thesis by auto
qed

text \<open>C31: the wildcards of a group name prefix are literal. \<open>ListGroupsByPrefix\<close> returns the groups
  of the tenant (the default one when none is given) whose name starts with the prefix, byte for
  byte, sorted by name, also when the prefix contains percent signs, underscores or backslashes.\<close>

theorem ListGroupsByPrefix_exact:
  assumes "readable c" and "ListGroupsByPrefix env c pre tid w = (Inr gs, w')"
  shows "set gs = scanGroup ` {r \<in> set (t_groups (target c w)). HasPrefix (gr_name r) pre
            \<and> gr_tenant_id r = (if tid = [] then DefaultTenantID else tid)}
       \<and> sorted (map (\<lambda>g. env_strxfrm env (g_Name g)) gs)"
  using ListGroupsByPrefix_Inr [OF assms]
  by (auto simp: HasPrefix_iff_prefix by_name_def comp_def)

theorem ListGroupsByPrefix_exact_witness:
  "\<exists>gs w'. ListGroupsByPrefix quiet_env background ''100%'' [] (world_of demo_tables) = (Inr gs, w')
     \<and> map g_ID gs = [''g1'']"
proof -
  let ?w = "world_of demo_tables"
  obtain r w' where op: "ListGroupsByPrefix quiet_env background ''100%'' [] ?w = (r, w')" by fastforce
  have "\<exists>g. r = Inr [g] \<and> g_ID g = ''g1''"
    using op by (auto simp: ListGroupsByPrefix_def Let_def db_query_def db_stmt_def Statement_def
        route_rest_def run_on_def like_escape demo_tables_def by_name_def DefaultTenantID_def
        simp del: escape_like_Cons like.simps)
  then obtain g where g: "r = Inr [g]" "g_ID g = ''g1''" by blast
  have "readable background" by simp
  from ListGroupsByPrefix_exact [OF this op [unfolded g(1)]]
  have "set [g] = scanGroup ` {r \<in> set (t_groups demo_tables). HasPrefix (gr_name r) ''100%''
      \<and> gr_tenant_id r = DefaultTenantID}" by simp
  then have "g \<in> scanGroup ` {r \<in> set (t_groups demo_tables). HasPrefix (gr_name r) ''100%''
      \<and> gr_tenant_id r = DefaultTenantID}" by (simp only: list.set) blast
  then have "HasPrefix (g_Name g) ''100%''" by auto
  with op g show ?thesis by auto
qed

text \<open>The bulk removals of permissions report exactly what they removed: the applications of the
  group, respectively the groups of the application, none of which is left afterwards, while every
  other permission stays.\<close>

theorem bulk_removals_report_what_they_removed:
  assumes wr: "writable c"
    and byGroup: "RemoveAllowedApps env c gid w = (Inr as, w1)"
    and byApp: "RemoveAllAllowedGroupsForApp env c aid w = (Inr gs, w2)"
  shows "set as = {a. (gid, a) \<in> allowances (target c w)}
       \<and> allowances (target c w1) = {(g, a) \<in> allowances (target c w). g \<noteq> gid}
       \<and> set gs = {g. (g, aid) \<in> allowances (target c w)}
       \<and> allowances (target c w2) = {(g, a) \<in> allowances (target c w). a \<noteq> aid}"
  using RemoveAllowedApps_effect [OF wr byGroup] RemoveAllAllowedGroupsForApp_effect [OF wr byApp] by blast

theorem bulk_removals_report_what_they_removed_witness:
  "\<exists>w1. RemoveAllowedApps quiet_env background ''g1'' (world_of demo_tables) = (Inr [''app''], w1)
     \<and> allowances (w_primary w1) = {}"
proof -
  let ?w = "world_of demo_tables"
  obtain r1 w1 where a: "RemoveAllowedApps quiet_env background ''g1'' ?w = (r1, w1)" by fastforce
  obtain r2 w2 where b: "RemoveAllAllowedGroupsForApp quiet_env background ''app'' ?w = (r2, w2)" by fastforce
  have "r1 = Inr [''app'']"
    using a by (auto simp: RemoveAllowedApps_def db_exec_def db_stmt_def Statement_def
        route_rest_def run_on_def sql_delete_apps_returning_def demo_tables_def)
  moreover have "\<exists>gs. r2 = Inr gs"
    using b by (auto simp: RemoveAllAllowedGroupsForApp_def db_exec_def db_stmt_def Statement_def
        route_rest_def run_on_def sql_delete_apps_returning_def demo_tables_def)
  then obtain gs where "r2 = Inr gs" by blast
  ultimately show ?thesis
    using bulk_removals_report_what_they_removed [OF _ a [unfolded \<open>r1 = Inr [''app'']\<close>]
        b [unfolded \<open>r2 = Inr gs\<close>]] a by auto
qed

end
