(* ===== verification/OpenFga.thy ===== *)
theory OpenFga
  imports HookPrelude
begin

text \<open>
  The OpenFGA client of \<^verbatim>\<open>internal/openfga\<close>: configuration and its validation, the wrapper around
  the vendor's SDK and the no-op client. The SDK (and the server behind it) is not part of the
  repository: it is a record of functions on a server state of any type, handed to every operation.
  A Go panic is the value \<open>None\<close>.
\<close>

section \<open>Tuples\<close>

record Tuple =
  tp_User :: string
  tp_Relation :: string
  tp_Object :: string

record TupleWithContext =
  tc_User :: string
  tc_Relation :: string
  tc_Object :: string
  tc_ContextualTuples :: "Tuple list"

definition NewTuple :: "string \<Rightarrow> string \<Rightarrow> string \<Rightarrow> Tuple" where
  "NewTuple user relation object = \<lparr>tp_User = user, tp_Relation = relation, tp_Object = object\<rparr>"

definition NewTupleWithContext :: "string \<Rightarrow> string \<Rightarrow> string \<Rightarrow> Tuple list \<Rightarrow> TupleWithContext" where
  "NewTupleWithContext user relation object ctxTuples =
     \<lparr>tc_User = user, tc_Relation = relation, tc_Object = object, tc_ContextualTuples = ctxTuples\<rparr>"

definition Tuple_Values :: "Tuple \<Rightarrow> string \<times> string \<times> string" where
  "Tuple_Values t = (tp_User t, tp_Relation t, tp_Object t)"

lemma NewTuple_sel [simp]:
  "tp_User (NewTuple u r ob) = u" "tp_Relation (NewTuple u r ob) = r" "tp_Object (NewTuple u r ob) = ob"
  by (simp_all add: NewTuple_def)

section \<open>Configuration\<close>

record Config =
  cfg_ApiScheme :: string
  cfg_ApiHost :: string
  cfg_StoreID :: string
  cfg_ApiToken :: string
  cfg_AuthModelID :: string
  cfg_Debug :: bool

text \<open>\<open>validator\<close> with the tag \<open>required\<close>: a string must not be empty. An invalid configuration is
  logged and comes back as the nil pointer.\<close>

definition NewConfig :: "string \<Rightarrow> string \<Rightarrow> string \<Rightarrow> string \<Rightarrow> string \<Rightarrow> bool \<Rightarrow> Config option" where
  "NewConfig apiScheme apiHost storeID apiToken authModelID debug =
     (if apiScheme \<noteq> [] \<and> apiHost \<noteq> [] \<and> storeID \<noteq> [] \<and> apiToken \<noteq> [] \<and> authModelID \<noteq> []
      then Some \<lparr>cfg_ApiScheme = apiScheme, cfg_ApiHost = apiHost, cfg_StoreID = storeID,
                 cfg_ApiToken = apiToken, cfg_AuthModelID = authModelID, cfg_Debug = debug\<rparr>
      else None)"

section \<open>The SDK\<close>

record AuthorizationModel =
  am_SchemaVersion :: string
  am_TypeDefinitions :: json
  am_Conditions :: json

text \<open>The answer to one check of a batch: the pointer to the verdict, and the text of its error.\<close>

record BatchResult =
  br_Allowed :: "bool option"
  br_Error :: "string option"

datatype fga_user = FgaObject string string | FgaUserset string string | FgaWildcard string | FgaNone

record 's sdk =
  sdk_CreateStore :: "string \<Rightarrow> 's \<Rightarrow> string res \<times> 's"
  sdk_ReadAuthorizationModel :: "'s \<Rightarrow> AuthorizationModel res \<times> 's"
  sdk_WriteAuthorizationModel :: "AuthorizationModel \<Rightarrow> 's \<Rightarrow> string res \<times> 's"
  sdk_GetAuthorizationModelId :: "'s \<Rightarrow> string res"
  sdk_Write :: "Tuple list \<Rightarrow> Tuple list \<Rightarrow> 's \<Rightarrow> error option \<times> 's"
  sdk_Check :: "Tuple \<Rightarrow> Tuple list \<Rightarrow> 's \<Rightarrow> bool option res \<times> 's"
  sdk_BatchCheck :: "TupleWithContext list \<Rightarrow> string \<Rightarrow> 's \<Rightarrow> BatchResult list res \<times> 's"
  sdk_Read :: "Tuple \<Rightarrow> string \<Rightarrow> 's \<Rightarrow> (Tuple list \<times> string) res \<times> 's"
  sdk_ListObjects :: "string \<Rightarrow> string \<Rightarrow> string \<Rightarrow> 's \<Rightarrow> string list res \<times> 's"
  sdk_ListUsers :: "string \<times> string \<Rightarrow> string \<Rightarrow> string \<times> string \<Rightarrow> 's \<Rightarrow> fga_user list res \<times> 's"

text \<open>\<open>NewClient\<close> panics without a configuration and when the SDK refuses it.\<close>

definition NewClient :: "(Config \<Rightarrow> 's sdk res) \<Rightarrow> Config option \<Rightarrow> 's sdk option" where
  "NewClient NewSdkClient cfg =
     (case cfg of None \<Rightarrow> None
      | Some cf \<Rightarrow> (case NewSdkClient cf of Inl e \<Rightarrow> None | Inr sdk \<Rightarrow> Some sdk))"

section \<open>Client operations\<close>

text \<open>The two setters work only when the core client is the SDK's own type; \<open>cast\<close> is then the SDK's setter.\<close>

definition SetStoreID :: "(string \<Rightarrow> 's \<Rightarrow> 's) option \<Rightarrow> string \<Rightarrow> 's \<Rightarrow> error option \<times> 's" where
  "SetStoreID cast storeID s =
     (case cast of None \<Rightarrow> (Some (ErrorNew ''error casting to *openfga.Client''), s) | Some set_id \<Rightarrow> (None, set_id storeID s))"

definition SetAuthorizationModelID :: "(string \<Rightarrow> 's \<Rightarrow> 's) option \<Rightarrow> string \<Rightarrow> 's \<Rightarrow> error option \<times> 's" where
  "SetAuthorizationModelID cast modelID s =
     (case cast of None \<Rightarrow> (Some (ErrorNew ''error casting to *openfga.Client''), s) | Some set_id \<Rightarrow> (None, set_id modelID s))"

definition CreateStore :: "'s sdk \<Rightarrow> string \<Rightarrow> 's \<Rightarrow> string res \<times> 's" where
  "CreateStore sdk name s = sdk_CreateStore sdk name s"

definition ReadModel :: "'s sdk \<Rightarrow> 's \<Rightarrow> AuthorizationModel res \<times> 's" where
  "ReadModel sdk s = sdk_ReadAuthorizationModel sdk s"

definition WriteModel :: "'s sdk \<Rightarrow> AuthorizationModel \<Rightarrow> 's \<Rightarrow> string res \<times> 's" where
  "WriteModel sdk authModel s = sdk_WriteAuthorizationModel sdk authModel s"

definition CompareModel :: "'s sdk \<Rightarrow> AuthorizationModel \<Rightarrow> 's \<Rightarrow> bool res \<times> 's" where
  "CompareModel sdk model s =
     (case ReadModel sdk s of
        (Inl e, s1) \<Rightarrow> (Inl e, s1)
      | (Inr authModel, s1) \<Rightarrow>
          if am_SchemaVersion authModel \<noteq> am_SchemaVersion model then (Inr False, s1)
          else if am_TypeDefinitions authModel = am_TypeDefinitions model then (Inr False, s1)
          else (Inr True, s1))"

definition WriteTuple :: "'s sdk \<Rightarrow> string \<Rightarrow> string \<Rightarrow> string \<Rightarrow> 's \<Rightarrow> error option \<times> 's" where
  "WriteTuple sdk user relation object s = sdk_Write sdk [NewTuple user relation object] [] s"

definition DeleteTuple :: "'s sdk \<Rightarrow> string \<Rightarrow> string \<Rightarrow> string \<Rightarrow> 's \<Rightarrow> error option \<times> 's" where
  "DeleteTuple sdk user relation object s = sdk_Write sdk [] [NewTuple user relation object] s"

definition WriteTuples :: "'s sdk \<Rightarrow> Tuple list \<Rightarrow> 's \<Rightarrow> error option \<times> 's" where
  "WriteTuples sdk tuples s =
     sdk_Write sdk (map (\<lambda>t. case Tuple_Values t of (u, r, ob) \<Rightarrow> NewTuple u r ob) tuples) [] s"

definition DeleteTuples :: "'s sdk \<Rightarrow> Tuple list \<Rightarrow> 's \<Rightarrow> error option \<times> 's" where
  "DeleteTuples sdk tuples s =
     sdk_Write sdk [] (map (\<lambda>t. case Tuple_Values t of (u, r, ob) \<Rightarrow> NewTuple u r ob) tuples) s"

text \<open>\<open>GetAllowed\<close> reads a missing verdict as a denial.\<close>

definition Check :: "'s sdk \<Rightarrow> string \<Rightarrow> string \<Rightarrow> string \<Rightarrow> Tuple list \<Rightarrow> 's \<Rightarrow> bool res \<times> 's" where
  "Check sdk user relation object tuples s =
     (case sdk_Check sdk (NewTuple user relation object) tuples s of
        (Inl e, s1) \<Rightarrow> (Inl e, s1)
      | (Inr allowed, s1) \<Rightarrow> (Inr (case allowed of None \<Rightarrow> False | Some b \<Rightarrow> b), s1))"

text \<open>The loop over the results: \<open>allowed && *check.Allowed\<close> only follows the pointer while everything
  so far was allowed.\<close>

fun batch_loop :: "bool \<Rightarrow> string list \<Rightarrow> BatchResult list \<Rightarrow> (bool \<times> string list) option" where
  "batch_loop allowed errs [] = Some (allowed, errs)"
| "batch_loop allowed errs (r # rs) =
     (let errs' = (case br_Error r of None \<Rightarrow> errs | Some e \<Rightarrow> errs @ [''* '' @ e]) in
      if allowed then (case br_Allowed r of None \<Rightarrow> None | Some b \<Rightarrow> batch_loop b errs' rs)
      else batch_loop False errs' rs)"

fun join_lines :: "string list \<Rightarrow> string" where
  "join_lines [] = []"
| "join_lines [x] = x"
| "join_lines (x # y # ys) = x @ [CHR 0x0A] @ join_lines (y # ys)"

definition BatchCheck :: "'s sdk \<Rightarrow> TupleWithContext list \<Rightarrow> 's \<Rightarrow> bool res option \<times> 's" where
  "BatchCheck sdk tuples s =
     (case sdk_GetAuthorizationModelId sdk s of
        Inl e \<Rightarrow> (Some (Inl e), s)
      | Inr modelID \<Rightarrow>
          (case sdk_BatchCheck sdk tuples modelID s of
             (Inl e, s1) \<Rightarrow> (Some (Inl e), s1)
           | (Inr results, s1) \<Rightarrow>
               (case batch_loop True [''error while performing Check operation:''] results of
                  None \<Rightarrow> (None, s1)
                | Some (allowed, errs) \<Rightarrow>
                    (Some (if \<not> allowed then Inl (ErrorNew (join_lines errs)) else Inr allowed), s1))))"

definition ReadTuples ::
  "'s sdk \<Rightarrow> string \<Rightarrow> string \<Rightarrow> string \<Rightarrow> string \<Rightarrow> 's \<Rightarrow> (Tuple list \<times> string) res \<times> 's" where
  "ReadTuples sdk user relation object continuationToken s =
     sdk_Read sdk (NewTuple user relation object) continuationToken s"

text \<open>\<open>p[len(prefix):]\<close> panics on a string shorter than the prefix.\<close>

fun cut_prefixes :: "nat \<Rightarrow> string list \<Rightarrow> string list option" where
  "cut_prefixes n [] = Some []"
| "cut_prefixes n (p # ps) =
     (if length p < n then None
      else (case cut_prefixes n ps of None \<Rightarrow> None | Some qs \<Rightarrow> Some (drop n p # qs)))"

definition ListObjects :: "'s sdk \<Rightarrow> string \<Rightarrow> string \<Rightarrow> string \<Rightarrow> 's \<Rightarrow> string list res option \<times> 's" where
  "ListObjects sdk user relation objectType s =
     (case sdk_ListObjects sdk user relation objectType s of
        (Inl e, s1) \<Rightarrow> (Some (Inl e), s1)
      | (Inr objs, s1) \<Rightarrow>
          (case cut_prefixes (length (objectType @ '':'')) objs of
             None \<Rightarrow> (None, s1) | Some xs \<Rightarrow> (Some (Inr xs), s1)))"

text \<open>\<open>strings.Cut\<close>: the parts before and after the first separator.\<close>

definition strings_Cut :: "string \<Rightarrow> char \<Rightarrow> string \<times> string" where
  "strings_Cut s sep = (takeWhile (\<lambda>ch. ch \<noteq> sep) s, tl (dropWhile (\<lambda>ch. ch \<noteq> sep) s))"

definition show_user :: "fga_user \<Rightarrow> string" where
  "show_user u = (case u of FgaObject t i \<Rightarrow> t @ '':'' @ i | FgaUserset t i \<Rightarrow> t @ '':'' @ i
     | FgaWildcard t \<Rightarrow> t @ '':*'' | FgaNone \<Rightarrow> [])"

definition ListUsers :: "'s sdk \<Rightarrow> string \<Rightarrow> string \<Rightarrow> string \<Rightarrow> 's \<Rightarrow> string list res \<times> 's" where
  "ListUsers sdk userFilter relation object s =
     (case sdk_ListUsers sdk (strings_Cut userFilter (CHR ''#'')) relation (strings_Cut object (CHR '':'')) s of
        (Inl e, s1) \<Rightarrow> (Inl e, s1) | (Inr users, s1) \<Rightarrow> (Inr (map show_user users), s1))"

section \<open>The interface the authorizer uses\<close>

text \<open>\<open>AuthzClientInterface\<close>, with its two implementations.\<close>

record 's authz_client =
  ac_ListObjects :: "string \<Rightarrow> string \<Rightarrow> string \<Rightarrow> 's \<Rightarrow> string list res option \<times> 's"
  ac_Check :: "string \<Rightarrow> string \<Rightarrow> string \<Rightarrow> Tuple list \<Rightarrow> 's \<Rightarrow> bool res \<times> 's"
  ac_BatchCheck :: "TupleWithContext list \<Rightarrow> 's \<Rightarrow> bool res option \<times> 's"
  ac_CompareModel :: "AuthorizationModel \<Rightarrow> 's \<Rightarrow> bool res \<times> 's"
  ac_ReadTuples :: "string \<Rightarrow> string \<Rightarrow> string \<Rightarrow> string \<Rightarrow> 's \<Rightarrow> (Tuple list \<times> string) res \<times> 's"
  ac_WriteTuple :: "string \<Rightarrow> string \<Rightarrow> string \<Rightarrow> 's \<Rightarrow> error option \<times> 's"
  ac_DeleteTuple :: "string \<Rightarrow> string \<Rightarrow> string \<Rightarrow> 's \<Rightarrow> error option \<times> 's"
  ac_DeleteTuples :: "Tuple list \<Rightarrow> 's \<Rightarrow> error option \<times> 's"

definition Client :: "'s sdk \<Rightarrow> 's authz_client" where
  "Client sdk = \<lparr>ac_ListObjects = ListObjects sdk, ac_Check = Check sdk, ac_BatchCheck = BatchCheck sdk,
     ac_CompareModel = CompareModel sdk, ac_ReadTuples = ReadTuples sdk, ac_WriteTuple = WriteTuple sdk,
     ac_DeleteTuple = DeleteTuple sdk, ac_DeleteTuples = DeleteTuples sdk\<rparr>"

definition NoopClient :: "'s authz_client" where
  "NoopClient = \<lparr>ac_ListObjects = (\<lambda>user relation objectType s. (Some (Inr []), s)),
     ac_Check = (\<lambda>user relation object tuples s. (Inr True, s)),
     ac_BatchCheck = (\<lambda>tuples s. (Some (Inr True), s)),
     ac_CompareModel = (\<lambda>model s. (Inr True, s)),
     ac_ReadTuples = (\<lambda>user relation object continuationToken s. (Inr ([], []), s)),
     ac_WriteTuple = (\<lambda>user relation object s. (None, s)),
     ac_DeleteTuple = (\<lambda>user relation object s. (None, s)),
     ac_DeleteTuples = (\<lambda>tuples s. (None, s))\<rparr>"

lemma Client_sel [simp]:
  "ac_ListObjects (Client sdk) = ListObjects sdk" "ac_Check (Client sdk) = Check sdk"
  "ac_BatchCheck (Client sdk) = BatchCheck sdk" "ac_CompareModel (Client sdk) = CompareModel sdk"
  "ac_ReadTuples (Client sdk) = ReadTuples sdk" "ac_WriteTuple (Client sdk) = WriteTuple sdk"
  "ac_DeleteTuple (Client sdk) = DeleteTuple sdk" "ac_DeleteTuples (Client sdk) = DeleteTuples sdk"
  by (simp_all add: Client_def)

end
