(* ===== verification/Authorizer.thy ===== *)
theory Authorizer
  imports OpenFga "HOL-Library.Multiset"
begin

text \<open>
  The authorizer of \<^verbatim>\<open>internal/authorization\<close>: how users, clients and groups are named in OpenFGA
  (with the base64 encoding of group names), the checks and the edits on top of any
  \<open>AuthzClientInterface\<close>, the two paginated removal loops, and the meaning of the relations the
  embedded authorization model declares. What the code relies on of the OpenFGA server is the
  predicate \<open>fga_laws\<close>.
\<close>

section \<open>Base64\<close>

text \<open>\<open>base64.StdEncoding\<close>: three bytes become four characters, the last group is padded.\<close>

definition b64_alphabet :: string where
  "b64_alphabet = ''ABCDEFGHIJKLMNOPQRSTUVWXYZabcdefghijklmnopqrstuvwxyz0123456789+/''"

definition b64_char :: "nat \<Rightarrow> char" where
  "b64_char n = b64_alphabet ! n"

fun b64_encode :: "nat list \<Rightarrow> string" where
  "b64_encode [] = []"
| "b64_encode [a] = [b64_char (a div 4), b64_char (a mod 4 * 16), CHR ''='', CHR ''='']"
| "b64_encode [a, b] =
     [b64_char (a div 4), b64_char (a mod 4 * 16 + b div 16), b64_char (b mod 16 * 4), CHR ''='']"
| "b64_encode (a # b # c # xs) =
     [b64_char (a div 4), b64_char (a mod 4 * 16 + b div 16), b64_char (b mod 16 * 4 + c div 64),
      b64_char (c mod 64)] @ b64_encode xs"

definition EncodeToString :: "string \<Rightarrow> string" where
  "EncodeToString s = b64_encode (map of_char s)"

section \<open>Names\<close>

definition CAN_ACCESS_RELATION :: string where "CAN_ACCESS_RELATION = ''can_access''"
definition MEMBER_RELATION :: string where "MEMBER_RELATION = ''member''"

definition UserTuple :: "string \<Rightarrow> string" where
  "UserTuple userId = ''user:'' @ userId"

definition ClientTuple :: "string \<Rightarrow> string" where
  "ClientTuple clientId = ''client:'' @ clientId"

definition GroupTuple :: "string \<Rightarrow> string" where
  "GroupTuple groupId = ''group:'' @ EncodeToString groupId"

definition GroupMemberTuple :: "string \<Rightarrow> string" where
  "GroupMemberTuple groupId = GroupTuple groupId @ ''#'' @ MEMBER_RELATION"

section \<open>Checks\<close>

definition authorizer_Check ::
  "'s authz_client \<Rightarrow> string \<Rightarrow> string \<Rightarrow> string \<Rightarrow> Tuple list \<Rightarrow> 's \<Rightarrow> bool res \<times> 's" where
  "authorizer_Check cl user relation object contextualTuples s = ac_Check cl user relation object contextualTuples s"

definition authorizer_ListObjects ::
  "'s authz_client \<Rightarrow> string \<Rightarrow> string \<Rightarrow> string \<Rightarrow> 's \<Rightarrow> string list res option \<times> 's" where
  "authorizer_ListObjects cl user relation objectType s = ac_ListObjects cl user relation objectType s"

definition FilterObjects ::
  "'s authz_client \<Rightarrow> string \<Rightarrow> string \<Rightarrow> string \<Rightarrow> string list \<Rightarrow> 's \<Rightarrow> string list res option \<times> 's" where
  "FilterObjects cl user relation objectType objs s =
     (case authorizer_ListObjects cl user relation objectType s of
        (None, s1) \<Rightarrow> (None, s1)
      | (Some (Inl e), s1) \<Rightarrow> (Some (Inl e), s1)
      | (Some (Inr allowedObjs), s1) \<Rightarrow> (Some (Inr (filter (\<lambda>obj. obj \<in> set objs) allowedObjs)), s1))"

subsection \<open>The embedded model\<close>

text \<open>The two embedded files, line by line: the second one is empty.\<close>

definition lines_of :: "string list \<Rightarrow> string" where
  "lines_of ls = concat (map (\<lambda>l. l @ [CHR 0x0A]) ls)"

definition v0Schema :: string where
  "v0Schema = lines_of
     [''model'',
      ''  schema 1.1'',
      [],
      ''type user'',
      [],
      ''type privileged'',
      ''  relations'',
      ''    define admin: [user]'',
      [],
      ''type group'',
      ''  relations'',
      ''    define privileged: [privileged]'',
      ''    define member: [user, group#member]'',
      [],
      ''    define can_create: [user, group#member] or admin from privileged'',
      ''    define can_delete: [user, group#member] or admin from privileged'',
      ''    define can_edit: [user, group#member] or can_delete or admin from privileged'',
      ''    define can_view: [user, user:*, group#member] or can_edit or admin from privileged'',
      [],
      ''type client'',
      ''  relations'',
      ''    define privileged: [privileged]'',
      [],
      ''    define can_access: [user, group#member] or admin from privileged'']"

definition v2Schema :: string where
  "v2Schema = []"

text \<open>The vendor's compiler of the modelling language, and the two encoders; the failure of one of them is a panic
  (\<open>None\<close>).\<close>

record 'p dsl =
  ds_TransformDSLToProto :: "string \<Rightarrow> 'p res"
  ds_Marshal :: "'p \<Rightarrow> string res"
  ds_Unmarshal :: "string \<Rightarrow> AuthorizationModel res"

record AuthorizationModelProvider =
  mp_apiVersion :: string
  mp_model :: "AuthorizationModel option"

definition readAuthzModelFromDSLString :: "'p dsl \<Rightarrow> string \<Rightarrow> AuthorizationModel option" where
  "readAuthzModelFromDSLString d dslString =
     (case ds_TransformDSLToProto d dslString of
        Inl err \<Rightarrow> None
      | Inr parsedAuthModel \<Rightarrow>
          (case ds_Marshal d parsedAuthModel of
             Inl err \<Rightarrow> None
           | Inr bytes \<Rightarrow>
               (case ds_Unmarshal d bytes of
                  Inl err \<Rightarrow> None
                | Inr jsonAuthModel \<Rightarrow> Some jsonAuthModel)))"

definition prepareModel :: "'p dsl \<Rightarrow> AuthorizationModelProvider \<Rightarrow> AuthorizationModel option" where
  "prepareModel d a = readAuthzModelFromDSLString d (if mp_apiVersion a = ''v2'' then v2Schema else v0Schema)"

text \<open>The model is compiled once and kept.\<close>

definition GetModel :: "'p dsl \<Rightarrow> AuthorizationModelProvider \<Rightarrow> AuthorizationModel option \<times> AuthorizationModelProvider" where
  "GetModel d a =
     (case mp_model a of
        Some m \<Rightarrow> (Some m, a)
      | None \<Rightarrow> (case prepareModel d a of None \<Rightarrow> (None, a) | Some m \<Rightarrow> (Some m, a\<lparr>mp_model := Some m\<rparr>)))"

definition NewAuthorizationModelProvider :: "string \<Rightarrow> AuthorizationModelProvider" where
  "NewAuthorizationModelProvider apiVersion = \<lparr>mp_apiVersion = apiVersion, mp_model = None\<rparr>"

abbreviation v0_model :: "'p dsl \<Rightarrow> AuthorizationModel option" where
  "v0_model d \<equiv> fst (GetModel d (NewAuthorizationModelProvider ''v0''))"

lemma v0_model: "v0_model d = readAuthzModelFromDSLString d v0Schema"
  by (simp add: GetModel_def NewAuthorizationModelProvider_def prepareModel_def split: option.splits)

text \<open>Asking again gives the same model, whatever the compiler would answer by then.\<close>

lemma GetModel_cached: "GetModel d a = (Some m, a') \<Longrightarrow> GetModel d' a' = (Some m, a')"
  by (auto simp: GetModel_def split: option.splits)

subsection \<open>Decisions\<close>

text \<open>\<open>v0Model\<close> is what the provider of version \<open>v0\<close> returns.\<close>

definition ValidateModel :: "'s authz_client \<Rightarrow> AuthorizationModel option \<Rightarrow> 's \<Rightarrow> error option option \<times> 's" where
  "ValidateModel cl v0Model s =
     (case v0Model of None \<Rightarrow> (None, s)
      | Some model \<Rightarrow>
          (case ac_CompareModel cl model s of
             (Inl e, s1) \<Rightarrow> (Some (Some e), s1)
           | (Inr eq, s1) \<Rightarrow> (Some (if \<not> eq then Some (Sentinel authorization_ErrInvalidAuthModel) else None), s1)))"

definition member_tuples :: "string \<Rightarrow> string list \<Rightarrow> Tuple list" where
  "member_tuples userId groups = map (\<lambda>grp. NewTuple (UserTuple userId) MEMBER_RELATION (GroupTuple grp)) groups"

definition CanAccess :: "'s authz_client \<Rightarrow> string \<Rightarrow> string \<Rightarrow> string list \<Rightarrow> 's \<Rightarrow> bool res \<times> 's" where
  "CanAccess cl userId clientId groups s =
     authorizer_Check cl (UserTuple userId) CAN_ACCESS_RELATION (ClientTuple clientId) (member_tuples userId groups) s"

definition BatchCanAccess ::
  "'s authz_client \<Rightarrow> string \<Rightarrow> string list \<Rightarrow> string list \<Rightarrow> 's \<Rightarrow> bool res option \<times> 's" where
  "BatchCanAccess cl userId clientIds groups s =
     ac_BatchCheck cl (map (\<lambda>clientId. NewTupleWithContext (UserTuple userId) CAN_ACCESS_RELATION
        (ClientTuple clientId) (member_tuples userId groups)) clientIds) s"

section \<open>Edits\<close>

definition authorizer_AddAllowedAppToGroup :: "'s authz_client \<Rightarrow> string \<Rightarrow> string \<Rightarrow> 's \<Rightarrow> error option \<times> 's" where
  "authorizer_AddAllowedAppToGroup cl groupID clientID s =
     ac_WriteTuple cl (GroupMemberTuple groupID) CAN_ACCESS_RELATION (ClientTuple clientID) s"

definition authorizer_RemoveAllowedAppFromGroup :: "'s authz_client \<Rightarrow> string \<Rightarrow> string \<Rightarrow> 's \<Rightarrow> error option \<times> 's" where
  "authorizer_RemoveAllowedAppFromGroup cl groupID clientID s =
     ac_DeleteTuple cl (GroupMemberTuple groupID) CAN_ACCESS_RELATION (ClientTuple clientID) s"

text \<open>The loop both bulk removals share: read a page, delete it, go on with the continuation token.
  Nothing in the code bounds it, so it is a partial function; not returning is \<open>None\<close>.\<close>

partial_function (option) remove_loop ::
  "'s authz_client \<Rightarrow> string \<Rightarrow> string \<Rightarrow> string \<Rightarrow> 's \<Rightarrow> (error option \<times> 's) option" where
  "remove_loop cl user object cToken s =
     (case ac_ReadTuples cl user CAN_ACCESS_RELATION object cToken s of
        (Inl e, s1) \<Rightarrow> Some (Some e, s1)
      | (Inr (tuples, token), s1) \<Rightarrow>
          if length tuples = 0 then Some (None, s1)
          else
            (case ac_DeleteTuples cl
                    (map (\<lambda>t. NewTuple (tp_User t) (tp_Relation t) (tp_Object t)) tuples) s1 of
               (Some e, s2) \<Rightarrow> Some (Some e, s2)
             | (None, s2) \<Rightarrow> if token = [] then Some (None, s2) else remove_loop cl user object token s2))"

definition authorizer_RemoveAllAllowedGroupsForApp :: "'s authz_client \<Rightarrow> string \<Rightarrow> 's \<Rightarrow> (error option \<times> 's) option" where
  "authorizer_RemoveAllAllowedGroupsForApp cl clientID s =
     remove_loop cl (GroupMemberTuple []) (ClientTuple clientID) [] s"

definition authorizer_RemoveAllAllowedAppsFromGroup :: "'s authz_client \<Rightarrow> string \<Rightarrow> 's \<Rightarrow> (error option \<times> 's) option" where
  "authorizer_RemoveAllAllowedAppsFromGroup cl groupId s =
     remove_loop cl (GroupMemberTuple groupId) (ClientTuple []) [] s"

definition authorizer_DeleteGroup :: "'s authz_client \<Rightarrow> string \<Rightarrow> 's \<Rightarrow> (error option \<times> 's) option" where
  "authorizer_DeleteGroup cl grp s = authorizer_RemoveAllAllowedAppsFromGroup cl grp s"

section \<open>Names are faithful\<close>

lemma b64_alphabet_length: "length b64_alphabet = 64"
  by (simp add: b64_alphabet_def)

lemma b64_alphabet_distinct: "distinct b64_alphabet"
  by (simp add: b64_alphabet_def)

lemma b64_char_inj: "a < 64 \<Longrightarrow> b < 64 \<Longrightarrow> b64_char a = b64_char b \<longleftrightarrow> a = b"
  using nth_eq_iff_index_eq [OF b64_alphabet_distinct] by (simp add: b64_char_def b64_alphabet_length)

lemma b64_char_in: "a < 64 \<Longrightarrow> b64_char a \<in> set b64_alphabet"
  using nth_mem [of a b64_alphabet] by (simp add: b64_char_def b64_alphabet_length)

lemma b64_char_not_special:
  assumes "a < 64"
  shows "b64_char a \<noteq> CHR ''=''" "b64_char a \<noteq> CHR ''#''" "b64_char a \<noteq> CHR '':''"
proof -
  have "CHR ''='' \<notin> set b64_alphabet" "CHR ''#'' \<notin> set b64_alphabet" "CHR '':'' \<notin> set b64_alphabet"
    by (simp_all add: b64_alphabet_def)
  with b64_char_in [OF assms] show "b64_char a \<noteq> CHR ''=''" "b64_char a \<noteq> CHR ''#''" "b64_char a \<noteq> CHR '':''"
    by metis+
qed

abbreviation byte_list :: "nat list \<Rightarrow> bool" where
  "byte_list xs \<equiv> \<forall>x \<in> set xs. x < 256"

lemma digits_inj:
  fixes x y k :: nat
  assumes "y < k" "y' < k" "x * k + y = x' * k + y'"
  shows "x = x' \<and> y = y'"
proof -
  from assms(1) have "(x * k + y) div k = x" "(x * k + y) mod k = y" by simp_all
  moreover from assms(2) have "(x' * k + y') div k = x'" "(x' * k + y') mod k = y'" by simp_all
  ultimately show ?thesis using assms(3) by simp
qed

lemma sextets_inj:
  fixes a b c :: nat
  assumes "a < 256" "b < 256" "c < 256" "a' < 256" "b' < 256" "c' < 256"
    and "a div 4 = a' div 4" "a mod 4 * 16 + b div 16 = a' mod 4 * 16 + b' div 16"
    and "b mod 16 * 4 + c div 64 = b' mod 16 * 4 + c' div 64" "c mod 64 = c' mod 64"
  shows "a = a' \<and> b = b' \<and> c = c'"
proof -
  have "b div 16 < 16" "b' div 16 < 16" "c div 64 < 4" "c' div 64 < 4"
    using assms(2,3,5,6) by simp_all
  from digits_inj [OF this(1,2) assms(8)] digits_inj [OF this(3,4) assms(9)]
  have "a mod 4 = a' mod 4" "b div 16 = b' div 16" "b mod 16 = b' mod 16" "c div 64 = c' div 64"
    by simp_all
  with assms(7,10) show ?thesis by (metis div_mult_mod_eq)
qed

lemma sextets_bound:
  fixes a b c :: nat
  shows "a < 256 \<Longrightarrow> a div 4 < 64" "b < 256 \<Longrightarrow> a mod 4 * 16 + b div 16 < 64"
    "c < 256 \<Longrightarrow> b mod 16 * 4 + c div 64 < 64" "c mod 64 < 64" "a mod 4 * 16 < 64" "b mod 16 * 4 < 64"
proof -
  have "a mod 4 < 4" "b mod 16 < 16" by simp_all
  moreover have "b div 16 < 16" if "b < 256" using that by simp
  moreover have "c div 64 < 4" if "c < 256" using that by simp
  ultimately show "b < 256 \<Longrightarrow> a mod 4 * 16 + b div 16 < 64" "c < 256 \<Longrightarrow> b mod 16 * 4 + c div 64 < 64"
    "a mod 4 * 16 < 64" "b mod 16 * 4 < 64"
    by linarith+
qed simp_all

lemma b64_char_not_pad: "n < 64 \<Longrightarrow> b64_char n \<noteq> CHR ''=''" "n < 64 \<Longrightarrow> CHR ''='' \<noteq> b64_char n"
  by (simp_all add: b64_char_not_special(1) not_sym [OF b64_char_not_special(1)])

lemmas b64_digits = b64_char_inj b64_char_not_pad sextets_bound

text \<open>The padding tells how many bytes the last quantum holds, its digits which ones.\<close>

lemma b64_encode_inj:
  assumes "byte_list xs" "byte_list ys" "b64_encode xs = b64_encode ys"
  shows "xs = ys"
  using assms
proof (induction xs arbitrary: ys rule: b64_encode.induct)
  case 1
  then show ?case by (cases ys rule: b64_encode.cases) simp_all
next
  case (2 a)
  then show ?case
  proof (cases ys rule: b64_encode.cases)
    case (2 a')
    with "2.prems" sextets_inj [of a 0 0 a' 0 0] show ?thesis by (simp add: b64_digits)
  qed (auto simp: b64_digits)
next
  case (3 a b)
  then show ?case
  proof (cases ys rule: b64_encode.cases)
    case (3 a' b')
    with "3.prems" sextets_inj [of a b 0 a' b' 0] show ?thesis by (simp add: b64_digits)
  qed (auto simp: b64_digits)
next
  case (4 a b c xs)
  then show ?case
  proof (cases ys rule: b64_encode.cases)
    case (4 a' b' c' zs)
    with "4.prems" have "b64_encode xs = b64_encode zs" "byte_list xs" "byte_list zs" by simp_all
    from "4.IH" [OF this(2,3,1)] 4 "4.prems" sextets_inj [of a b c a' b' c'] show ?thesis
      by (simp add: b64_digits)
  qed (auto simp: b64_digits)
qed

lemma b64_encode_chars: "byte_list xs \<Longrightarrow> set (b64_encode xs) \<subseteq> insert (CHR ''='') (set b64_alphabet)"
  by (induction xs rule: b64_encode.induct) (auto intro!: b64_char_in sextets_bound)

lemma byte_list_of_char: "byte_list (map of_char s)"
  by (simp add: nat_of_char_less_256)

lemma EncodeToString_inj: "EncodeToString s = EncodeToString t \<Longrightarrow> s = t"
  unfolding EncodeToString_def
  by (drule b64_encode_inj [OF byte_list_of_char byte_list_of_char])
    (simp add: inj_eq [OF inj_mapI] inj_def)

lemma EncodeToString_plain: "CHR ''#'' \<notin> set (EncodeToString s)" "CHR '':'' \<notin> set (EncodeToString s)"
proof -
  have "CHR ''#'' \<notin> insert (CHR ''='') (set b64_alphabet)" "CHR '':'' \<notin> insert (CHR ''='') (set b64_alphabet)"
    by (simp_all add: b64_alphabet_def)
  with b64_encode_chars [OF byte_list_of_char [of s]]
  show "CHR ''#'' \<notin> set (EncodeToString s)" "CHR '':'' \<notin> set (EncodeToString s)"
    unfolding EncodeToString_def by blast+
qed

lemma GroupTuple_inj [simp]: "GroupTuple g = GroupTuple h \<longleftrightarrow> g = h"
  by (auto simp: GroupTuple_def dest: EncodeToString_inj)

lemma GroupMemberTuple_inj [simp]: "GroupMemberTuple g = GroupMemberTuple h \<longleftrightarrow> g = h"
  by (simp add: GroupMemberTuple_def)

lemma names_inj [simp]:
  "UserTuple u = UserTuple v \<longleftrightarrow> u = v" "ClientTuple u = ClientTuple v \<longleftrightarrow> u = v"
  by (simp_all add: UserTuple_def ClientTuple_def)

lemma names_distinct [simp]:
  "UserTuple u \<noteq> GroupMemberTuple g" "GroupMemberTuple g \<noteq> UserTuple u" "UserTuple u \<noteq> GroupTuple g"
  "GroupTuple g \<noteq> UserTuple u" "ClientTuple a \<noteq> GroupTuple g" "GroupTuple g \<noteq> ClientTuple a"
  by (simp_all add: UserTuple_def GroupMemberTuple_def GroupTuple_def ClientTuple_def)

lemma relations_distinct [simp]:
  "CAN_ACCESS_RELATION \<noteq> MEMBER_RELATION" "MEMBER_RELATION \<noteq> CAN_ACCESS_RELATION"
  "CAN_ACCESS_RELATION \<noteq> ''privileged''" "CAN_ACCESS_RELATION \<noteq> ''admin''"
  "MEMBER_RELATION \<noteq> ''privileged''" "MEMBER_RELATION \<noteq> ''admin''"
  by (simp_all add: CAN_ACCESS_RELATION_def MEMBER_RELATION_def)

section \<open>The authorization model\<close>

text \<open>
  What the relations of \<^verbatim>\<open>authorization_model.v0.openfga\<close> mean for a set of tuples, for the three
  relations \<open>can_access\<close> is defined from: \<open>member: [user, group#member]\<close>, \<open>admin: [user]\<close> and
  \<open>can_access: [user, group#member] or admin from privileged\<close>.
\<close>

inductive fga_rel :: "Tuple set \<Rightarrow> string \<Rightarrow> string \<Rightarrow> string \<Rightarrow> bool" for T where
  direct: "NewTuple u r ob \<in> T \<Longrightarrow> fga_rel T u r ob"
| via_group: "NewTuple (g @ ''#member'') r ob \<in> T \<Longrightarrow> fga_rel T u ''member'' g \<Longrightarrow>
     r = ''member'' \<or> r = ''can_access'' \<Longrightarrow> fga_rel T u r ob"
| privileged: "NewTuple p ''privileged'' ob \<in> T \<Longrightarrow> fga_rel T u ''admin'' p \<Longrightarrow> fga_rel T u ''can_access'' ob"

text \<open>The tuple the service stores for a permission.\<close>

definition permission_tuple :: "string \<times> string \<Rightarrow> Tuple" where
  "permission_tuple p = NewTuple (GroupMemberTuple (fst p)) CAN_ACCESS_RELATION (ClientTuple (snd p))"

lemma permission_tuple_inj: "permission_tuple p = permission_tuple q \<longleftrightarrow> p = q"
  by (cases p; cases q) (simp add: permission_tuple_def NewTuple_def)

lemma NewTuple_eq [simp]: "NewTuple u r ob = NewTuple u' r' ob' \<longleftrightarrow> u = u' \<and> r = r' \<and> ob = ob'"
  by (simp add: NewTuple_def)

text \<open>Nothing but groups named by the contextual tuples has a member.\<close>

lemma member_only_contextual:
  assumes "fga_rel T u r ob" and "r = ''member''"
    and "T = permission_tuple ` P \<union> set (member_tuples v groups)"
  shows "\<exists>g \<in> set groups. ob = GroupTuple g"
  using assms
  by (induction rule: fga_rel.induct)
    (auto simp: permission_tuple_def member_tuples_def MEMBER_RELATION_def CAN_ACCESS_RELATION_def)

lemma fga_access_meaning:
  "fga_rel (permission_tuple ` P \<union> set (member_tuples u groups)) (UserTuple u) CAN_ACCESS_RELATION (ClientTuple a)
   \<longleftrightarrow> (\<exists>g \<in> set groups. (g, a) \<in> P)" (is "fga_rel ?T _ _ _ \<longleftrightarrow> _")
proof
  assume "fga_rel ?T (UserTuple u) CAN_ACCESS_RELATION (ClientTuple a)"
  then show "\<exists>g \<in> set groups. (g, a) \<in> P"
  proof (cases rule: fga_rel.cases)
    case direct
    then show ?thesis by (auto simp: permission_tuple_def member_tuples_def)
  next
    case (via_group gn)
    from via_group(1) have "NewTuple (gn @ ''#member'') CAN_ACCESS_RELATION (ClientTuple a) \<in> permission_tuple ` P"
      by (auto simp: member_tuples_def)
    then obtain g where g: "(g, a) \<in> P" "gn @ ''#member'' = GroupMemberTuple g"
      by (clarsimp simp: permission_tuple_def)
    then have "gn = GroupTuple g" by (simp add: GroupMemberTuple_def MEMBER_RELATION_def)
    with member_only_contextual [OF via_group(2) refl refl] g show ?thesis by auto
  next
    case (privileged p)
    then show ?thesis
      by (auto simp: permission_tuple_def member_tuples_def MEMBER_RELATION_def CAN_ACCESS_RELATION_def)
  qed
next
  assume "\<exists>g \<in> set groups. (g, a) \<in> P"
  then obtain g where g: "g \<in> set groups" "(g, a) \<in> P" by blast
  from g(1) have mem: "fga_rel ?T (UserTuple u) ''member'' (GroupTuple g)"
    by (auto simp: member_tuples_def MEMBER_RELATION_def intro!: fga_rel.direct)
  from imageI [OF g(2), of permission_tuple]
  have perm: "NewTuple (GroupTuple g @ ''#member'') CAN_ACCESS_RELATION (ClientTuple a) \<in> ?T"
    by (simp add: permission_tuple_def GroupMemberTuple_def MEMBER_RELATION_def)
  show "fga_rel ?T (UserTuple u) CAN_ACCESS_RELATION (ClientTuple a)"
    by (rule fga_rel.via_group [OF perm mem]) (simp add: CAN_ACCESS_RELATION_def)
qed

section \<open>What the code relies on of the server\<close>

text \<open>The filter of a read: user and relation are compared exactly; an object that is only a type
  (\<open>client:\<close>) stands for every object of the type.\<close>

definition fga_matches :: "Tuple \<Rightarrow> Tuple \<Rightarrow> bool" where
  "fga_matches f t \<longleftrightarrow> tp_User t = tp_User f \<and> tp_Relation t = tp_Relation f \<and>
     (tp_Object t = tp_Object f \<or> (tp_Object f \<noteq> [] \<and> last (tp_Object f) = CHR '':'' \<and> prefix (tp_Object f) (tp_Object t)))"

definition verdict :: "bool option \<Rightarrow> bool" where
  "verdict b = (case b of None \<Rightarrow> False | Some v \<Rightarrow> v)"

text \<open>
  The documented behaviour, for the tuples \<open>store s\<close> in a server state and the tuples
  \<open>todo f tok s\<close> a read with filter \<open>f\<close> has still to deliver from token \<open>tok\<close> on.
\<close>

definition write_law :: "'s sdk \<Rightarrow> ('s \<Rightarrow> Tuple set) \<Rightarrow> bool" where
  "write_law sdk store \<longleftrightarrow> (\<forall>ws ds s r s'. sdk_Write sdk ws ds s = (r, s') \<longrightarrow>
     store s' = (if r = None then (store s - set ds) \<union> set ws else store s))"

definition check_law :: "'s sdk \<Rightarrow> ('s \<Rightarrow> Tuple set) \<Rightarrow> bool" where
  "check_law sdk store \<longleftrightarrow> (\<forall>t cs s v s'. sdk_Check sdk t cs s = (Inr v, s') \<longrightarrow>
     verdict v = fga_rel (store s \<union> set cs) (tp_User t) (tp_Relation t) (tp_Object t))"

definition batch_law :: "'s sdk \<Rightarrow> ('s \<Rightarrow> Tuple set) \<Rightarrow> bool" where
  "batch_law sdk store \<longleftrightarrow> (\<forall>ts m s rs s'. sdk_BatchCheck sdk ts m s = (Inr rs, s') \<longrightarrow>
     (\<exists>ts'. mset ts' = mset ts \<and> list_all2 (\<lambda>t r. br_Allowed r = Some True \<longrightarrow>
        fga_rel (store s \<union> set (tc_ContextualTuples t)) (tc_User t) (tc_Relation t) (tc_Object t)) ts' rs))"

definition read_law :: "'s sdk \<Rightarrow> ('s \<Rightarrow> Tuple set) \<Rightarrow> (Tuple \<Rightarrow> string \<Rightarrow> 's \<Rightarrow> Tuple set) \<Rightarrow> bool" where
  "read_law sdk store todo \<longleftrightarrow>
     (\<forall>s. finite (store s)) \<and>
     (\<forall>f s. todo f [] s = {t \<in> store s. fga_matches f t}) \<and>
     (\<forall>f tok s. todo f tok s \<subseteq> {t \<in> store s. fga_matches f t}) \<and>
     (\<forall>f tok s r s'. sdk_Read sdk f tok s = (r, s') \<longrightarrow> store s' = store s) \<and>
     (\<forall>f tok s ts tok' s'. sdk_Read sdk f tok s = (Inr (ts, tok'), s') \<longrightarrow>
        set ts \<subseteq> todo f tok s \<and> (ts = [] \<or> tok' = [] \<longrightarrow> todo f tok s \<subseteq> set ts) \<and>
        todo f tok' s' \<supseteq> todo f tok s - set ts) \<and>
     (\<forall>f tok ds s s'. sdk_Write sdk [] ds s = (None, s') \<longrightarrow> todo f tok s' \<supseteq> todo f tok s - set ds)"

lemma write_lawD: "write_law sdk store \<Longrightarrow> sdk_Write sdk ws ds s = (r, s') \<Longrightarrow>
   store s' = (if r = None then (store s - set ds) \<union> set ws else store s)"
  unfolding write_law_def by blast

lemma map_NewTuple_same: "map (\<lambda>t. NewTuple (tp_User t) (tp_Relation t) (tp_Object t)) ts = ts"
  by (induction ts) (simp_all add: NewTuple_def)

lemma DeleteTuples_Write: "DeleteTuples sdk ts s = sdk_Write sdk [] ts s"
  by (simp add: DeleteTuples_def Tuple_Values_def map_NewTuple_same)

section \<open>The removal loops\<close>

lemma read_lawD:
  assumes "read_law sdk store todo"
  shows "finite (store s)" "todo f [] s = {t \<in> store s. fga_matches f t}"
    "todo f tok s \<subseteq> {t \<in> store s. fga_matches f t}"
    "sdk_Read sdk f tok s = (r, s') \<Longrightarrow> store s' = store s"
    "sdk_Read sdk f tok s = (Inr (ts, tok'), s') \<Longrightarrow> set ts \<subseteq> todo f tok s"
    "sdk_Read sdk f tok s = (Inr (ts, tok'), s') \<Longrightarrow> ts = [] \<or> tok' = [] \<Longrightarrow> todo f tok s \<subseteq> set ts"
    "sdk_Read sdk f tok s = (Inr (ts, tok'), s') \<Longrightarrow> todo f tok s - set ts \<subseteq> todo f tok' s'"
    "sdk_Write sdk [] ds s = (None, s') \<Longrightarrow> todo f tok s - set ds \<subseteq> todo f tok s'"
proof -
  note laws = assms [unfolded read_law_def]
  note fin = conjunct1 [OF laws] and laws2 = conjunct2 [OF laws]
  note start = conjunct1 [OF laws2] and laws3 = conjunct2 [OF laws2]
  note dom = conjunct1 [OF laws3] and laws4 = conjunct2 [OF laws3]
  note keep = conjunct1 [OF laws4] and laws5 = conjunct2 [OF laws4]
  note page = conjunct1 [OF laws5] and del = conjunct2 [OF laws5]
  show "finite (store s)" "todo f [] s = {t \<in> store s. fga_matches f t}"
    "todo f tok s \<subseteq> {t \<in> store s. fga_matches f t}"
    by (rule fin [rule_format], rule start [rule_format], rule dom [rule_format])
  show "store s' = store s" if "sdk_Read sdk f tok s = (r, s')" by (rule keep [rule_format, OF that])
  show "todo f tok s - set ds \<subseteq> todo f tok s'" if "sdk_Write sdk [] ds s = (None, s')"
    by (rule del [rule_format, OF that])
  show "set ts \<subseteq> todo f tok s" "todo f tok s - set ts \<subseteq> todo f tok' s'"
    if "sdk_Read sdk f tok s = (Inr (ts, tok'), s')"
    using page [THEN spec, THEN spec, THEN spec, THEN spec, THEN spec, THEN spec, THEN mp, OF that] by simp_all
  show "todo f tok s \<subseteq> set ts" if "sdk_Read sdk f tok s = (Inr (ts, tok'), s')" "ts = [] \<or> tok' = []"
    using page [THEN spec, THEN spec, THEN spec, THEN spec, THEN spec, THEN spec, THEN mp, OF that(1)] that(2)
    by (simp only: simp_thms)
qed

text \<open>One unfolding of the loop over the vendor's client.\<close>

lemma remove_loop_Client:
  "remove_loop (Client sdk) u ob tok s =
     (case sdk_Read sdk (NewTuple u CAN_ACCESS_RELATION ob) tok s of
        (Inl e, s1) \<Rightarrow> Some (Some e, s1)
      | (Inr (ts, tok'), s1) \<Rightarrow> if ts = [] then Some (None, s1) else
          (case sdk_Write sdk [] ts s1 of (Some e, s2) \<Rightarrow> Some (Some e, s2)
           | (None, s2) \<Rightarrow> if tok' = [] then Some (None, s2) else remove_loop (Client sdk) u ob tok' s2))"
  by (subst (1) remove_loop.simps)
    (simp add: ReadTuples_def DeleteTuples_Write map_NewTuple_same split: prod.splits sum.splits option.splits)

text \<open>One round that deletes its page: the store loses the page and nothing else, so it gets smaller,
  and what still matches is still to be delivered.\<close>

lemma remove_round:
  assumes W: "write_law sdk store" and R: "read_law sdk store todo"
    and inv: "{t \<in> store s. fga_matches f t} \<subseteq> todo f tok s"
    and rd: "sdk_Read sdk f tok s = (Inr (ts, tok'), s1)" and ts: "ts \<noteq> []"
    and wr: "sdk_Write sdk [] ts s1 = (None, s2)"
  shows "store s2 = store s - set ts" "set ts \<subseteq> {t \<in> store s. fga_matches f t}"
    "card (store s2) < card (store s)" "{t \<in> store s2. fga_matches f t} \<subseteq> todo f tok' s2"
    "tok' = [] \<Longrightarrow> store s2 = store s - Collect (fga_matches f)"
proof -
  show st2: "store s2 = store s - set ts"
    using write_lawD [OF W wr] read_lawD(4) [OF R rd] by simp
  show page: "set ts \<subseteq> {t \<in> store s. fga_matches f t}"
    using read_lawD(5) [OF R rd] read_lawD(3) [OF R] by blast
  from ts have "set ts \<noteq> {}" by simp
  with page obtain x where "x \<in> set ts" "x \<in> store s" by (metis (mono_tags, lifting) ex_in_conv mem_Collect_eq subsetD)
  then have "store s - set ts \<subset> store s" by blast
  from psubset_card_mono [OF read_lawD(1) [OF R] this] show "card (store s2) < card (store s)"
    by (simp add: st2)
  show "{t \<in> store s2. fga_matches f t} \<subseteq> todo f tok' s2"
    using inv st2 read_lawD(7) [OF R rd] read_lawD(8) [OF R wr] by blast
  show "store s2 = store s - Collect (fga_matches f)" if "tok' = []"
    using inv st2 page read_lawD(6) [OF R rd] that by blast
qed

text \<open>A round ends the loop or hands over to the next one with the rest of the tuples.\<close>

lemma remove_loop_round:
  assumes W: "write_law sdk store" and R: "read_law sdk store todo"
    and inv: "{t \<in> store s. fga_matches f t} \<subseteq> todo f tok s" and f: "f = NewTuple u CAN_ACCESS_RELATION ob"
  obtains (ends) r s' where "remove_loop (Client sdk) u ob tok s = Some (r, s')"
      "store s' \<subseteq> store s" "store s - store s' \<subseteq> Collect (fga_matches f)" "r = None \<Longrightarrow> store s' = store s - Collect (fga_matches f)"
  | (continues) tok' s' where "remove_loop (Client sdk) u ob tok s = remove_loop (Client sdk) u ob tok' s'"
      "store s' \<subseteq> store s" "store s - store s' \<subseteq> Collect (fga_matches f)"
      "card (store s') < card (store s)" "{t \<in> store s'. fga_matches f t} \<subseteq> todo f tok' s'"
proof -
  obtain res s1 where rd: "sdk_Read sdk f tok s = (res, s1)" by fastforce
  note s1 = read_lawD(4) [OF R rd] and loop = remove_loop_Client [of sdk u ob tok s, folded f]
  consider (failed) e where "res = Inl e" | (empty) tok' where "res = Inr ([], tok')"
    | (page) ts tok' where "res = Inr (ts, tok')" "ts \<noteq> []"
    by (cases res) auto
  then show thesis
  proof cases
    case failed
    with rd s1 show thesis by (intro ends) (auto simp: loop)
  next
    case empty
    with read_lawD(6) [OF R rd [unfolded empty]] inv have "store s = store s - Collect (fga_matches f)" by auto
    with rd empty s1 show thesis by (intro ends [of None s1]) (auto simp: loop)
  next
    case page
    obtain e s2 where wr: "sdk_Write sdk [] ts s1 = (e, s2)" by fastforce
    note rd = rd [unfolded page(1)]
    show thesis
    proof (cases e)
      case (Some err)
      with rd page wr s1 write_lawD [OF W wr] show thesis by (intro ends) (auto simp: loop)
    next
      case None
      note round = remove_round [OF W R inv rd page(2) wr [unfolded None]]
      show thesis
      proof (cases "tok' = []")
        case True
        with rd page wr None round(5) show thesis by (intro ends) (auto simp: loop)
      next
        case False
        with rd page wr None round(1-4) show thesis by (intro continues [of tok' s2]) (auto simp: loop)
      qed
    qed
  qed
qed

text \<open>Every round deletes at least one stored tuple, so the loop returns; a success has deleted every
  matching tuple, a failure only matching ones.\<close>

lemma remove_loop_spec:
  assumes W: "write_law sdk store" and R: "read_law sdk store todo"
    and inv: "{t \<in> store s. fga_matches (NewTuple u CAN_ACCESS_RELATION ob) t}
                \<subseteq> todo (NewTuple u CAN_ACCESS_RELATION ob) tok s"
  shows "\<exists>r s'. remove_loop (Client sdk) u ob tok s = Some (r, s') \<and> store s' \<subseteq> store s \<and>
     store s - store s' \<subseteq> Collect (fga_matches (NewTuple u CAN_ACCESS_RELATION ob)) \<and>
     (r = None \<longrightarrow> store s' = store s - Collect (fga_matches (NewTuple u CAN_ACCESS_RELATION ob)))"
  using inv
proof (induction "card (store s)" arbitrary: s tok rule: less_induct)
  case less
  from W R less.prems refl show ?case
  proof (cases rule: remove_loop_round)
    case (ends r s')
    then show ?thesis by blast
  next
    case (continues tok' s')
    from less.hyps [OF continues(4,5)] continues(1-3) show ?thesis by fastforce
  qed
qed

lemma prefix_ClientTuple: "prefix (ClientTuple []) x \<longleftrightarrow> (\<exists>a. x = ClientTuple a)"
  by (auto simp: ClientTuple_def prefix_def)

lemma remove_apps_filter:
  "fga_matches (NewTuple (GroupMemberTuple g) CAN_ACCESS_RELATION (ClientTuple [])) t \<longleftrightarrow> (\<exists>a. t = permission_tuple (g, a))"
proof -
  have "last (ClientTuple []) = CHR '':''" "ClientTuple [] \<noteq> []" by (simp_all add: ClientTuple_def)
  then show ?thesis
    by (cases t) (auto simp: fga_matches_def prefix_ClientTuple permission_tuple_def NewTuple_def)
qed

lemma remove_groups_filter:
  assumes "a \<noteq> []" "last a \<noteq> CHR '':''"
  shows "fga_matches (NewTuple (GroupMemberTuple []) CAN_ACCESS_RELATION (ClientTuple a)) t \<longleftrightarrow> t = permission_tuple ([], a)"
proof -
  have "last (ClientTuple a) \<noteq> CHR '':''" using assms by (simp add: ClientTuple_def)
  then show ?thesis by (cases t) (auto simp: fga_matches_def permission_tuple_def NewTuple_def)
qed

section \<open>A server that meets the laws\<close>

text \<open>The tuples are a list, a read delivers one matching tuple at a time (whatever the token) and says
  whether there are more.\<close>

fun page_of :: "Tuple list \<Rightarrow> Tuple list \<times> string" where
  "page_of [] = ([], [])"
| "page_of [t] = ([t], [])"
| "page_of (t # t' # ts) = ([t], ''more'')"

lemma page_of_spec:
  assumes "page_of xs = (ts, tok)"
  shows "set ts \<subseteq> set xs" "ts = [] \<or> tok = [] \<Longrightarrow> set xs \<subseteq> set ts"
  using assms by (cases xs rule: page_of.cases; auto)+

definition ref_sdk :: "Tuple list sdk" where
  "ref_sdk = \<lparr>sdk_CreateStore = (\<lambda>name s. (Inr name, s)),
     sdk_ReadAuthorizationModel = (\<lambda>s. (Inr \<lparr>am_SchemaVersion = ''1.1'', am_TypeDefinitions = JNull, am_Conditions = JNull\<rparr>, s)),
     sdk_WriteAuthorizationModel = (\<lambda>m s. (Inr ''model'', s)),
     sdk_GetAuthorizationModelId = (\<lambda>s. Inr ''model''),
     sdk_Write = (\<lambda>ws ds s. (None, filter (\<lambda>t. t \<notin> set ds) s @ ws)),
     sdk_Check = (\<lambda>t cs s. (Inr (Some (fga_rel (set s \<union> set cs) (tp_User t) (tp_Relation t) (tp_Object t))), s)),
     sdk_BatchCheck = (\<lambda>ts m s. (Inr (map (\<lambda>t. \<lparr>br_Allowed = Some (fga_rel (set s \<union> set (tc_ContextualTuples t))
         (tc_User t) (tc_Relation t) (tc_Object t)), br_Error = None\<rparr>) ts), s)),
     sdk_Read = (\<lambda>f tok s. (Inr (page_of (remdups (filter (fga_matches f) s))), s)),
     sdk_ListObjects = (\<lambda>u r ty s. (Inr [], s)),
     sdk_ListUsers = (\<lambda>uf r ob s. (Inr [], s))\<rparr>"

definition ref_todo :: "Tuple \<Rightarrow> string \<Rightarrow> Tuple list \<Rightarrow> Tuple set" where
  "ref_todo f tok s = {t \<in> set s. fga_matches f t}"

lemma ref_laws: "write_law ref_sdk set" "check_law ref_sdk set" "batch_law ref_sdk set" "read_law ref_sdk set ref_todo"
proof -
  show "write_law ref_sdk set" by (auto simp: write_law_def ref_sdk_def)
  show "check_law ref_sdk set" by (auto simp: check_law_def ref_sdk_def verdict_def)
  show "batch_law ref_sdk set"
    unfolding batch_law_def
  proof (intro allI impI)
    fix ts m s rs s'
    assume "sdk_BatchCheck ref_sdk ts m s = (Inr rs, s')"
    then show "\<exists>ts'. mset ts' = mset ts \<and> list_all2 (\<lambda>t r. br_Allowed r = Some True \<longrightarrow>
        fga_rel (set s \<union> set (tc_ContextualTuples t)) (tc_User t) (tc_Relation t) (tc_Object t)) ts' rs"
      by (intro exI [of _ ts]) (auto simp: ref_sdk_def list_all2_conv_all_nth)
  qed
  have rd: "page_of (remdups (filter (fga_matches f) s)) = (ts, tok')" "s' = s"
    if "sdk_Read ref_sdk f tok s = (Inr (ts, tok'), s')" for f tok s ts tok' s'
    using that by (auto simp: ref_sdk_def)
  have todo: "set (remdups (filter (fga_matches f) s)) = ref_todo f tok s" for f tok s
    by (simp add: ref_todo_def)
  show "read_law ref_sdk set ref_todo"
    unfolding read_law_def
  proof (intro conjI allI impI)
    fix f tok s ts tok' s'
    assume r: "sdk_Read ref_sdk f tok s = (Inr (ts, tok'), s')"
    from page_of_spec(1) [OF rd(1) [OF r]] show "set ts \<subseteq> ref_todo f tok s" by (simp only: todo [symmetric])
    from page_of_spec(2) [OF rd(1) [OF r]] show "ref_todo f tok s \<subseteq> set ts" if "ts = [] \<or> tok' = []"
      using that by (simp only: todo [symmetric])
    from rd(2) [OF r] show "ref_todo f tok s - set ts \<subseteq> ref_todo f tok' s'" by (auto simp: ref_todo_def)
  qed (auto simp: ref_todo_def ref_sdk_def)
qed

section \<open>Properties\<close>

lemma CanAccess_spec:
  assumes "check_law sdk store" and "store s = permission_tuple ` P"
    and "CanAccess (Client sdk) u a groups s = (Inr b, s')"
  shows "b \<longleftrightarrow> (\<exists>g \<in> set groups. (g, a) \<in> P)"
proof -
  let ?t = "NewTuple (UserTuple u) CAN_ACCESS_RELATION (ClientTuple a)"
  from assms(3) obtain v where "sdk_Check sdk ?t (member_tuples u groups) s = (Inr v, s')" and b: "b = verdict v"
    by (auto simp: CanAccess_def authorizer_Check_def Check_def verdict_def split: prod.splits sum.splits)
  with assms(1) have "verdict v = fga_rel (store s \<union> set (member_tuples u groups)) (UserTuple u) CAN_ACCESS_RELATION (ClientTuple a)"
    unfolding check_law_def by fastforce
  then show ?thesis by (simp add: b assms(2) fga_access_meaning)
qed

text \<open>C20: access follows the permissions. When the tuples stored in OpenFGA are exactly those of a set of
  permissions (group, application), and OpenFGA evaluates the embedded model, \<open>CanAccess\<close> answers yes
  exactly when one of the caller's groups is permitted to use the application: no user, group or client
  name can be crafted to collide with another.\<close>

theorem CanAccess_follows_permissions:
  assumes "check_law sdk store" and "store s = permission_tuple ` P"
    and "CanAccess (Client sdk) u a groups s = (Inr b, s')"
  shows "b \<longleftrightarrow> (\<exists>g \<in> set groups. (g, a) \<in> P)"
  by (rule CanAccess_spec [OF assms])

theorem CanAccess_follows_permissions_witness:
  "\<exists>s'. CanAccess (Client ref_sdk) ''ann'' ''app'' [''g1''] [permission_tuple (''g1'', ''app'')] = (Inr True, s')"
proof -
  let ?s = "[permission_tuple (''g1'', ''app'')]"
  obtain b s' where c: "CanAccess (Client ref_sdk) ''ann'' ''app'' [''g1''] ?s = (Inr b, s')"
    by (simp add: CanAccess_def authorizer_Check_def Check_def ref_sdk_def)
  have "set ?s = permission_tuple ` {(''g1'', ''app'')}" by simp
  from CanAccess_follows_permissions [OF ref_laws(2) this c] c show ?thesis by simp
qed

lemma list_all2_pick: "list_all2 R xs ys \<Longrightarrow> x \<in> set xs \<Longrightarrow> \<exists>y \<in> set ys. R x y"
  by (induction rule: list_all2_induct) auto

lemma batch_loop_False: "batch_loop False errs rs = Some (b, errs') \<Longrightarrow> \<not> b"
  by (induction rs arbitrary: errs) (auto simp: Let_def)

lemma batch_loop_True:
  "batch_loop True errs rs = Some (True, errs') \<Longrightarrow> \<forall>r \<in> set rs. br_Allowed r = Some True"
proof (induction rs arbitrary: errs)
  case (Cons r rs)
  show ?case
  proof (cases "br_Allowed r")
    case (Some b)
    with Cons.prems Cons.IH show ?thesis by (cases b) (auto simp: Let_def dest: batch_loop_False)
  qed (use Cons.prems in \<open>simp add: Let_def\<close>)
qed simp

lemma BatchCanAccess_spec:
  assumes "batch_law sdk store" and "store s = permission_tuple ` P"
    and "BatchCanAccess (Client sdk) u clients groups s = (Some (Inr b), s')"
  shows "b \<and> (\<forall>a \<in> set clients. \<exists>g \<in> set groups. (g, a) \<in> P)"
proof -
  let ?ts = "map (\<lambda>a. NewTupleWithContext (UserTuple u) CAN_ACCESS_RELATION (ClientTuple a) (member_tuples u groups)) clients"
  from assms(3) obtain m rs errs where bc: "sdk_BatchCheck sdk ?ts m s = (Inr rs, s')"
    and lp: "batch_loop True [''error while performing Check operation:''] rs = Some (True, errs)" and b
    by (auto simp: BatchCanAccess_def BatchCheck_def split: prod.splits sum.splits option.splits if_splits)
  note yes = batch_loop_True [OF lp]
  from assms(1) bc obtain ts' where perm: "mset ts' = mset ?ts" and ok: "list_all2 (\<lambda>t r. br_Allowed r = Some True \<longrightarrow>
      fga_rel (store s \<union> set (tc_ContextualTuples t)) (tc_User t) (tc_Relation t) (tc_Object t)) ts' rs"
    unfolding batch_law_def by blast
  have "\<exists>g \<in> set groups. (g, a) \<in> P" if "a \<in> set clients" for a
  proof -
    from that perm have "NewTupleWithContext (UserTuple u) CAN_ACCESS_RELATION (ClientTuple a) (member_tuples u groups) \<in> set ts'"
      using mset_eq_setD [OF perm] by simp
    from list_all2_pick [OF ok this] yes
    have "fga_rel (store s \<union> set (member_tuples u groups)) (UserTuple u) CAN_ACCESS_RELATION (ClientTuple a)"
      by (auto simp: NewTupleWithContext_def)
    then show ?thesis by (simp add: assms(2) fga_access_meaning)
  qed
  with \<open>b\<close> show ?thesis by blast
qed

text \<open>The batch check is deny by default. It answers yes only when every requested audience is
  permitted to one of the caller's groups, and it never answers a plain no: a denial comes back as an
  error.\<close>

theorem BatchCanAccess_denies_by_default:
  assumes "batch_law sdk store" and "store s = permission_tuple ` P"
    and "BatchCanAccess (Client sdk) u clients groups s = (Some (Inr b), s')"
  shows "b \<and> (\<forall>a \<in> set clients. \<exists>g \<in> set groups. (g, a) \<in> P)"
  by (rule BatchCanAccess_spec [OF assms])

theorem BatchCanAccess_denies_by_default_witness:
  "\<exists>s'. BatchCanAccess (Client ref_sdk) ''svc'' [''app''] [''g1''] [permission_tuple (''g1'', ''app'')] = (Some (Inr True), s')"
proof -
  let ?s = "[permission_tuple (''g1'', ''app'')]"
  have st: "set ?s = permission_tuple ` {(''g1'', ''app'')}" by simp
  have "fga_rel (set ?s \<union> set (member_tuples ''svc'' [''g1''])) (UserTuple ''svc'') CAN_ACCESS_RELATION (ClientTuple ''app'')"
    unfolding st fga_access_meaning by simp
  then obtain s' where b: "BatchCanAccess (Client ref_sdk) ''svc'' [''app''] [''g1''] ?s = (Some (Inr True), s')"
    by (simp add: BatchCanAccess_def BatchCheck_def ref_sdk_def NewTupleWithContext_def Let_def)
  from BatchCanAccess_denies_by_default [OF ref_laws(3) st b] b show ?thesis by simp
qed

lemma RemoveAllAllowedAppsFromGroup_spec:
  assumes "write_law sdk store" and "read_law sdk store todo"
  shows "\<exists>r s'. authorizer_DeleteGroup (Client sdk) g s = Some (r, s')
       \<and> authorizer_RemoveAllAllowedAppsFromGroup (Client sdk) g s = Some (r, s')
       \<and> store s' \<subseteq> store s \<and> store s - store s' \<subseteq> {permission_tuple (g, a) | a. True}
       \<and> (r = None \<longrightarrow> store s' = store s - {permission_tuple (g, a) | a. True})"
proof -
  let ?f = "NewTuple (GroupMemberTuple g) CAN_ACCESS_RELATION (ClientTuple [])"
  have "Collect (fga_matches ?f) = {permission_tuple (g, a) | a. True}"
    by (auto simp: remove_apps_filter)
  with remove_loop_spec [OF assms, of s "GroupMemberTuple g" "ClientTuple []" "[]"] show ?thesis
    by (simp add: authorizer_DeleteGroup_def authorizer_RemoveAllAllowedAppsFromGroup_def read_lawD(2) [OF assms(2)])
qed

text \<open>C21: removing the permissions of a group terminates and is complete. The pagination loop of
  \<open>RemoveAllAllowedAppsFromGroup\<close> (and so \<open>DeleteGroup\<close>) always returns, because every round
  deletes something; when it reports success no permission of the group is left in OpenFGA and every other
  tuple is, and when it fails it has deleted permissions of that group only.\<close>

theorem RemoveAllAllowedAppsFromGroup_complete:
  assumes "write_law sdk store" and "read_law sdk store todo"
  shows "\<exists>r s'. authorizer_DeleteGroup (Client sdk) g s = Some (r, s')
       \<and> authorizer_RemoveAllAllowedAppsFromGroup (Client sdk) g s = Some (r, s')
       \<and> store s' \<subseteq> store s \<and> store s - store s' \<subseteq> {permission_tuple (g, a) | a. True}
       \<and> (r = None \<longrightarrow> store s' = store s - {permission_tuple (g, a) | a. True})"
  by (rule RemoveAllAllowedAppsFromGroup_spec [OF assms])

theorem RemoveAllAllowedAppsFromGroup_complete_witness:
  "\<exists>r s'. authorizer_DeleteGroup (Client ref_sdk) ''g1'' [permission_tuple (''g1'', ''a''), permission_tuple (''g1'', ''b''),
       permission_tuple (''g2'', ''a'')] = Some (r, s')
     \<and> (r = None \<longrightarrow> set s' = {permission_tuple (''g2'', ''a'')})"
proof -
  let ?s = "[permission_tuple (''g1'', ''a''), permission_tuple (''g1'', ''b''), permission_tuple (''g2'', ''a'')]"
  have "set ?s - {permission_tuple (''g1'', a) | a. True} = {permission_tuple (''g2'', ''a'')}"
    by (auto simp: permission_tuple_inj)
  with RemoveAllAllowedAppsFromGroup_complete [OF ref_laws(1,4), of "''g1''" ?s] show ?thesis by metis
qed

lemma RemoveAllAllowedGroupsForApp_removes:
  assumes "write_law sdk store" and "read_law sdk store todo" and "a \<noteq> []" "last a \<noteq> CHR '':''"
  shows "\<exists>r s'. authorizer_RemoveAllAllowedGroupsForApp (Client sdk) a s = Some (r, s')
       \<and> (\<forall>g b. g \<noteq> [] \<longrightarrow> permission_tuple (g, b) \<in> store s' \<longleftrightarrow> permission_tuple (g, b) \<in> store s)"
proof -
  let ?f = "NewTuple (GroupMemberTuple []) CAN_ACCESS_RELATION (ClientTuple a)"
  from remove_loop_spec [OF assms(1,2), of s "GroupMemberTuple []" "ClientTuple a" "[]"] obtain r s'
    where lp: "remove_loop (Client sdk) (GroupMemberTuple []) (ClientTuple a) [] s = Some (r, s')"
      "store s' \<subseteq> store s" "store s - store s' \<subseteq> Collect (fga_matches ?f)"
    by (auto simp: read_lawD(2) [OF assms(2)])
  have "permission_tuple (g, b) \<notin> Collect (fga_matches ?f)" if "g \<noteq> []" for g b
    using that by (simp add: remove_groups_filter [OF assms(3,4)] permission_tuple_inj)
  with lp show ?thesis unfolding authorizer_RemoveAllAllowedGroupsForApp_def by blast
qed

text \<open>Removing the permissions of an application removes nothing. \<open>RemoveAllAllowedGroupsForApp\<close>
  asks OpenFGA for the tuples of the user \<open>group:#member\<close>, which is the name of the group with the empty
  identifier only; whatever it reports, the permission of every other group stays stored, and with it the
  access it gives.\<close>

theorem RemoveAllAllowedGroupsForApp_removes_no_group:
  assumes "write_law sdk store" and "read_law sdk store todo" and "a \<noteq> []" "last a \<noteq> CHR '':''"
  shows "\<exists>r s'. authorizer_RemoveAllAllowedGroupsForApp (Client sdk) a s = Some (r, s')
       \<and> (\<forall>g b. g \<noteq> [] \<longrightarrow> permission_tuple (g, b) \<in> store s' \<longleftrightarrow> permission_tuple (g, b) \<in> store s)"
  by (rule RemoveAllAllowedGroupsForApp_removes [OF assms])

theorem RemoveAllAllowedGroupsForApp_removes_no_group_witness:
  "\<exists>r s'. authorizer_RemoveAllAllowedGroupsForApp (Client ref_sdk) ''app'' [permission_tuple (''g1'', ''app'')] = Some (r, s')
     \<and> permission_tuple (''g1'', ''app'') \<in> set s'"
  using RemoveAllAllowedGroupsForApp_removes_no_group [OF ref_laws(1,4), of "''app''" "[permission_tuple (''g1'', ''app'')]"]
  by fastforce

text \<open>The model check is inverted. \<open>ValidateModel\<close> refuses the server's model exactly when it is
  the expected one or has another schema version, and accepts any model of the right version whose type
  definitions differ.\<close>

theorem ValidateModel_inverted:
  assumes "sdk_ReadAuthorizationModel sdk s = (Inr actual, s')"
  shows "ValidateModel (Client sdk) (Some expected) s =
     (Some (if am_SchemaVersion actual = am_SchemaVersion expected
               \<and> am_TypeDefinitions actual \<noteq> am_TypeDefinitions expected
            then None else Some (Sentinel authorization_ErrInvalidAuthModel)), s')"
  using assms by (simp add: ValidateModel_def CompareModel_def ReadModel_def)

theorem ValidateModel_inverted_witness:
  "ValidateModel (Client ref_sdk) (Some \<lparr>am_SchemaVersion = ''1.1'', am_TypeDefinitions = JNull, am_Conditions = JNull\<rparr>) [] =
     (Some (Some (Sentinel authorization_ErrInvalidAuthModel)), [])"
  using ValidateModel_inverted [of ref_sdk "[]" "\<lparr>am_SchemaVersion = ''1.1'', am_TypeDefinitions = JNull, am_Conditions = JNull\<rparr>" "[]"
      "\<lparr>am_SchemaVersion = ''1.1'', am_TypeDefinitions = JNull, am_Conditions = JNull\<rparr>"]
  by (simp add: ref_sdk_def)


end
