(* ===== verification/GroupsApi.thy ===== *)
theory GroupsApi
  imports StorageLaws Authorizer
begin

text \<open>
  The groups API of \<^verbatim>\<open>pkg/groups\<close>: the service (error translation on top of the storage layer and
  the authorizer), the gRPC handlers with their validation, their error mapping and their replies, and the
  streaming mapping service. The HTTP gateway in front (generated code and a library) is the function
  \<open>gateway\<close> over a parameter that turns a gRPC code into an HTTP status.
\<close>

section \<open>The service\<close>

definition svc_ListGroups :: "env \<Rightarrow> ctx \<Rightarrow> world \<Rightarrow> Group list res \<times> world" where
  "svc_ListGroups env c w = ListGroups env c w"

definition svc_CreateGroup :: "env \<Rightarrow> ctx \<Rightarrow> Group \<Rightarrow> world \<Rightarrow> Group res \<times> world" where
  "svc_CreateGroup env c grp w =
     (if g_ID grp \<noteq> [] then (Inl (Sentinel groups_ErrInvalidGroupID), w)
      else case CreateGroup env c grp w of
        (Inl err, w1) \<Rightarrow> (Inl (if errors_Is err storage_ErrDuplicateKey
                               then Sentinel groups_ErrDuplicateGroup else err), w1)
      | (Inr createdGroup, w1) \<Rightarrow> (Inr createdGroup, w1))"

definition svc_GetGroup :: "env \<Rightarrow> ctx \<Rightarrow> string \<Rightarrow> world \<Rightarrow> Group res \<times> world" where
  "svc_GetGroup env c gid w =
     (case GetGroup env c gid w of
        (Inl err, w1) \<Rightarrow> (Inl (if errors_Is err storage_ErrNotFound
                               then Sentinel groups_ErrGroupNotFound else err), w1)
      | (Inr grp, w1) \<Rightarrow> (Inr grp, w1))"

definition svc_UpdateGroup :: "env \<Rightarrow> ctx \<Rightarrow> string \<Rightarrow> Group \<Rightarrow> world \<Rightarrow> Group res \<times> world" where
  "svc_UpdateGroup env c gid grp w =
     (case UpdateGroup env c gid grp w of
        (Inl err, w1) \<Rightarrow> (Inl (if errors_Is err storage_ErrNotFound
                               then Sentinel groups_ErrGroupNotFound else err), w1)
      | (Inr updated, w1) \<Rightarrow> (Inr updated, w1))"

text \<open>Deleting a group edits both stores; \<open>None\<close> is a call that never returns.\<close>

definition svc_DeleteGroup ::
  "env \<Rightarrow> 's authz_client \<Rightarrow> ctx \<Rightarrow> string \<Rightarrow> world \<times> 's \<Rightarrow> (unit res \<times> (world \<times> 's)) option" where
  "svc_DeleteGroup env cl c gid ws =
     (case DeleteGroup env c gid (fst ws) of
        (Inl err, w1) \<Rightarrow> Some (Inl (Errorf_v ''failed to delete group from db'' err), (w1, snd ws))
      | (Inr _, w1) \<Rightarrow>
          (case authorizer_DeleteGroup cl gid (snd ws) of
             None \<Rightarrow> None
           | Some (Some err, s1) \<Rightarrow> Some (Inl (Errorf_v ''failed to delete group from authz'' err), (w1, s1))
           | Some (None, s1) \<Rightarrow> Some (Inr (), (w1, s1))))"

definition svc_AddUsersToGroup :: "env \<Rightarrow> ctx \<Rightarrow> string \<Rightarrow> string list \<Rightarrow> world \<Rightarrow> unit res \<times> world" where
  "svc_AddUsersToGroup env c groupID userIDs w =
     (if length userIDs = 0 then (Inr (), w)
      else case AddUsersToGroup env c groupID userIDs w of
        (Inl err, w1) \<Rightarrow> (Inl (if errors_Is err storage_ErrForeignKeyViolation
                               then Sentinel groups_ErrInvalidGroupID
                               else Errorf_v ''failed to add users to group'' err), w1)
      | (Inr _, w1) \<Rightarrow> (Inr (), w1))"

definition svc_ListUsersInGroup :: "env \<Rightarrow> ctx \<Rightarrow> string \<Rightarrow> world \<Rightarrow> string list res \<times> world" where
  "svc_ListUsersInGroup env c groupID w =
     (case ListUsersInGroup env c groupID w of
        (Inl err, w1) \<Rightarrow> (Inl (Errorf_w ''failed to list users in group'' err), w1)
      | (Inr us, w1) \<Rightarrow> (Inr us, w1))"

definition svc_RemoveUsersFromGroup :: "env \<Rightarrow> ctx \<Rightarrow> string \<Rightarrow> string list \<Rightarrow> world \<Rightarrow> unit res \<times> world" where
  "svc_RemoveUsersFromGroup env c groupID users w =
     (case RemoveUsersFromGroup env c groupID users w of
        (Inl err, w1) \<Rightarrow> (Inl (Errorf_w ''failed to remove users from group'' err), w1)
      | (Inr _, w1) \<Rightarrow> (Inr (), w1))"

definition svc_GetGroupsForUser :: "env \<Rightarrow> ctx \<Rightarrow> string \<Rightarrow> world \<Rightarrow> Group list res \<times> world" where
  "svc_GetGroupsForUser env c userID w =
     (case GetGroupsForUser env c userID w of
        (Inl err, w1) \<Rightarrow> (Inl (Errorf_w ''failed to get groups for user'' err), w1)
      | (Inr gs, w1) \<Rightarrow> (Inr gs, w1))"

definition svc_UpdateGroupsForUser :: "env \<Rightarrow> ctx \<Rightarrow> string \<Rightarrow> string list \<Rightarrow> world \<Rightarrow> unit res \<times> world" where
  "svc_UpdateGroupsForUser env c userID groupIDs w =
     (case UpdateGroupsForUser env c userID groupIDs w of
        (Inl err, w1) \<Rightarrow> (Inl (if errors_Is err storage_ErrForeignKeyViolation
                               then Sentinel groups_ErrInvalidGroupID else err), w1)
      | (Inr _, w1) \<Rightarrow> (Inr (), w1))"

definition svc_StreamGroupsForUser ::
  "Storage \<Rightarrow> env \<Rightarrow> ctx \<Rightarrow> string \<Rightarrow> string \<Rightarrow> (Group \<Rightarrow> 'q \<Rightarrow> error option \<times> 'q) \<Rightarrow> 'q \<Rightarrow> world \<Rightarrow>
   (error option \<times> 'q) \<times> world" where
  "svc_StreamGroupsForUser s env c tenantID userID fn q w =
     (case StreamGroupsForUser s env c tenantID userID fn q w of
        ((Some err, q1), w1) \<Rightarrow> ((Some (Errorf_w ''failed to stream groups for user'' err), q1), w1)
      | ((None, q1), w1) \<Rightarrow> ((None, q1), w1))"

definition svc_StreamUsersInGroup ::
  "Storage \<Rightarrow> env \<Rightarrow> ctx \<Rightarrow> string \<Rightarrow> string \<Rightarrow> (string \<Rightarrow> 'q \<Rightarrow> error option \<times> 'q) \<Rightarrow> 'q \<Rightarrow> world \<Rightarrow>
   (error option \<times> 'q) \<times> world" where
  "svc_StreamUsersInGroup s env c tenantID groupID fn q w =
     (case StreamUsersInGroup s env c tenantID groupID fn q w of
        ((Some err, q1), w1) \<Rightarrow> ((Some (Errorf_w ''failed to stream users in group'' err), q1), w1)
      | ((None, q1), w1) \<Rightarrow> ((None, q1), w1))"

section \<open>Messages\<close>

datatype grpc_code = InvalidArgument | NotFound | AlreadyExists | Unauthenticated | Internal

record grpc_status =
  st_code :: grpc_code
  st_message :: string

type_synonym 'a rpc = "grpc_status + 'a"

definition status_Errorf :: "grpc_code \<Rightarrow> string \<Rightarrow> grpc_status" where
  "status_Errorf code msg = \<lparr>st_code = code, st_message = msg\<rparr>"

record pb_Group =
  pb_Id :: string
  pb_Name :: string
  pb_TenantId :: string
  pb_Description :: string
  pb_Type :: string
  pb_CreatedAt :: nat
  pb_UpdatedAt :: nat

definition group_to_pb :: "Group \<Rightarrow> pb_Group" where
  "group_to_pb g = \<lparr>pb_Id = g_ID g, pb_Name = g_Name g, pb_TenantId = g_TenantId g,
     pb_Description = g_Description g, pb_Type = GroupType_String (g_Type g),
     pb_CreatedAt = g_CreatedAt g, pb_UpdatedAt = g_UpdatedAt g\<rparr>"

text \<open>The group of a request: only these three fields are read.\<close>

record GroupInput =
  in_Name :: string
  in_Description :: string
  in_Type :: string

record 'd reply =
  rp_Data :: 'd
  rp_Status :: nat
  rp_Message :: string

definition http_StatusOK :: nat where "http_StatusOK = 200"

definition mk_reply :: "'d \<Rightarrow> string \<Rightarrow> 'd reply" where
  "mk_reply d msg = \<lparr>rp_Data = d, rp_Status = http_StatusOK, rp_Message = msg\<rparr>"

definition groups_mapErrorToStatus :: "error \<Rightarrow> string \<Rightarrow> grpc_status" where
  "groups_mapErrorToStatus err action =
     (if errors_Is err groups_ErrGroupNotFound then status_Errorf NotFound ''group not found''
      else if errors_Is err groups_ErrDuplicateGroup then status_Errorf AlreadyExists ''group already exists''
      else if errors_Is err groups_ErrUserAlreadyInGroup then status_Errorf AlreadyExists ''user already in group''
      else if errors_Is err groups_ErrInvalidGroupName then status_Errorf InvalidArgument ''invalid group name''
      else if errors_Is err groups_ErrInvalidGroupType then status_Errorf InvalidArgument ''invalid group type''
      else if errors_Is err groups_ErrInvalidTenant then status_Errorf InvalidArgument ''invalid tenant''
      else if errors_Is err groups_ErrInvalidGroupID then status_Errorf InvalidArgument ''invalid group id''
      else if errors_Is err groups_ErrInternalServerError then status_Errorf Internal ''internal server error''
      else status_Errorf Internal (action @ '' failed''))"

text \<open>The common tail of the handlers: a service error is mapped, a result becomes a reply.\<close>

definition answer :: "string \<Rightarrow> ('a \<Rightarrow> 'd reply) \<Rightarrow> 'a res \<times> 'w \<Rightarrow> 'd reply rpc \<times> 'w" where
  "answer action ok r =
     (case r of (Inl err, w1) \<Rightarrow> (Inl (groups_mapErrorToStatus err action), w1) | (Inr x, w1) \<Rightarrow> (Inr (ok x), w1))"

section \<open>Handlers\<close>

definition grpc_CreateGroup ::
  "env \<Rightarrow> GroupInput option \<Rightarrow> ctx \<Rightarrow> world \<Rightarrow> pb_Group list reply rpc \<times> world" where
  "grpc_CreateGroup env req c w =
     (case req of
        None \<Rightarrow> (Inl (status_Errorf InvalidArgument ''group cannot be nil''), w)
      | Some g \<Rightarrow>
          (case ParseGroupType (in_Type g) of
             Inl err \<Rightarrow> (Inl (groups_mapErrorToStatus err ''create group''), w)
           | Inr gType \<Rightarrow>
               answer ''create group'' (\<lambda>grp. mk_reply [group_to_pb grp] ''Group created'')
                 (svc_CreateGroup env c (zero_Group\<lparr>g_Name := in_Name g, g_TenantId := DefaultTenantID,
                    g_Description := in_Description g, g_Type := gType\<rparr>) w)))"

definition grpc_GetGroup :: "env \<Rightarrow> string \<Rightarrow> ctx \<Rightarrow> world \<Rightarrow> pb_Group list reply rpc \<times> world" where
  "grpc_GetGroup env gid c w =
     answer ''get group'' (\<lambda>grp. mk_reply [group_to_pb grp] ''Group details'') (svc_GetGroup env c gid w)"

definition grpc_ListGroups :: "env \<Rightarrow> ctx \<Rightarrow> world \<Rightarrow> pb_Group list reply rpc \<times> world" where
  "grpc_ListGroups env c w =
     answer ''list groups'' (\<lambda>gs. mk_reply (map group_to_pb gs) ''Group list'') (svc_ListGroups env c w)"

definition grpc_RemoveGroup ::
  "env \<Rightarrow> 's authz_client \<Rightarrow> string \<Rightarrow> ctx \<Rightarrow> world \<times> 's \<Rightarrow> (unit reply rpc \<times> (world \<times> 's)) option" where
  "grpc_RemoveGroup env cl gid c ws =
     map_option (answer ''delete group'' (\<lambda>u. mk_reply u ''Group deleted'')) (svc_DeleteGroup env cl c gid ws)"

definition grpc_UpdateGroup ::
  "env \<Rightarrow> string \<Rightarrow> GroupInput option \<Rightarrow> ctx \<Rightarrow> world \<Rightarrow> pb_Group list reply rpc \<times> world" where
  "grpc_UpdateGroup env gid req c w =
     (case req of
        None \<Rightarrow> (Inl (status_Errorf InvalidArgument ''group cannot be nil''), w)
      | Some g \<Rightarrow>
          if in_Name g \<noteq> [] then (Inl (status_Errorf InvalidArgument ''group name cannot be updated''), w)
          else
            (case ParseGroupType (in_Type g) of
               Inl err \<Rightarrow> (Inl (groups_mapErrorToStatus err ''update group''), w)
             | Inr gType \<Rightarrow>
                 answer ''update group'' (\<lambda>gg. mk_reply [group_to_pb gg] ''Group updated'')
                   (svc_UpdateGroup env c gid (zero_Group\<lparr>g_Description := in_Description g,
                      g_Type := gType, g_TenantId := DefaultTenantID\<rparr>) w)))"

definition grpc_ListUsersInGroup :: "env \<Rightarrow> string \<Rightarrow> ctx \<Rightarrow> world \<Rightarrow> string list reply rpc \<times> world" where
  "grpc_ListUsersInGroup env gid c w =
     answer ''list users in group'' (\<lambda>us. mk_reply us ''Users in group'') (svc_ListUsersInGroup env c gid w)"

definition grpc_AddUsersToGroup :: "env \<Rightarrow> string \<Rightarrow> string list \<Rightarrow> ctx \<Rightarrow> world \<Rightarrow> unit reply rpc \<times> world" where
  "grpc_AddUsersToGroup env gid userIds c w =
     answer ''add user to group'' (\<lambda>u. mk_reply u ''Users added to group'') (svc_AddUsersToGroup env c gid userIds w)"

definition grpc_RemoveUserFromGroup :: "env \<Rightarrow> string \<Rightarrow> string \<Rightarrow> ctx \<Rightarrow> world \<Rightarrow> unit reply rpc \<times> world" where
  "grpc_RemoveUserFromGroup env gid userId c w =
     answer ''remove user from group'' (\<lambda>u. mk_reply u ''User removed from group'')
       (svc_RemoveUsersFromGroup env c gid [userId] w)"

definition grpc_ListUserGroups :: "env \<Rightarrow> string \<Rightarrow> ctx \<Rightarrow> world \<Rightarrow> pb_Group list reply rpc \<times> world" where
  "grpc_ListUserGroups env userId c w =
     answer ''list user groups'' (\<lambda>gs. mk_reply (map group_to_pb gs) ''User group list'')
       (svc_GetGroupsForUser env c userId w)"

definition grpc_AddUserToGroups :: "env \<Rightarrow> string \<Rightarrow> string list \<Rightarrow> ctx \<Rightarrow> world \<Rightarrow> unit reply rpc \<times> world" where
  "grpc_AddUserToGroups env userId groupIds c w =
     answer ''add user to groups'' (\<lambda>u. mk_reply u ''User groups added'')
       (svc_UpdateGroupsForUser env c userId groupIds w)"

section \<open>The mapping service\<close>

definition mapMappingErrorToStatus :: "error \<Rightarrow> string \<Rightarrow> grpc_status" where
  "mapMappingErrorToStatus err action =
     (if errors_Is err groups_ErrInvalidTenant then status_Errorf InvalidArgument ''invalid tenant''
      else if errors_Is err groups_ErrInvalidGroupID then status_Errorf InvalidArgument ''invalid group id''
      else if errors_Is err groups_ErrInvalidUserID then status_Errorf InvalidArgument ''invalid user id''
      else if errors_Is err groups_ErrStreamInterrupted
        then status_Errorf Internal (''stream interrupted: '' @ Error err)
      else if errors_Is err groups_ErrUnauthorizedStream then status_Errorf Unauthenticated ''unauthorized''
      else if errors_Is err storage_ErrNotFound then status_Errorf NotFound ''not found''
      else status_Errorf Internal (action @ '' failed''))"

text \<open>A stream remembers what was sent; \<open>send\<close> decides, from what was sent before, whether the next
  message goes through.\<close>

type_synonym 'm sender = "'m list \<Rightarrow> error option"

definition stream_send :: "'m sender \<Rightarrow> 'm \<Rightarrow> 'm list \<Rightarrow> error option \<times> 'm list" where
  "stream_send send m sent =
     (case send sent of
        Some err \<Rightarrow> (Some (Wrapped (Error (Sentinel groups_ErrStreamInterrupted) @ '': '' @ Error err)
                               (Sentinel groups_ErrStreamInterrupted)), sent)
      | None \<Rightarrow> (None, sent @ [m]))"

definition mapping_GetGroupsForUser ::
  "Storage \<Rightarrow> env \<Rightarrow> string \<Rightarrow> string \<Rightarrow> pb_Group sender \<Rightarrow> ctx \<Rightarrow> world \<Rightarrow> (grpc_status option \<times> pb_Group list) \<times> world" where
  "mapping_GetGroupsForUser s env tenantId userId send c w =
     (if userId = []
      then ((Some (mapMappingErrorToStatus (Sentinel groups_ErrInvalidUserID) ''stream groups for user''), []), w)
      else case svc_StreamGroupsForUser s env c tenantId userId
                  (\<lambda>g sent. stream_send send (group_to_pb g) sent) [] w of
        ((Some err, sent), w1) \<Rightarrow> ((Some (mapMappingErrorToStatus err ''stream groups for user''), sent), w1)
      | ((None, sent), w1) \<Rightarrow> ((None, sent), w1))"

definition mapping_GetUsersInGroup ::
  "Storage \<Rightarrow> env \<Rightarrow> string \<Rightarrow> string \<Rightarrow> string sender \<Rightarrow> ctx \<Rightarrow> world \<Rightarrow> (grpc_status option \<times> string list) \<times> world" where
  "mapping_GetUsersInGroup s env tenantId groupId send c w =
     (if groupId = []
      then ((Some (mapMappingErrorToStatus (Sentinel groups_ErrInvalidGroupID) ''stream users in group''), []), w)
      else case svc_StreamUsersInGroup s env c tenantId groupId (stream_send send) [] w of
        ((Some err, sent), w1) \<Rightarrow> ((Some (mapMappingErrorToStatus err ''stream users in group''), sent), w1)
      | ((None, sent), w1) \<Rightarrow> ((None, sent), w1))"

section \<open>Over HTTP\<close>

text \<open>The gateway runs a handler in the request's context and answers 200 or the status of the error.\<close>

definition gateway :: "(grpc_code \<Rightarrow> nat) \<Rightarrow> (ctx \<Rightarrow> world \<Rightarrow> 'a rpc \<times> world) \<Rightarrow> 'a rpc http_handler" where
  "gateway httpStatus op c w =
     (case op c w of
        (Inl st, w1) \<Rightarrow> ((httpStatus (st_code st), Inl st), w1)
      | (Inr x, w1) \<Rightarrow> ((http_StatusOK, Inr x), w1))"

definition error_statuses :: "(grpc_code \<Rightarrow> nat) \<Rightarrow> bool" where
  "error_statuses httpStatus \<longleftrightarrow> (\<forall>code. 400 \<le> httpStatus code)"

text \<open>\<open>ForwardErrorResponseRewriter\<close>: the body of an error carries the HTTP status of its code.\<close>

datatype 'm response_body = RpcStatus grpc_code string | Message 'm | ErrorResponse nat string

fun ForwardErrorResponseRewriter :: "(grpc_code \<Rightarrow> nat) \<Rightarrow> 'm response_body \<Rightarrow> 'm response_body" where
  "ForwardErrorResponseRewriter httpStatus (RpcStatus code msg) = ErrorResponse (httpStatus code) msg"
| "ForwardErrorResponseRewriter httpStatus m = m"

section \<open>The handlers keep the contract\<close>

lemma snd_answer [simp]: "snd (answer action ok r) = snd r"
  by (auto simp: answer_def split: prod.splits sum.splits)

lemma answer_simps [simp]:
  "answer action ok (Inl err, w) = (Inl (groups_mapErrorToStatus err action), w)"
  "answer action ok (Inr x, w) = (Inr (ok x), w)"
  by (simp_all add: answer_def)

lemma snd_case_res: "snd (case q of (Inl e, w1) \<Rightarrow> (f e, w1) | (Inr x, w1) \<Rightarrow> (g x, w1)) = snd q"
  by (auto split: prod.splits sum.splits)

lemma keeps_svc [keeps_intros]:
  "keeps env c (svc_ListGroups env c)" "keeps env c (svc_CreateGroup env c grp)"
  "keeps env c (svc_GetGroup env c gid)" "keeps env c (svc_UpdateGroup env c gid grp)"
  "keeps env c (svc_AddUsersToGroup env c gid us)" "keeps env c (svc_ListUsersInGroup env c gid)"
  "keeps env c (svc_RemoveUsersFromGroup env c gid us)" "keeps env c (svc_GetGroupsForUser env c u)"
  "keeps env c (svc_UpdateGroupsForUser env c u gids)"
proof -
  show "keeps env c (svc_ListGroups env c)"
    by (rule keeps_snd [OF keeps_ListGroups]) (simp add: svc_ListGroups_def)
  show "keeps env c (svc_CreateGroup env c grp)"
    by (cases "g_ID grp = []", rule keeps_snd [OF keeps_CreateGroup], simp add: svc_CreateGroup_def snd_case_res,
        simp add: svc_CreateGroup_def keeps_def)
  show "keeps env c (svc_GetGroup env c gid)"
    by (rule keeps_snd [OF keeps_GetGroup]) (simp add: svc_GetGroup_def snd_case_res)
  show "keeps env c (svc_UpdateGroup env c gid grp)"
    by (rule keeps_snd [OF keeps_UpdateGroup]) (simp add: svc_UpdateGroup_def snd_case_res)
  show "keeps env c (svc_AddUsersToGroup env c gid us)"
    by (cases "us = []", simp add: svc_AddUsersToGroup_def keeps_def,
        rule keeps_snd [OF keeps_AddUsersToGroup], simp add: svc_AddUsersToGroup_def snd_case_res)
  show "keeps env c (svc_ListUsersInGroup env c gid)"
    by (rule keeps_snd [OF keeps_ListUsersInGroup]) (simp add: svc_ListUsersInGroup_def snd_case_res)
  show "keeps env c (svc_RemoveUsersFromGroup env c gid us)"
    by (rule keeps_snd [OF keeps_RemoveUsersFromGroup]) (simp add: svc_RemoveUsersFromGroup_def snd_case_res)
  show "keeps env c (svc_GetGroupsForUser env c u)"
    by (rule keeps_snd [OF keeps_GetGroupsForUser]) (simp add: svc_GetGroupsForUser_def snd_case_res)
  show "keeps env c (svc_UpdateGroupsForUser env c u gids)"
    by (rule keeps_snd [OF keeps_UpdateGroupsForUser]) (simp add: svc_UpdateGroupsForUser_def snd_case_res)
qed

lemma keeps_grpc [keeps_intros]:
  "keeps env c (grpc_GetGroup env gid c)" "keeps env c (grpc_ListGroups env c)"
  "keeps env c (grpc_ListUsersInGroup env gid c)" "keeps env c (grpc_AddUsersToGroup env gid us c)"
  "keeps env c (grpc_RemoveUserFromGroup env gid u c)" "keeps env c (grpc_ListUserGroups env u c)"
  "keeps env c (grpc_AddUserToGroups env u gids c)"
  by (rule keeps_snd, rule keeps_svc,
      simp add: grpc_GetGroup_def grpc_ListGroups_def grpc_ListUsersInGroup_def grpc_AddUsersToGroup_def
        grpc_RemoveUserFromGroup_def grpc_ListUserGroups_def grpc_AddUserToGroups_def)+

lemma keeps_grpc_CreateGroup [keeps_intros]: "keeps env c (grpc_CreateGroup env req c)"
proof (cases req)
  case (Some g)
  show ?thesis
  proof (cases "ParseGroupType (in_Type g)")
    case (Inr t)
    with Some show ?thesis
      by (intro keeps_snd [OF keeps_svc(2)]) (simp add: grpc_CreateGroup_def)
  qed (use Some in \<open>simp add: grpc_CreateGroup_def keeps_def\<close>)
qed (simp add: grpc_CreateGroup_def keeps_def)

lemma keeps_grpc_UpdateGroup [keeps_intros]: "keeps env c (grpc_UpdateGroup env gid req c)"
proof (cases req)
  case (Some g)
  show ?thesis
  proof (cases "in_Name g = [] \<and> is_ok (ParseGroupType (in_Type g))")
    case True
    then obtain t where "ParseGroupType (in_Type g) = Inr t" by (auto simp: is_ok_iff)
    with Some True show ?thesis
      by (intro keeps_snd [OF keeps_svc(4)]) (simp add: grpc_UpdateGroup_def)
  qed (use Some in \<open>auto simp: grpc_UpdateGroup_def keeps_def split: sum.splits\<close>)
qed (simp add: grpc_UpdateGroup_def keeps_def)

lemma keeps_gateway: "keeps env c (op c) \<Longrightarrow> keeps env c (gateway hs op c)"
  by (erule keeps_snd) (auto simp: gateway_def split: prod.splits sum.splits)

text \<open>Every handler that writes, behind the gateway, meets the middleware's interface.\<close>

interpretation create: framed_handler env "gateway hs (grpc_CreateGroup env req)" for env hs req
  by unfold_locales (rule keeps_gateway, rule keeps_intros)

interpretation update: framed_handler env "gateway hs (grpc_UpdateGroup env gid req)" for env hs gid req
  by unfold_locales (rule keeps_gateway, rule keeps_intros)

interpretation addUsers: framed_handler env "gateway hs (grpc_AddUsersToGroup env gid us)" for env hs gid us
  by unfold_locales (rule keeps_gateway, rule keeps_grpc)

interpretation removeUser: framed_handler env "gateway hs (grpc_RemoveUserFromGroup env gid u)" for env hs gid u
  by unfold_locales (rule keeps_gateway, rule keeps_grpc)

interpretation setGroups: framed_handler env "gateway hs (grpc_AddUserToGroups env u gids)" for env hs u gids
  by unfold_locales (rule keeps_gateway, rule keeps_grpc)

section \<open>Replacing a user's groups over HTTP\<close>

lemma target_tx_start:
  "writable c \<Longrightarrow> target (c\<lparr>ctx_lazy := True\<rparr>) (w\<lparr>w_lazyTx := None\<rparr>) = w_primary w"
  by (simp add: target_def target_rest_def writable_def)

lemma gateway_200:
  assumes "error_statuses hs" and "gateway hs op c w = (resp, w1)"
  shows "fst resp < 400 \<longleftrightarrow> (\<exists>x. op c w = (Inr x, w1))"
proof -
  obtain r w2 where r: "op c w = (r, w2)" by fastforce
  from assms(1) have "400 \<le> hs code" for code by (simp add: error_statuses_def)
  then have "\<not> hs code < 400" for code by (simp add: not_less)
  with assms(2) r show ?thesis by (cases r) (auto simp: gateway_def http_StatusOK_def)
qed

lemma grpc_AddUserToGroups_Inr:
  assumes "grpc_AddUserToGroups env u gids c w = (Inr x, w1)"
  shows "UpdateGroupsForUser env c u gids w = (Inr (), w1)"
  using assms
  by (auto simp: grpc_AddUserToGroups_def answer_def svc_UpdateGroupsForUser_def split: prod.splits sum.splits)


definition default_http_status :: "grpc_code \<Rightarrow> nat" where
  "default_http_status code = (case code of InvalidArgument \<Rightarrow> 400 | NotFound \<Rightarrow> 404 | AlreadyExists \<Rightarrow> 409
     | Unauthenticated \<Rightarrow> 401 | Internal \<Rightarrow> 500)"

lemma default_http_status_errors [simp]: "error_statuses default_http_status"
  unfolding error_statuses_def default_http_status_def by (auto split: grpc_code.splits)


section \<open>Properties of the handlers\<close>

text \<open>A group type nobody knows is reported as an internal error. The handlers return the parser's
  \<open>types.ErrInvalidGroupType\<close> through \<open>mapErrorToStatus\<close>, which looks for the groups package's own
  \<open>ErrInvalidGroupType\<close>, a different value with the same text; the caller gets \<open>Internal\<close> (HTTP
  500) instead of \<open>InvalidArgument\<close>, and nothing is stored.\<close>

theorem unknown_group_type_is_internal:
  assumes "in_Type g \<notin> {[], ''local'', ''external''}" and "in_Name h = []" and "in_Type h = in_Type g"
  shows "grpc_CreateGroup env (Some g) c w = (Inl \<lparr>st_code = Internal, st_message = ''create group failed''\<rparr>, w)
       \<and> grpc_UpdateGroup env gid (Some h) c w = (Inl \<lparr>st_code = Internal, st_message = ''update group failed''\<rparr>, w)"
  using assms
  by (simp add: grpc_CreateGroup_def grpc_UpdateGroup_def ParseGroupType_def groups_mapErrorToStatus_def status_Errorf_def)

theorem unknown_group_type_is_internal_witness:
  "fst (grpc_CreateGroup quiet_env (Some \<lparr>in_Name = ''dev'', in_Description = [], in_Type = ''remote''\<rparr>) background
      (world_of demo_tables)) = Inl \<lparr>st_code = Internal, st_message = ''create group failed''\<rparr>"
  using unknown_group_type_is_internal [of "\<lparr>in_Name = ''dev'', in_Description = [], in_Type = ''remote''\<rparr>"
      "\<lparr>in_Name = [], in_Description = [], in_Type = ''remote''\<rparr>" quiet_env background "world_of demo_tables"]
  by simp

lemma grpc_UpdateGroup_Inr:
  assumes "grpc_UpdateGroup env gid req c w = (Inr rp, w')"
  shows "\<exists>g t gg. req = Some g \<and> in_Name g = [] \<and> ParseGroupType (in_Type g) = Inr t
    \<and> UpdateGroup env c gid (zero_Group\<lparr>g_Description := in_Description g, g_Type := t, g_TenantId := DefaultTenantID\<rparr>) w
        = (Inr gg, w')"
  using assms
  by (auto simp: grpc_UpdateGroup_def svc_UpdateGroup_def answer_def split: option.splits if_splits sum.splits prod.splits)

text \<open>C38: updating a group erases its name. The handler refuses a request that carries a name, and the
  storage layer writes the name it is given, so every successful update leaves the group nameless.\<close>

theorem UpdateGroup_erases_the_name:
  assumes "writable c" and "grpc_UpdateGroup env gid req c w = (Inr rp, w')"
  shows "group_exists gid (target c w') \<and> (\<forall>r \<in> set (t_groups (target c w')). gr_id r = gid \<longrightarrow> gr_name r = [])"
proof -
  from grpc_UpdateGroup_Inr [OF assms(2)] obtain g :: GroupInput and t gg where
    up: "UpdateGroup env c gid (zero_Group\<lparr>g_Description := in_Description g, g_Type := t, g_TenantId := DefaultTenantID\<rparr>) w
        = (Inr gg, w')" by blast
  let ?grp = "zero_Group\<lparr>g_Description := in_Description g, g_Type := t, g_TenantId := DefaultTenantID\<rparr>"
  have nm: "g_Name ?grp = []" by (simp add: zero_Group_def)
  from UpdateGroup_effect [OF assms(1) up] obtain now where
    "t_groups (target c w') = map (\<lambda>r. if gr_id r = gid then
       set_group_row (g_Name ?grp) (g_Description ?grp) (g_Type ?grp) now r else r) (t_groups (target c w))"
    and ex: "group_exists gid (target c w)" by blast
  then obtain d ty where
    rows: "t_groups (target c w') = map (\<lambda>r. if gr_id r = gid then set_group_row [] d ty now r else r) (t_groups (target c w))"
    unfolding nm by blast
  from ex obtain r where r: "r \<in> set (t_groups (target c w))" "gr_id r = gid" by (auto simp: group_exists_def)
  have "set_group_row [] d ty now r \<in> set (t_groups (target c w'))"
    unfolding rows set_map using r by (intro image_eqI [of _ _ r]) simp_all
  moreover have "gr_id (set_group_row [] d ty now r) = gid" using r by (simp add: set_group_row_def)
  ultimately have "group_exists gid (target c w')" unfolding group_exists_def by blast
  moreover have "\<forall>r \<in> set (t_groups (target c w')). gr_id r = gid \<longrightarrow> gr_name r = []"
  proof (intro ballI impI)
    fix r assume "r \<in> set (t_groups (target c w'))" and id: "gr_id r = gid"
    then obtain q where q: "r = (if gr_id q = gid then set_group_row [] d ty now q else q)"
      unfolding rows set_map by (elim imageE)
    with id show "gr_name r = []" by (cases "gr_id q = gid") (simp_all add: set_group_row_def)
  qed
  ultimately show ?thesis by blast
qed

theorem UpdateGroup_erases_the_name_witness:
  "\<exists>rp w'. grpc_UpdateGroup quiet_env ''g1'' (Some \<lparr>in_Name = [], in_Description = ''new'', in_Type = []\<rparr>) background
       (world_of demo_tables) = (Inr rp, w')
     \<and> (\<forall>r \<in> set (t_groups (w_primary w')). gr_id r = ''g1'' \<longrightarrow> gr_name r = [])"
proof -
  let ?req = "Some \<lparr>in_Name = [], in_Description = ''new'', in_Type = []\<rparr>"
  obtain r w' where r: "grpc_UpdateGroup quiet_env ''g1'' ?req background (world_of demo_tables) = (r, w')" by fastforce
  have "\<exists>rp. r = Inr rp"
    using r by (auto simp: grpc_UpdateGroup_def ParseGroupType_def svc_UpdateGroup_def UpdateGroup_def Let_def
        db_exec_def db_stmt_def Statement_def route_rest_def run_on_def sql_update_groups_def demo_tables_def
        set_group_row_def group_name_key_def zero_Group_def rows_affected_def answer_def)
  then obtain rp where rp: "r = Inr rp" by blast
  from UpdateGroup_erases_the_name [OF writable_simps(1) r [unfolded rp]] r rp show ?thesis by auto
qed

text \<open>The second group of a tenant cannot be updated. Once one group has lost its name, the unique
  index refuses the empty name for any other group of the tenant, and the request fails with
  \<open>Internal\<close>.\<close>

theorem second_update_fails:
  assumes c: "writable c" "no_faults env" "live c w" and g: "in_Name g = []" "is_ok (ParseGroupType (in_Type g))"
    and a: "a \<in> set (t_groups (target c w))" "gr_name a = []"
    and b: "b \<in> set (t_groups (target c w))" "gr_id b = gid"
    and diff: "gr_id a \<noteq> gid" "gr_tenant_id a = gr_tenant_id b"
  shows "\<exists>w'. grpc_UpdateGroup env gid (Some g) c w = (Inl \<lparr>st_code = Internal, st_message = ''update group failed''\<rparr>, w')
           \<and> target c w' = target c w"
proof -
  from g(2) obtain t where t: "ParseGroupType (in_Type g) = Inr t" by (auto simp: is_ok_iff)
  let ?grp = "zero_Group\<lparr>g_Description := in_Description g, g_Type := t, g_TenantId := DefaultTenantID\<rparr>"
  let ?st = "sql_update_groups gid (g_Name ?grp) (g_Description ?grp) (g_Type ?grp) (env_clock env (w_tick w))"
  let ?row = "\<lambda>r. if gr_id r = gid then set_group_row (g_Name ?grp) (g_Description ?grp) (g_Type ?grp) (env_clock env (w_tick w)) r else r"
  have "\<not> inj_on (\<lambda>r. group_name_key (?row r)) (set (t_groups (target c w)))"
  proof
    assume "inj_on (\<lambda>r. group_name_key (?row r)) (set (t_groups (target c w)))"
    from inj_onD [OF this _ a(1) b(1)] diff a(2) b(2) have "a = b"
      by (simp add: group_name_key_def set_group_row_def zero_Group_def)
    with diff b show False by simp
  qed
  then have "\<not> distinct (map group_name_key (map ?row (t_groups (target c w))))"
    by (simp add: distinct_map comp_def)
  then have v: "?st (target c w) = Inl unique_violation"
    unfolding sql_update_groups_def Let_def by (rule if_not_P)
  obtain r w' where ex: "db_exec env c ?st w = (r, w')" by fastforce
  from db_exec_no_faults [OF c ex] v have r: "r = Inl unique_violation" by simp
  from ex r have "UpdateGroup env c gid ?grp w = (Inl (Errorf_v ''failed to update group'' unique_violation), w')"
    by (simp add: UpdateGroup_def Let_def)
  then have "grpc_UpdateGroup env gid (Some g) c w = (Inl \<lparr>st_code = Internal, st_message = ''update group failed''\<rparr>, w')"
    using g(1) t by (simp add: grpc_UpdateGroup_def svc_UpdateGroup_def groups_mapErrorToStatus_def status_Errorf_def)
  with db_exec_Inl [OF c(1) ex [unfolded r]] show ?thesis by blast
qed

definition nameless_tables :: tables where
  "nameless_tables = demo_tables\<lparr>t_groups := map (\<lambda>r. if gr_id r = ''g1'' then r\<lparr>gr_name := []\<rparr> else r) (t_groups demo_tables)\<rparr>"

theorem second_update_fails_witness:
  "\<exists>w'. grpc_UpdateGroup quiet_env ''g2'' (Some \<lparr>in_Name = [], in_Description = [], in_Type = []\<rparr>) background
       (world_of nameless_tables) = (Inl \<lparr>st_code = Internal, st_message = ''update group failed''\<rparr>, w')"
proof -
  let ?a = "(t_groups nameless_tables) ! 0" and ?b = "(t_groups nameless_tables) ! 1"
  have sel: "gr_name ?a = []" "gr_id ?a = ''g1''" "gr_id ?b = ''g2''" "gr_tenant_id ?a = gr_tenant_id ?b"
    by (simp_all add: nameless_tables_def demo_tables_def)
  have "?a \<in> set (t_groups nameless_tables)" "?b \<in> set (t_groups nameless_tables)"
    by (simp_all add: nameless_tables_def demo_tables_def)
  with sel second_update_fails [of background quiet_env "world_of nameless_tables" "\<lparr>in_Name = [], in_Description = [], in_Type = []\<rparr>" ?a ?b "''g2''"]
  show ?thesis by (auto simp: ParseGroupType_def)
qed

lemma permission_image_diff:
  "permission_tuple ` A - {permission_tuple (gid, a) | a. True} = permission_tuple ` {(g, a) \<in> A. g \<noteq> gid}"
  by (auto simp: permission_tuple_inj)



lemma CreateGroup_duplicate:
  assumes c: "writable c" "no_faults env" "live c w" and u: "env_uuid env (w_tick w) = Inr i"
    and taken: "r \<in> set (t_groups (target c w))" "gr_name r = g_Name grp" "gr_tenant_id r = g_TenantId grp"
  shows "\<exists>w'. CreateGroup env c grp w = (Inl (WrapDuplicateKeyError unique_violation ''group name already exists''), w')
           \<and> target c w' = target c w"
proof -
  let ?now = "env_clock env (w_tick w)"
  let ?row = "\<lparr>gr_id = i, gr_name = g_Name grp, gr_tenant_id = g_TenantId grp,
       gr_description = g_Description grp, gr_type = g_Type grp, gr_created_at = ?now, gr_updated_at = ?now\<rparr>"
  have "group_name_key ?row = group_name_key r" using taken by (simp add: group_name_key_def)
  with taken(1) have v: "sql_insert_group ?row (target c w) = Inl unique_violation"
    by (simp add: sql_insert_group_def)
  obtain x w' where ex: "db_exec env c (sql_insert_group ?row) (tick w) = (x, w')" by fastforce
  from c(3) have "live c (tick w)" by simp
  from db_exec_no_faults [OF c(1,2) this ex] v have x: "x = Inl unique_violation" by simp
  from db_exec_Inl [OF c(1) ex [unfolded x]] have "target c w' = target c w" by simp
  with u ex x show ?thesis by (simp add: CreateGroup_def Let_def)
qed

lemma GetGroup_missing:
  assumes c: "readable c" "no_faults env" "live c w" and gone: "\<not> group_exists gid (target c w)"
  shows "\<exists>w'. GetGroup env c gid w = (Inl (Sentinel storage_ErrNotFound), w') \<and> target c w' = target c w"
proof -
  obtain r w' where r: "GetGroup env c gid w = (r, w')" by fastforce
  have "find (\<lambda>r. gr_id r = gid) (t_groups (target c w)) = None"
    using gone by (auto simp: find_None_iff group_exists_def)
  with GetGroup_no_faults [OF c, of gid] r have "r = Inl (Sentinel storage_ErrNotFound)" by simp
  moreover from r have "w' = snd (db_query env c (\<lambda>tb. filter (\<lambda>r. gr_id r = gid) (t_groups tb)) w)"
    by (metis GetGroup_def snd_conv snd_one_group)
  then have "target c w' = target c w" using db_query_target [OF c(1)] by (metis prod.collapse)
  ultimately show ?thesis using r by blast
qed

lemma missing_group_no_members:
  assumes wf: "wf_tables tb" and gone: "\<not> group_exists gid tb"
  shows "gid \<notin> default_groups tb" "(gid, u) \<notin> memberships tb"
proof -
  show "gid \<notin> default_groups tb" using gone by (auto simp: default_groups_def group_exists_def)
  show "(gid, u) \<notin> memberships tb"
  proof
    assume "(gid, u) \<in> memberships tb"
    then obtain m where m: "m \<in> set (t_members tb)" "gm_group_id m = gid"
      by (auto simp: memberships_def member_key_def)
    with wf have "member_ref m \<in> group_key ` set (t_groups tb)" by (simp add: wf_tables_def)
    with m gone show False by (auto simp: group_exists_def member_ref_def group_key_def)
  qed
qed

text \<open>C33: errors of the storage layer reach the caller as the right code. Creating a group whose name is
  taken answers \<open>AlreadyExists\<close>, reading one that is not there answers \<open>NotFound\<close>, and adding a new
  member to a group that is not there answers \<open>InvalidArgument\<close>; none of them changes anything.\<close>

theorem handler_error_codes:
  assumes c: "writable c" "no_faults env" "live c w" "wf_world w"
    and taken: "r \<in> set (t_groups (target c w))" "gr_name r = in_Name g" "gr_tenant_id r = DefaultTenantID"
    and g: "is_ok (ParseGroupType (in_Type g))" "is_ok (env_uuid env (w_tick w))"
    and gone: "\<not> group_exists gid (target c w)" "u \<in> set us"
  shows "\<exists>w1 w2 w3.
      grpc_CreateGroup env (Some g) c w = (Inl \<lparr>st_code = AlreadyExists, st_message = ''group already exists''\<rparr>, w1)
    \<and> grpc_GetGroup env gid c w = (Inl \<lparr>st_code = NotFound, st_message = ''group not found''\<rparr>, w2)
    \<and> grpc_AddUsersToGroup env gid us c w = (Inl \<lparr>st_code = InvalidArgument, st_message = ''invalid group id''\<rparr>, w3)
    \<and> target c w1 = target c w \<and> target c w2 = target c w \<and> target c w3 = target c w"
proof -
  from g obtain t i where t: "ParseGroupType (in_Type g) = Inr t" and i: "env_uuid env (w_tick w) = Inr i"
    by (auto simp: is_ok_iff)
  let ?grp = "zero_Group\<lparr>g_Name := in_Name g, g_TenantId := DefaultTenantID, g_Description := in_Description g, g_Type := t\<rparr>"
  from CreateGroup_duplicate [OF c(1-3) i taken(1), of ?grp] taken(2,3) obtain w1
    where w1: "CreateGroup env c ?grp w = (Inl (WrapDuplicateKeyError unique_violation ''group name already exists''), w1)"
      "target c w1 = target c w" by auto
  have create: "grpc_CreateGroup env (Some g) c w = (Inl \<lparr>st_code = AlreadyExists, st_message = ''group already exists''\<rparr>, w1)"
    using t w1(1) by (simp add: grpc_CreateGroup_def svc_CreateGroup_def zero_Group_def groups_mapErrorToStatus_def status_Errorf_def)
  from GetGroup_missing [OF _ c(2,3) gone(1)] c(1) obtain w2
    where w2: "GetGroup env c gid w = (Inl (Sentinel storage_ErrNotFound), w2)" "target c w2 = target c w" by auto
  have get: "grpc_GetGroup env gid c w = (Inl \<lparr>st_code = NotFound, st_message = ''group not found''\<rparr>, w2)"
    using w2(1) by (simp add: grpc_GetGroup_def svc_GetGroup_def groups_mapErrorToStatus_def status_Errorf_def)
  note m = missing_group_no_members [OF wf_world_target [OF c(4)] gone(1)]
  from AddUsersToGroup_missing_group [OF c m(1) gone(2) m(2)] obtain e w3
    where w3: "AddUsersToGroup env c gid us w = (Inl e, w3)" "errors_Is e storage_ErrForeignKeyViolation"
      "target c w3 = target c w" by blast
  have add: "grpc_AddUsersToGroup env gid us c w = (Inl \<lparr>st_code = InvalidArgument, st_message = ''invalid group id''\<rparr>, w3)"
    using w3 gone(2) by (auto simp: grpc_AddUsersToGroup_def svc_AddUsersToGroup_def groups_mapErrorToStatus_def status_Errorf_def)
  from create get add w1(2) w2(2) w3(3) show ?thesis by blast
qed

theorem handler_error_codes_witness:
  "\<exists>w1. grpc_CreateGroup quiet_env (Some \<lparr>in_Name = ''100%'', in_Description = [], in_Type = ''local''\<rparr>) background
      (world_of demo_tables) = (Inl \<lparr>st_code = AlreadyExists, st_message = ''group already exists''\<rparr>, w1)"
proof -
  have "(t_groups demo_tables) ! 0 \<in> set (t_groups demo_tables)" by (simp add: demo_tables_def)
  from handler_error_codes [of background quiet_env "world_of demo_tables" "(t_groups demo_tables) ! 0"
      "\<lparr>in_Name = ''100%'', in_Description = [], in_Type = ''local''\<rparr>" "''g3''" "''ann''" "[''ann'']"] this
  show ?thesis by (auto simp: demo_tables_def ParseGroupType_def group_exists_def DefaultTenantID_def wf_tables_def key_defs)
qed

section \<open>Streams\<close>

lemma stream_loop_send:
  assumes "stream_loop conv msg (\<lambda>g sent. stream_send send (f g) sent) es sent = (err, sent')"
  shows "\<exists>xs. sent' = sent @ xs \<and> prefix xs [f (conv r). Row r \<leftarrow> es]
       \<and> (err = None \<longrightarrow> xs = [f (conv r). Row r \<leftarrow> es] \<and> (\<forall>e. BadRow e \<notin> set es))"
  using assms
proof (induction es arbitrary: sent)
  case (Cons e es)
  show ?case
  proof (cases e)
    case (Row r)
    show ?thesis
    proof (cases "send sent")
      case None
      with Cons.prems Row have "stream_loop conv msg (\<lambda>g sent. stream_send send (f g) sent) es (sent @ [f (conv r)]) = (err, sent')"
        by (simp add: stream_send_def)
      from Cons.IH [OF this] Row show ?thesis by auto
    qed (use Cons.prems Row in \<open>auto simp: stream_send_def\<close>)
  qed (use Cons.prems in auto)
qed simp

lemma cursor_rows: "prefix [g r. Row r \<leftarrow> fst (cursor flt rows)] (map g rows)"
  "(\<forall>e. BadRow e \<notin> set (fst (cursor flt rows))) \<Longrightarrow> snd (cursor flt rows) = None \<Longrightarrow>
     [g r. Row r \<leftarrow> fst (cursor flt rows)] = map g rows"
proof -
  have evs: "concat (map (case_event (\<lambda>r. [g r]) (\<lambda>e. []) \<circ> Row) xs) = map g xs" for xs
    by (induction xs) simp_all
  have pre: "prefix (map g (take n rows)) (map g rows)" for n
    by (metis map_mono_prefix take_is_prefix)
  show "prefix [g r. Row r \<leftarrow> fst (cursor flt rows)] (map g rows)"
    by (auto simp: cursor_def evs pre split: option.splits fault.splits)
  show "(\<forall>e. BadRow e \<notin> set (fst (cursor flt rows))) \<Longrightarrow> snd (cursor flt rows) = None \<Longrightarrow>
     [g r. Row r \<leftarrow> fst (cursor flt rows)] = map g rows"
    by (auto simp: cursor_def evs split: option.splits fault.splits if_splits)
qed

text \<open>What any of the streams has sent when it ends: the first rows, in order; all of them if it ends well.\<close>

lemma stream_rows_send:
  assumes "stream_rows conv m1 m2 (\<lambda>g sent. stream_send send (f g) sent) (cursor flt rows) [] = (err, sent)"
  shows "prefix sent (map (\<lambda>r. f (conv r)) rows) \<and> (err = None \<longrightarrow> sent = map (\<lambda>r. f (conv r)) rows)"
proof -
  obtain err1 sent1 where l: "stream_loop conv m1 (\<lambda>g sent. stream_send send (f g) sent) (fst (cursor flt rows)) [] = (err1, sent1)"
    by fastforce
  from stream_loop_send [OF l] have p: "prefix sent1 [f (conv r). Row r \<leftarrow> fst (cursor flt rows)]"
    and full: "err1 = None \<Longrightarrow> sent1 = [f (conv r). Row r \<leftarrow> fst (cursor flt rows)] \<and> (\<forall>e. BadRow e \<notin> set (fst (cursor flt rows)))"
    by auto
  from assms l have s: "sent = sent1" and none: "err = None \<longrightarrow> err1 = None \<and> snd (cursor flt rows) = None"
    by (auto simp: stream_rows_def split: option.splits)
  from p cursor_rows(1) have "prefix sent1 (map (\<lambda>r. f (conv r)) rows)"
    by (rule prefix_order.trans)
  with s none full cursor_rows(2) [of flt rows "\<lambda>r. f (conv r)"] show ?thesis by auto
qed

definition groups_answer :: "env \<Rightarrow> string \<Rightarrow> string \<Rightarrow> tables \<Rightarrow> pb_Group list" where
  "groups_answer env tid u tb = map (\<lambda>r. group_to_pb (scanGroup r))
     (by_name env (filter (\<lambda>g. tid \<noteq> [] \<longrightarrow> gr_tenant_id g = tid) (join_user u tb)))"

definition users_answer :: "env \<Rightarrow> string \<Rightarrow> string \<Rightarrow> tables \<Rightarrow> string list" where
  "users_answer env tid gid tb = by_collation env (map gm_user_id
     (filter (\<lambda>m. gm_group_id m = gid \<and> (tid \<noteq> [] \<longrightarrow> gm_tenant_id m = tid)) (t_members tb)))"

lemma groups_stream:
  assumes c: "readable c" and gs: "mapping_GetGroupsForUser so env tid u send c w = ((st, sent), w1)"
  shows "prefix sent (groups_answer env tid u (target c w))
       \<and> (st = None \<longrightarrow> u \<noteq> [] \<and> sent = groups_answer env tid u (target c w))"
proof (cases "u = []")
  case False
  let ?q = "\<lambda>tb. by_name env (filter (\<lambda>g. tid \<noteq> [] \<longrightarrow> gr_tenant_id g = tid) (join_user u tb))"
  obtain q w0 where q: "db_query (with_timeout (st_streamTimeout so) env) c ?q w = (q, w0)" by fastforce
  show ?thesis
  proof (cases q)
    case (Inr p)
    obtain rows flt where p: "p = (rows, flt)" by fastforce
    obtain err sent' where s: "stream_rows scanGroup ''failed to scan group'' ''error iterating groups''
        (\<lambda>g sent. stream_send send (group_to_pb g) sent) (cursor flt rows) [] = (err, sent')" by fastforce
    from db_query_Inr [OF c q [unfolded Inr p]]
    have "map (\<lambda>r. group_to_pb (scanGroup r)) rows = groups_answer env tid u (target c w)"
      by (simp add: groups_answer_def)
    with stream_rows_send [OF s] gs False q Inr p s show ?thesis
      by (cases err) (auto simp: mapping_GetGroupsForUser_def svc_StreamGroupsForUser_def StreamGroupsForUser_def)
  qed (use gs False q in \<open>auto simp: mapping_GetGroupsForUser_def svc_StreamGroupsForUser_def StreamGroupsForUser_def\<close>)
qed (use gs in \<open>auto simp: mapping_GetGroupsForUser_def\<close>)

lemma users_stream:
  assumes c: "readable c" and us: "mapping_GetUsersInGroup so env tid gid send c w = ((st, sent), w1)"
  shows "prefix sent (users_answer env tid gid (target c w))
       \<and> (st = None \<longrightarrow> gid \<noteq> [] \<and> sent = users_answer env tid gid (target c w))"
proof (cases "gid = []")
  case False
  let ?q = "\<lambda>tb. by_collation env (map gm_user_id (filter (\<lambda>m. gm_group_id m = gid
      \<and> (tid \<noteq> [] \<longrightarrow> gm_tenant_id m = tid)) (t_members tb)))"
  obtain q w0 where q: "db_query (with_timeout (st_streamTimeout so) env) c ?q w = (q, w0)" by fastforce
  show ?thesis
  proof (cases q)
    case (Inr p)
    obtain rows flt where p: "p = (rows, flt)" by fastforce
    obtain err sent' where s: "stream_rows (\<lambda>u. u) ''failed to scan user ID'' ''error iterating group members''
        (stream_send send) (cursor flt rows) [] = (err, sent')" by fastforce
    from db_query_Inr [OF c q [unfolded Inr p]] have "rows = users_answer env tid gid (target c w)"
      by (simp add: users_answer_def)
    with stream_rows_send [of "\<lambda>u. u" _ _ send "\<lambda>u. u" flt rows err sent'] us False q Inr p s show ?thesis
      by (cases err) (auto simp: mapping_GetUsersInGroup_def svc_StreamUsersInGroup_def StreamUsersInGroup_def)
  qed (use us False q in \<open>auto simp: mapping_GetUsersInGroup_def svc_StreamUsersInGroup_def StreamUsersInGroup_def\<close>)
qed (use us in \<open>auto simp: mapping_GetUsersInGroup_def\<close>)

text \<open>A stream never invents, reorders or silently drops anything. Whatever breaks (the query, a row,
  the cursor, the client's connection), what the client has received is an initial part of the answer in
  the database's order; and only when it has received the whole answer does the call end well.\<close>

theorem streams_are_honest:
  assumes c: "readable c"
    and gs: "mapping_GetGroupsForUser so env tid u sendG c w = ((st1, sent1), w1)"
    and us: "mapping_GetUsersInGroup so env tid gid sendU c w = ((st2, sent2), w2)"
  shows "prefix sent1 (groups_answer env tid u (target c w))
       \<and> (st1 = None \<longrightarrow> u \<noteq> [] \<and> sent1 = groups_answer env tid u (target c w))
       \<and> prefix sent2 (users_answer env tid gid (target c w))
       \<and> (st2 = None \<longrightarrow> gid \<noteq> [] \<and> sent2 = users_answer env tid gid (target c w))"
  using groups_stream [OF c gs] users_stream [OF c us] by blast

theorem streams_are_honest_witness:
  "\<exists>st w'. mapping_GetUsersInGroup NewStorage quiet_env [] ''g1'' (\<lambda>sent. None) background (world_of demo_tables) = ((st, [''ann'']), w')"
proof -
  let ?w = "world_of demo_tables"
  obtain st1 sent1 w1 where a: "mapping_GetGroupsForUser NewStorage quiet_env [] ''ann'' (\<lambda>sent. None) background ?w = ((st1, sent1), w1)"
    by (metis prod.exhaust)
  obtain st2 sent2 w2 where b: "mapping_GetUsersInGroup NewStorage quiet_env [] ''g1'' (\<lambda>sent. None) background ?w = ((st2, sent2), w2)"
    by (metis prod.exhaust)
  have "st2 = None"
    using b by (auto simp: mapping_GetUsersInGroup_def svc_StreamUsersInGroup_def StreamUsersInGroup_def db_query_def
        db_stmt_def Statement_def route_rest_def run_on_def cursor_def stream_rows_def stream_send_def demo_tables_def
        by_collation_def with_timeout_def NewStorage_def streamTimeout_def)
  with streams_are_honest [OF writable_readable [OF writable_simps(1)] a b] have "sent2 = [''ann'']"
    by (simp add: users_answer_def demo_tables_def by_collation_def)
  with b show ?thesis by blast
qed

end
