(* ===== verification/AuthzApi.thy ===== *)
theory AuthzApi
  imports GroupsApi
begin

text \<open>
  The application permissions API of \<^verbatim>\<open>pkg/authorization\<close>: every edit is made in the database first
  and then in OpenFGA. The state of an operation is the pair of the two stores; operations that call a
  removal loop return an option, \<open>None\<close> being a call that never returns.
\<close>

section \<open>The service\<close>

definition asvc_GetAllowedAppsInGroup :: "env \<Rightarrow> ctx \<Rightarrow> string \<Rightarrow> world \<Rightarrow> string list res \<times> world" where
  "asvc_GetAllowedAppsInGroup env c groupID w = GetAllowedApps env c groupID w"

definition asvc_AddAllowedAppToGroup ::
  "env \<Rightarrow> 's authz_client \<Rightarrow> ctx \<Rightarrow> string \<Rightarrow> string \<Rightarrow> world \<times> 's \<Rightarrow> unit res \<times> (world \<times> 's)" where
  "asvc_AddAllowedAppToGroup env cl c groupID app ws =
     (case AddAllowedApp env c groupID app (fst ws) of
        (Inl err, w1) \<Rightarrow>
          (Inl (if errors_Is err storage_ErrDuplicateKey then Sentinel authz_ErrAppAlreadyExistsInGroup
                else if errors_Is err storage_ErrForeignKeyViolation then Sentinel authz_ErrInvalidGroupID
                else err), (w1, snd ws))
      | (Inr _, w1) \<Rightarrow>
          (case authorizer_AddAllowedAppToGroup cl groupID app (snd ws) of
             (Some err, s1) \<Rightarrow> (Inl err, (w1, s1)) | (None, s1) \<Rightarrow> (Inr (), (w1, s1))))"

definition asvc_RemoveAllAllowedAppsFromGroup ::
  "env \<Rightarrow> 's authz_client \<Rightarrow> ctx \<Rightarrow> string \<Rightarrow> world \<times> 's \<Rightarrow> (unit res \<times> (world \<times> 's)) option" where
  "asvc_RemoveAllAllowedAppsFromGroup env cl c groupID ws =
     (case RemoveAllowedApps env c groupID (fst ws) of
        (Inl err, w1) \<Rightarrow> Some (Inl err, (w1, snd ws))
      | (Inr _, w1) \<Rightarrow>
          (case authorizer_RemoveAllAllowedAppsFromGroup cl groupID (snd ws) of
             None \<Rightarrow> None
           | Some (Some err, s1) \<Rightarrow> Some (Inl err, (w1, s1)) | Some (None, s1) \<Rightarrow> Some (Inr (), (w1, s1))))"

definition asvc_RemoveAllowedAppFromGroup ::
  "env \<Rightarrow> 's authz_client \<Rightarrow> ctx \<Rightarrow> string \<Rightarrow> string \<Rightarrow> world \<times> 's \<Rightarrow> unit res \<times> (world \<times> 's)" where
  "asvc_RemoveAllowedAppFromGroup env cl c groupID app ws =
     (case RemoveAllowedApp env c groupID app (fst ws) of
        (Inl err, w1) \<Rightarrow> (Inl err, (w1, snd ws))
      | (Inr _, w1) \<Rightarrow>
          (case authorizer_RemoveAllowedAppFromGroup cl groupID app (snd ws) of
             (Some err, s1) \<Rightarrow> (Inl err, (w1, s1)) | (None, s1) \<Rightarrow> (Inr (), (w1, s1))))"

definition asvc_GetAllowedGroupsForApp :: "env \<Rightarrow> ctx \<Rightarrow> string \<Rightarrow> world \<Rightarrow> string list res \<times> world" where
  "asvc_GetAllowedGroupsForApp env c app w =
     (case GetAllowedGroupsForApp env c app w of (Inl err, w1) \<Rightarrow> (Inl err, w1) | (Inr gs, w1) \<Rightarrow> (Inr gs, w1))"

definition asvc_RemoveAllAllowedGroupsForApp ::
  "env \<Rightarrow> 's authz_client \<Rightarrow> ctx \<Rightarrow> string \<Rightarrow> world \<times> 's \<Rightarrow> (unit res \<times> (world \<times> 's)) option" where
  "asvc_RemoveAllAllowedGroupsForApp env cl c app ws =
     (case RemoveAllAllowedGroupsForApp env c app (fst ws) of
        (Inl err, w1) \<Rightarrow> Some (Inl err, (w1, snd ws))
      | (Inr _, w1) \<Rightarrow>
          (case authorizer_RemoveAllAllowedGroupsForApp cl app (snd ws) of
             None \<Rightarrow> None
           | Some (Some err, s1) \<Rightarrow> Some (Inl err, (w1, s1)) | Some (None, s1) \<Rightarrow> Some (Inr (), (w1, s1))))"

section \<open>Handlers\<close>

definition authz_mapErrorToStatus :: "error \<Rightarrow> string \<Rightarrow> grpc_status" where
  "authz_mapErrorToStatus err action =
     (if errors_Is err authz_ErrGroupNotFound then status_Errorf NotFound ''group not found''
      else if errors_Is err authz_ErrAppDoesNotExist then status_Errorf NotFound ''app not found''
      else if errors_Is err authz_ErrAppDoesNotExistInGroup then status_Errorf NotFound ''app not in group''
      else if errors_Is err authz_ErrAppAlreadyExistsInGroup
        then status_Errorf AlreadyExists ''app already exists in group''
      else if errors_Is err authz_ErrInternalServerError then status_Errorf Internal ''internal server error''
      else status_Errorf Internal (action @ '' failed''))"

definition authz_answer :: "string \<Rightarrow> ('a \<Rightarrow> 'd reply) \<Rightarrow> 'a res \<times> 'w \<Rightarrow> 'd reply rpc \<times> 'w" where
  "authz_answer action ok r =
     (case r of (Inl err, w1) \<Rightarrow> (Inl (authz_mapErrorToStatus err action), w1) | (Inr x, w1) \<Rightarrow> (Inr (ok x), w1))"

definition invalid_argument :: "string \<Rightarrow> 'w \<Rightarrow> 'd rpc \<times> 'w" where
  "invalid_argument msg w = (Inl (status_Errorf InvalidArgument msg), w)"

text \<open>The two messages that wrap a bare identifier, and the loops that build them.\<close>

record pb_App = pb_ClientId :: string
record pb_GroupRef = pb_GroupId :: string

fun appsToProto :: "string list \<Rightarrow> pb_App list" where
  "appsToProto [] = []"
| "appsToProto (a # as) = \<lparr>pb_ClientId = a\<rparr> # appsToProto as"

fun groupsToProto :: "string list \<Rightarrow> pb_GroupRef list" where
  "groupsToProto [] = []"
| "groupsToProto (g # gs) = \<lparr>pb_GroupId = g\<rparr> # groupsToProto gs"

definition agrpc_GetAllowedAppsInGroup ::
  "env \<Rightarrow> string \<Rightarrow> ctx \<Rightarrow> world \<Rightarrow> pb_App list reply rpc \<times> world" where
  "agrpc_GetAllowedAppsInGroup env groupId c w =
     (if groupId = [] then invalid_argument ''group id is empty'' w
      else authz_answer ''get allowed apps in group'' (\<lambda>apps. mk_reply (appsToProto apps) ''Allowed apps for group'')
             (asvc_GetAllowedAppsInGroup env c groupId w))"

definition agrpc_AddAllowedAppToGroup ::
  "env \<Rightarrow> 's authz_client \<Rightarrow> string \<Rightarrow> pb_App option \<Rightarrow> ctx \<Rightarrow> world \<times> 's \<Rightarrow> unit reply rpc \<times> (world \<times> 's)" where
  "agrpc_AddAllowedAppToGroup env cl groupId app c ws =
     (case app of
        None \<Rightarrow> invalid_argument ''app is empty'' ws
      | Some a \<Rightarrow>
          if pb_ClientId a = [] then invalid_argument ''app is empty'' ws
          else if groupId = [] then invalid_argument ''group id is empty'' ws
          else authz_answer ''add allowed app to group'' (\<lambda>u. mk_reply u ''App added to allowed list in group'')
                 (asvc_AddAllowedAppToGroup env cl c groupId (pb_ClientId a) ws))"

definition agrpc_RemoveAllowedAppFromGroup ::
  "env \<Rightarrow> 's authz_client \<Rightarrow> string \<Rightarrow> string \<Rightarrow> ctx \<Rightarrow> world \<times> 's \<Rightarrow> unit reply rpc \<times> (world \<times> 's)" where
  "agrpc_RemoveAllowedAppFromGroup env cl groupId appId c ws =
     (if groupId = [] then invalid_argument ''group id is empty'' ws
      else if appId = [] then invalid_argument ''app id is empty'' ws
      else authz_answer ''remove allowed app from group'' (\<lambda>u. mk_reply u ''App removed from allowed list in group'')
             (asvc_RemoveAllowedAppFromGroup env cl c groupId appId ws))"

definition agrpc_RemoveAllowedAppsFromGroup ::
  "env \<Rightarrow> 's authz_client \<Rightarrow> string \<Rightarrow> ctx \<Rightarrow> world \<times> 's \<Rightarrow> (unit reply rpc \<times> (world \<times> 's)) option" where
  "agrpc_RemoveAllowedAppsFromGroup env cl groupId c ws =
     (if groupId = [] then Some (invalid_argument ''group id is empty'' ws)
      else map_option (authz_answer ''remove allowed apps from group''
                         (\<lambda>u. mk_reply u ''All apps removed from allowed list in group''))
             (asvc_RemoveAllAllowedAppsFromGroup env cl c groupId ws))"

definition agrpc_GetAllowedGroupsForApp ::
  "env \<Rightarrow> string \<Rightarrow> ctx \<Rightarrow> world \<Rightarrow> pb_GroupRef list reply rpc \<times> world" where
  "agrpc_GetAllowedGroupsForApp env appId c w =
     (if appId = [] then invalid_argument ''app id is empty'' w
      else authz_answer ''get allowed groups for app'' (\<lambda>gs. mk_reply (groupsToProto gs) ''List of groups allowed for app'')
             (asvc_GetAllowedGroupsForApp env c appId w))"

definition agrpc_RemoveAllowedGroupsForApp ::
  "env \<Rightarrow> 's authz_client \<Rightarrow> string \<Rightarrow> ctx \<Rightarrow> world \<times> 's \<Rightarrow> (unit reply rpc \<times> (world \<times> 's)) option" where
  "agrpc_RemoveAllowedGroupsForApp env cl appId c ws =
     (if appId = [] then Some (invalid_argument ''app id is empty'' ws)
      else map_option (authz_answer ''remove allowed groups for app''
                         (\<lambda>u. mk_reply u ''All groups removed from allowed list for app''))
             (asvc_RemoveAllAllowedGroupsForApp env cl c appId ws))"

section \<open>Over HTTP\<close>

text \<open>The gateway in front of a handler that works on both stores: the answer carries the new OpenFGA
  state, because no rollback touches it.\<close>

definition gateway2 ::
  "(grpc_code \<Rightarrow> nat) \<Rightarrow> (ctx \<Rightarrow> world \<times> 's \<Rightarrow> 'a rpc \<times> (world \<times> 's)) \<Rightarrow> 's \<Rightarrow> ('a rpc \<times> 's) http_handler" where
  "gateway2 httpStatus op s c w =
     (case op c (w, s) of
        (Inl st, (w1, s1)) \<Rightarrow> ((httpStatus (st_code st), (Inl st, s1)), w1)
      | (Inr x, (w1, s1)) \<Rightarrow> ((http_StatusOK, (Inr x, s1)), w1))"

section \<open>The handlers keep the contract\<close>

lemma authz_answer_simps [simp]:
  "authz_answer action ok (Inl err, w) = (Inl (authz_mapErrorToStatus err action), w)"
  "authz_answer action ok (Inr x, w) = (Inr (ok x), w)"
  by (simp_all add: authz_answer_def)

lemma snd_authz_answer [simp]: "snd (authz_answer action ok r) = snd r"
  by (auto simp: authz_answer_def split: prod.splits sum.splits)

lemma asvc_Add_world:
  "fst (snd (asvc_AddAllowedAppToGroup env cl c gid app (w, s))) = snd (AddAllowedApp env c gid app w)"
  by (auto simp: asvc_AddAllowedAppToGroup_def split: prod.splits sum.splits option.splits)

lemma asvc_Remove_world:
  "fst (snd (asvc_RemoveAllowedAppFromGroup env cl c gid app (w, s))) = snd (RemoveAllowedApp env c gid app w)"
  by (auto simp: asvc_RemoveAllowedAppFromGroup_def split: prod.splits sum.splits option.splits)

lemma gateway2_world: "snd (gateway2 hs op s c w) = fst (snd (op c (w, s)))"
  by (auto simp: gateway2_def split: prod.splits sum.splits)

interpretation allow: framed_handler env "gateway2 hs (agrpc_AddAllowedAppToGroup env cl gid app) s"
  for env hs cl gid app s
proof
  fix c
  show "keeps env c (gateway2 hs (agrpc_AddAllowedAppToGroup env cl gid app) s c)"
  proof (cases "\<exists>a. app = Some a \<and> pb_ClientId a \<noteq> [] \<and> gid \<noteq> []")
    case True
    then obtain a where "app = Some a" "pb_ClientId a \<noteq> []" "gid \<noteq> []" by blast
    then show ?thesis
      by (intro keeps_snd [OF keeps_AddAllowedApp [of env c gid "pb_ClientId a"]])
        (simp add: gateway2_world agrpc_AddAllowedAppToGroup_def asvc_Add_world)
  next
    case False
    then have "fst (snd (agrpc_AddAllowedAppToGroup env cl gid app c (w, s))) = w" for w
      by (auto simp: agrpc_AddAllowedAppToGroup_def invalid_argument_def split: option.splits)
    then show ?thesis by (simp add: keeps_def gateway2_world)
  qed
qed

interpretation disallow: framed_handler env "gateway2 hs (agrpc_RemoveAllowedAppFromGroup env cl gid aid) s"
  for env hs cl gid aid s
proof
  fix c
  show "keeps env c (gateway2 hs (agrpc_RemoveAllowedAppFromGroup env cl gid aid) s c)"
  proof (cases "gid \<noteq> [] \<and> aid \<noteq> []")
    case True
    then show ?thesis
      by (intro keeps_snd [OF keeps_RemoveAllowedApp [of env c gid aid]])
        (simp add: gateway2_world agrpc_RemoveAllowedAppFromGroup_def asvc_Remove_world)
  next
    case False
    then have "fst (snd (agrpc_RemoveAllowedAppFromGroup env cl gid aid c (w, s))) = w" for w
      by (auto simp: agrpc_RemoveAllowedAppFromGroup_def invalid_argument_def)
    then show ?thesis by (simp add: keeps_def gateway2_world)
  qed
qed

section \<open>The two stores agree\<close>

text \<open>The invariant of the pair: OpenFGA holds exactly the tuples of the permissions in the database.\<close>

definition in_sync :: "('s \<Rightarrow> Tuple set) \<Rightarrow> tables \<Rightarrow> 's \<Rightarrow> bool" where
  "in_sync store tb s \<longleftrightarrow> store s = permission_tuple ` allowances tb"

lemma AddAllowedApp_live:
  assumes "writable c" "live c w" "AddAllowedApp env c gid a w = (Inr v, w')"
  shows "live c w'"
  using assms by (auto simp: AddAllowedApp_def Let_def split: prod.splits sum.splits dest!: db_exec_live)

lemma RemoveAllowedApp_live:
  assumes "writable c" "live c w" "RemoveAllowedApp env c gid a w = (Inr v, w')"
  shows "live c w'"
  using assms by (auto simp: RemoveAllowedApp_def exec_result_Inr dest: db_exec_live)

lemma permission_minus:
  "permission_tuple ` A - {permission_tuple p} = permission_tuple ` (A - {p})"
  by (auto simp: permission_tuple_inj)

text \<open>What a handler that works on both stores has to provide for the stores to agree after a request: a
  success changes both in the same way inside the transaction, a failure leaves OpenFGA alone.\<close>

lemma request_commits:
  assumes frm: "framed_handler env (gateway2 hs op s)"
    and op_ok: "\<And>c w x w' s'. writable c \<Longrightarrow> live c w \<Longrightarrow> op c (w, s) = (Inr x, (w', s')) \<Longrightarrow>
      in_sync store (target c w) s \<Longrightarrow> live c w' \<and> (ctx_lazy c \<and> begins_ok env \<longrightarrow> w_lazyTx w' \<noteq> None)
        \<and> Q (target c w) (target c w') s'"
    and env: "begins_ok env" "\<forall>t. env_commit env t = None" and hs: "error_statuses hs" and c: "writable c"
    and meth: "meth \<noteq> ''GET''" "meth \<noteq> ''HEAD''" and sync: "in_sync store (w_primary w) s"
    and req: "TransactionMiddleware env meth (gateway2 hs op s) c w = ((code, (r, s')), w')" and ok: "code < 400"
  shows "Q (w_primary w) (w_primary w') s'"
proof -
  let ?c = "c\<lparr>ctx_lazy := True\<rparr>" and ?w = "w\<lparr>w_lazyTx := None\<rparr>"
  obtain r1 w1 s1 where op: "op ?c (?w, s) = (r1, (w1, s1))" by (metis prod.exhaust)
  have le: "\<not> hs k < 400" for k using hs by (simp add: error_statuses_def not_less)
  obtain code1 where h: "gateway2 hs op s ?c ?w = ((code1, (r1, s1)), w1)"
    and code1: "code1 < 400 \<longleftrightarrow> (\<exists>x. r1 = Inr x)"
    using op le by (cases r1) (auto simp: gateway2_def http_StatusOK_def)
  note all = framed_handler.commit_is_all_or_nothing [OF frm env(1) meth h req]
  with ok code1 obtain x where x: "r1 = Inr x" by auto
  have start: "target ?c ?w = w_primary w" by (rule target_tx_start [OF c])
  from c have "writable ?c" by simp
  moreover have "live ?c ?w" by (simp add: live_def)
  ultimately have done1: "live ?c w1" "w_lazyTx w1 \<noteq> None" "Q (w_primary w) (target ?c w1) s1"
    using op_ok [OF _ _ op [unfolded x]] env(1) sync unfolding start by simp_all
  then obtain t where t: "w_lazyTx w1 = Some t" by blast
  with done1(1) have "\<not> tx_aborted t" by (simp add: live_def)
  with all t ok env(2) have "w_primary w' = tx_tables t" "s' = s1" by auto
  with done1(3) t show ?thesis by (simp add: target_def)
qed

lemma request_keeps_stores_in_sync:
  assumes frm: "framed_handler env (gateway2 hs op s)"
    and op_ok: "\<And>c w x w' s'. writable c \<Longrightarrow> live c w \<Longrightarrow> op c (w, s) = (Inr x, (w', s')) \<Longrightarrow>
      in_sync store (target c w) s \<Longrightarrow> live c w' \<and> (ctx_lazy c \<and> begins_ok env \<longrightarrow> w_lazyTx w' \<noteq> None)
        \<and> in_sync store (target c w') s' \<and> Q (target c w) (target c w')"
    and op_failed: "\<And>c w st w' s'. op c (w, s) = (Inl st, (w', s')) \<Longrightarrow> store s' = store s"
    and env: "begins_ok env" "\<forall>t. env_commit env t = None" and hs: "error_statuses hs" and c: "writable c"
    and meth: "meth \<noteq> ''GET''" "meth \<noteq> ''HEAD''" and sync: "in_sync store (w_primary w) s"
    and req: "TransactionMiddleware env meth (gateway2 hs op s) c w = ((code, (r, s')), w')"
  shows "in_sync store (w_primary w') s' \<and> (code < 400 \<longrightarrow> Q (w_primary w) (w_primary w'))"
proof (cases "code < 400")
  case True
  have "in_sync store (w_primary w') s' \<and> Q (w_primary w) (w_primary w')"
    by (rule request_commits [where Q = "\<lambda>tb tb' s'. in_sync store tb' s' \<and> Q tb tb'", OF frm op_ok env hs c meth sync req True])
  then show ?thesis by simp
next
  case False
  let ?c = "c\<lparr>ctx_lazy := True\<rparr>" and ?w = "w\<lparr>w_lazyTx := None\<rparr>"
  obtain r1 w1 s1 where op: "op ?c (?w, s) = (r1, (w1, s1))" by (metis prod.exhaust)
  obtain code1 where h: "gateway2 hs op s ?c ?w = ((code1, (r1, s1)), w1)" "(\<exists>x. r1 = Inr x) \<longrightarrow> code1 = 200"
    using op by (cases r1) (auto simp: gateway2_def http_StatusOK_def)
  note all = framed_handler.commit_is_all_or_nothing [OF frm env(1) meth h(1) req]
  with False h(2) obtain st where "r1 = Inl st" by (cases r1) auto
  with op have "store s1 = store s" by (intro op_failed) simp
  moreover from all False have "w_primary w' = w_primary w" "s' = s1" by (auto split: option.splits)
  ultimately show ?thesis using sync False by (simp add: in_sync_def)
qed

text \<open>A statement inside a lazy transaction has opened it.\<close>

lemma db_exec_opens:
  assumes "db_exec env c f w = (r, w')" and "ctx_lazy c" "begins_ok env"
  shows "w_lazyTx w' \<noteq> None"
proof -
  obtain k w1 where k: "Statement env c w = (k, w1)" by fastforce
  from k assms(2,3) have k1: "k = RunLazyTx" by (auto intro: Statement_frame(3))
  from k have "w_lazyTx w1 \<noteq> None"
    by (cases rule: Statement_cases) (use assms(2,3) in auto)
  then obtain t where t: "w_lazyTx w1 = Some t" by blast
  obtain x t' where run: "tx_run f t = (x, t')" by fastforce
  show ?thesis
  proof (cases "query_fault (env_fault env (w_tick w1))")
    case None
    with assms(1) k k1 t run show ?thesis by (cases x) (auto simp: db_exec_def db_stmt_def run_on_def)
  next
    case (Some e)
    with assms(1) k k1 t show ?thesis by (auto simp: db_exec_def db_stmt_def fail_on_def abort_txn_def)
  qed
qed

lemma allow_ok:
  assumes W: "write_law sdk store" and c: "writable c" "live c w"
    and op: "agrpc_AddAllowedAppToGroup env (Client sdk) gid app c (w, s) = (Inr x, (w', s'))"
    and sync: "in_sync store (target c w) s"
  shows "live c w' \<and> (ctx_lazy c \<and> begins_ok env \<longrightarrow> w_lazyTx w' \<noteq> None) \<and> in_sync store (target c w') s'
    \<and> memberships (target c w') = memberships (target c w)
    \<and> allowances (target c w') = insert (gid, pb_ClientId (the app)) (allowances (target c w))"
proof -
  from op obtain a where a: "app = Some a" "pb_ClientId a \<noteq> []" "gid \<noteq> []"
    and svc: "asvc_AddAllowedAppToGroup env (Client sdk) c gid (pb_ClientId a) (w, s) = (Inr (), (w', s'))"
    by (auto simp: agrpc_AddAllowedAppToGroup_def invalid_argument_def authz_answer_def
        split: option.splits if_splits prod.splits sum.splits)
  from svc have db: "AddAllowedApp env c gid (pb_ClientId a) w = (Inr (), w')"
    and fga: "sdk_Write sdk [permission_tuple (gid, pb_ClientId a)] [] s = (None, s')"
    by (auto simp: asvc_AddAllowedAppToGroup_def authorizer_AddAllowedAppToGroup_def WriteTuple_def
        permission_tuple_def split: prod.splits sum.splits option.splits)
  have "in_sync store (target c w') s'"
    using write_lawD [OF W fga] AddAllowedApp_effect [OF c(1) db] sync by (simp add: in_sync_def)
  moreover have "ctx_lazy c \<and> begins_ok env \<longrightarrow> w_lazyTx w' \<noteq> None"
    using db db_exec_opens by (fastforce simp: AddAllowedApp_def Let_def split: prod.splits sum.splits)
  ultimately show ?thesis using AddAllowedApp_live [OF c db] AddAllowedApp_effect [OF c(1) db] a(1) by (simp add: memberships_def)
qed

lemma allow_failed:
  assumes W: "write_law sdk store"
    and op: "agrpc_AddAllowedAppToGroup env (Client sdk) gid app c (w, s) = (Inl st, (w', s'))"
  shows "store s' = store s"
proof -
  obtain d w1 where d: "AddAllowedApp env c gid (pb_ClientId (the app)) w = (d, w1)" by fastforce
  obtain e s1 where e: "sdk_Write sdk [permission_tuple (gid, pb_ClientId (the app))] [] s = (e, s1)" by fastforce
  from op d e write_lawD [OF W e] show ?thesis
    by (cases d; cases e)
      (auto simp: agrpc_AddAllowedAppToGroup_def invalid_argument_def authz_answer_def asvc_AddAllowedAppToGroup_def
        authorizer_AddAllowedAppToGroup_def WriteTuple_def permission_tuple_def
        split: option.splits if_splits)
qed

lemma disallow_ok:
  assumes W: "write_law sdk store" and c: "writable c" "live c w"
    and op: "agrpc_RemoveAllowedAppFromGroup env (Client sdk) gid aid c (w, s) = (Inr x, (w', s'))"
    and sync: "in_sync store (target c w) s"
  shows "live c w' \<and> (ctx_lazy c \<and> begins_ok env \<longrightarrow> w_lazyTx w' \<noteq> None) \<and> in_sync store (target c w') s'
    \<and> memberships (target c w') = memberships (target c w)
    \<and> allowances (target c w') = allowances (target c w) - {(gid, aid)}"
proof -
  from op have svc: "asvc_RemoveAllowedAppFromGroup env (Client sdk) c gid aid (w, s) = (Inr (), (w', s'))"
    by (auto simp: agrpc_RemoveAllowedAppFromGroup_def invalid_argument_def authz_answer_def
        split: if_splits prod.splits sum.splits)
  from svc have db: "RemoveAllowedApp env c gid aid w = (Inr (), w')"
    and fga: "sdk_Write sdk [] [permission_tuple (gid, aid)] s = (None, s')"
    by (auto simp: asvc_RemoveAllowedAppFromGroup_def authorizer_RemoveAllowedAppFromGroup_def DeleteTuple_def
        permission_tuple_def split: prod.splits sum.splits option.splits)
  have "in_sync store (target c w') s'"
    using write_lawD [OF W fga] RemoveAllowedApp_effect [OF c(1) db] sync
    by (simp add: in_sync_def permission_minus)
  moreover have "ctx_lazy c \<and> begins_ok env \<longrightarrow> w_lazyTx w' \<noteq> None"
    using db db_exec_opens by (fastforce simp: RemoveAllowedApp_def exec_result_Inr)
  ultimately show ?thesis using RemoveAllowedApp_live [OF c db] RemoveAllowedApp_effect [OF c(1) db] by (simp add: memberships_def)
qed

lemma disallow_failed:
  assumes W: "write_law sdk store"
    and op: "agrpc_RemoveAllowedAppFromGroup env (Client sdk) gid aid c (w, s) = (Inl st, (w', s'))"
  shows "store s' = store s"
proof -
  obtain d w1 where d: "RemoveAllowedApp env c gid aid w = (d, w1)" by fastforce
  obtain e s1 where e: "sdk_Write sdk [] [permission_tuple (gid, aid)] s = (e, s1)" by fastforce
  from op d e write_lawD [OF W e] show ?thesis
    by (cases d; cases e)
      (auto simp: agrpc_RemoveAllowedAppFromGroup_def invalid_argument_def authz_answer_def
        asvc_RemoveAllowedAppFromGroup_def authorizer_RemoveAllowedAppFromGroup_def DeleteTuple_def permission_tuple_def
        split: if_splits)
qed

lemma allow_request:
  assumes W: "write_law sdk store"
    and env: "begins_ok env" "\<forall>t. env_commit env t = None" and hs: "error_statuses hs" and c: "writable c"
    and sync: "in_sync store (w_primary w) s"
    and req: "TransactionMiddleware env ''POST'' (gateway2 hs (agrpc_AddAllowedAppToGroup env (Client sdk) gid app) s) c w
        = ((code, (r, s')), w')"
  shows "in_sync store (w_primary w') s' \<and> (code < 400 \<longrightarrow> memberships (w_primary w') = memberships (w_primary w)
    \<and> allowances (w_primary w') = insert (gid, pb_ClientId (the app)) (allowances (w_primary w)))"
  by (rule request_keeps_stores_in_sync [OF allow.framed_handler_axioms _ _ env hs c _ _ sync req,
        where Q = "\<lambda>tb tb'. memberships tb' = memberships tb \<and> allowances tb' = insert (gid, pb_ClientId (the app)) (allowances tb)"])
    (erule (3) allow_ok [OF W], erule allow_failed [OF W], simp_all)

lemma disallow_request:
  assumes W: "write_law sdk store"
    and env: "begins_ok env" "\<forall>t. env_commit env t = None" and hs: "error_statuses hs" and c: "writable c"
    and sync: "in_sync store (w_primary w) s"
    and req: "TransactionMiddleware env ''DELETE'' (gateway2 hs (agrpc_RemoveAllowedAppFromGroup env (Client sdk) gid aid) s) c w
        = ((code, (r, s')), w')"
  shows "in_sync store (w_primary w') s' \<and> (code < 400 \<longrightarrow> memberships (w_primary w') = memberships (w_primary w)
    \<and> allowances (w_primary w') = allowances (w_primary w) - {(gid, aid)})"
  by (rule request_keeps_stores_in_sync [OF disallow.framed_handler_axioms _ _ env hs c _ _ sync req,
        where Q = "\<lambda>tb tb'. memberships tb' = memberships tb \<and> allowances tb' = allowances tb - {(gid, aid)}"])
    (erule (3) disallow_ok [OF W], erule disallow_failed [OF W], simp_all)

section \<open>Properties\<close>



text \<open>C37: revoking an application for all groups leaves every grant in OpenFGA. When the handler answers with
  success the database has no permission for the application left, but OpenFGA still has the tuple of every
  group it had one for, so the access checks keep allowing those groups.\<close>

theorem RemoveAllowedGroupsForApp_leaves_access:
  assumes laws: "write_law sdk store" "read_law sdk store todo" and c: "writable c"
    and a: "last a \<noteq> CHR '':''"
    and op: "agrpc_RemoveAllowedGroupsForApp env (Client sdk) a c (w, s) = Some (Inr rp, (w', s'))"
    and g: "g \<noteq> []" "(g, a) \<in> allowances (target c w)" and sync: "in_sync store (target c w) s"
  shows "(g, a) \<notin> allowances (target c w') \<and> permission_tuple (g, a) \<in> store s' \<and> \<not> in_sync store (target c w') s'"
proof -
  from op have a_ne: "a \<noteq> []" by (auto simp: agrpc_RemoveAllowedGroupsForApp_def invalid_argument_def)
  obtain d w1 where d: "RemoveAllAllowedGroupsForApp env c a w = (d, w1)" by fastforce
  have svc: "asvc_RemoveAllAllowedGroupsForApp env (Client sdk) c a (w, s) = Some (Inr (), (w', s'))"
  proof (cases "asvc_RemoveAllAllowedGroupsForApp env (Client sdk) c a (w, s)")
    case None
    with op a_ne show ?thesis by (simp add: agrpc_RemoveAllowedGroupsForApp_def)
  next
    case (Some y)
    obtain q w2 s2 where y: "y = (q, (w2, s2))" by (metis prod.exhaust)
    with Some op a_ne show ?thesis
      by (cases q) (simp_all add: agrpc_RemoveAllowedGroupsForApp_def authz_answer_def)
  qed
  with d obtain gs where gs: "d = Inr gs" by (cases d) (simp_all add: asvc_RemoveAllAllowedGroupsForApp_def)
  with d svc obtain e where db: "RemoveAllAllowedGroupsForApp env c a w = (Inr gs, w')"
    and fga: "authorizer_RemoveAllAllowedGroupsForApp (Client sdk) a s = Some (e, s')"
    by (auto simp: asvc_RemoveAllAllowedGroupsForApp_def split: option.splits prod.splits)
  from RemoveAllAllowedGroupsForApp_effect [OF c db] have gone: "(g, a) \<notin> allowances (target c w')" by simp
  from sync g(2) have "permission_tuple (g, a) \<in> store s" by (simp add: in_sync_def)
  with RemoveAllAllowedGroupsForApp_removes [OF laws a_ne a] g(1) fga have kept: "permission_tuple (g, a) \<in> store s'"
    by (metis option.inject prod.inject)
  with gone show ?thesis by (auto simp: in_sync_def permission_tuple_inj)
qed

theorem RemoveAllowedGroupsForApp_leaves_access_witness:
  "\<exists>rp w' s'. agrpc_RemoveAllowedGroupsForApp quiet_env (Client ref_sdk) ''app'' background
       (world_of demo_tables, [permission_tuple (''g1'', ''app'')]) = Some (Inr rp, (w', s'))
     \<and> (''g1'', ''app'') \<notin> allowances (target background w') \<and> permission_tuple (''g1'', ''app'') \<in> set s'"
proof -
  let ?s = "[permission_tuple (''g1'', ''app'')]" and ?w = "world_of demo_tables"
  have sync: "in_sync set (target background ?w) ?s" by (simp add: in_sync_def)
  have none: "\<not> fga_matches (NewTuple (GroupMemberTuple []) CAN_ACCESS_RELATION (ClientTuple ''app'')) (permission_tuple (''g1'', ''app''))"
    by (simp add: remove_groups_filter permission_tuple_inj)
  then have fga: "authorizer_RemoveAllAllowedGroupsForApp (Client ref_sdk) ''app'' ?s = Some (None, ?s)"
    unfolding authorizer_RemoveAllAllowedGroupsForApp_def
    by (subst remove_loop.simps) (simp add: ReadTuples_def ref_sdk_def)
  obtain d w1 where db: "RemoveAllAllowedGroupsForApp quiet_env background ''app'' ?w = (d, w1)" by fastforce
  then obtain gs where d: "d = Inr gs"
    by (auto simp: RemoveAllAllowedGroupsForApp_def db_exec_def db_stmt_def Statement_def
        route_rest_def run_on_def sql_delete_apps_returning_def demo_tables_def)
  have op: "agrpc_RemoveAllowedGroupsForApp quiet_env (Client ref_sdk) ''app'' background (?w, ?s)
      = Some (Inr (mk_reply () ''All groups removed from allowed list for app''), (w1, ?s))"
    using db d fga by (simp add: agrpc_RemoveAllowedGroupsForApp_def asvc_RemoveAllAllowedGroupsForApp_def authz_answer_def)
  have "(''g1'', ''app'') \<in> allowances (target background ?w)" by simp
  from RemoveAllowedGroupsForApp_leaves_access [OF ref_laws(1,4) writable_simps(1) _ op _ this sync] op show ?thesis by simp
qed

text \<open>Granting a permission to a group that does not exist is reported as an internal error, because
  \<open>mapErrorToStatus\<close> does not know \<open>ErrInvalidGroupID\<close>; neither store changes.\<close>

theorem grant_to_unknown_group_is_internal:
  assumes c: "writable c" "no_faults env" "live c w" "wf_world w" and a: "pb_ClientId a \<noteq> []" "gid \<noteq> []"
    and gone: "\<not> group_exists gid (target c w)"
  shows "\<exists>w'. agrpc_AddAllowedAppToGroup env cl gid (Some a) c (w, s)
       = (Inl \<lparr>st_code = Internal, st_message = ''add allowed app to group failed''\<rparr>, (w', s)) \<and> target c w' = target c w"
proof -
  let ?row = "app_row (env_clock env (w_tick w)) gid (pb_ClientId a)"
  from gone have "(gid, ''default'') \<notin> group_key ` set (t_groups (target c w))"
    by (auto simp: group_exists_def group_key_def)
  moreover have "app_key ?row \<notin> app_key ` set (t_apps (target c w))"
  proof
    assume "app_key ?row \<in> app_key ` set (t_apps (target c w))"
    then obtain x where x: "x \<in> set (t_apps (target c w))" "ag_group_id x = gid"
      by (auto simp: app_key_def app_row_def)
    with wf_world_target [OF c(4), of c] have "app_ref x \<in> group_key ` set (t_groups (target c w))"
      by (simp add: wf_tables_def)
    with x gone show False by (auto simp: group_exists_def app_ref_def group_key_def)
  qed
  ultimately have v: "sql_insert_app ?row (target c w) = Inl foreign_key_violation"
    by (simp add: sql_insert_app_def)
  obtain r w' where ex: "db_exec env c (sql_insert_app ?row) w = (r, w')" by fastforce
  from db_exec_no_faults [OF c(1-3) ex] v have r: "r = Inl foreign_key_violation" by simp
  have "AddAllowedApp env c gid (pb_ClientId a) w = (Inl (WrapForeignKeyError foreign_key_violation ''group does not exist''), w')"
    using ex r by (simp add: AddAllowedApp_def Let_def)
  then have "agrpc_AddAllowedAppToGroup env cl gid (Some a) c (w, s)
       = (Inl \<lparr>st_code = Internal, st_message = ''add allowed app to group failed''\<rparr>, (w', s))"
    using a by (simp add: agrpc_AddAllowedAppToGroup_def asvc_AddAllowedAppToGroup_def authz_mapErrorToStatus_def status_Errorf_def)
  with db_exec_Inl [OF c(1) ex [unfolded r]] show ?thesis by blast
qed

theorem grant_to_unknown_group_is_internal_witness:
  "\<exists>w'. agrpc_AddAllowedAppToGroup quiet_env (Client ref_sdk) ''g9'' (Some \<lparr>pb_ClientId = ''app''\<rparr>) background (world_of demo_tables, [])
     = (Inl \<lparr>st_code = Internal, st_message = ''add allowed app to group failed''\<rparr>, (w', []))"
proof -
  have "\<not> group_exists ''g9'' demo_tables" by (simp add: group_exists_def demo_tables_def)
  with grant_to_unknown_group_is_internal [of background quiet_env "world_of demo_tables" "\<lparr>pb_ClientId = ''app''\<rparr>" "''g9''" "Client ref_sdk" "[]"]
  show ?thesis by auto
qed

end
