(* ===== verification/WorkerPool.thy ===== *)
theory WorkerPool
  imports HookPrelude
begin

text \<open>
  The worker pool of \<^verbatim>\<open>internal/pool\<close>: the bounded job queue, the workers' loop \<open>consume\<close> with its
  \<open>recover\<close>, \<open>execute\<close> with its deferred \<open>wg.Done()\<close>, \<open>Submit\<close> and \<open>Stop\<close>. Goroutines
  interleave, so the pool is a step relation: one step is one blocking point of one goroutine, and the
  scheduler may take any step that is enabled. A client uses the pool the way the hook service does: a
  channel of capacity one and a wait group per job (\<open>dispatch\<close>), then \<open>Wait\<close>, \<open>close\<close> and a receive
  (\<open>collect\<close>). The theory shows that in every reachable state no job is lost or run twice, no
  send blocks or meets a closed channel and no wait group goes negative, when a job is certain to be
  finished, and when it never is.
\<close>

section \<open>Jobs, results and workers\<close>

text \<open>What \<open>execute\<close> finds in the field \<open>command\<close>: a \<open>func()\<close>, a \<open>func() any\<close>, or
  something else.\<close>

datatype command = FuncVoid | FuncAny | NotAFunc

record job =
  job_id :: nat
  job_command :: command
  job_results :: nat
  job_wg :: nat

datatype 'v dyn = DynTrue | DynVal 'v

record 'v Result =
  rs_key :: nat
  rs_Value :: "'v dyn"

definition newJob :: "nat \<Rightarrow> command \<Rightarrow> nat \<Rightarrow> nat \<Rightarrow> job" where
  "newJob uuid cmd results wg = \<lparr>job_id = uuid, job_command = cmd, job_results = results, job_wg = wg\<rparr>"

definition NewResult :: "nat \<Rightarrow> 'v dyn \<Rightarrow> 'v Result" where
  "NewResult key value = \<lparr>rs_key = key, rs_Value = value\<rparr>"

record 'v chan =
  ch_buf :: "'v Result list"
  ch_cap :: nat
  ch_closed :: bool

text \<open>Where a worker is: at the \<open>select\<close> of \<open>consume\<close>, at the \<open>select\<close> of \<open>execute\<close>, inside
  the command, at the send of the result, or returned.\<close>

datatype 'v worker = Idle | Holding job | Running job | Sending job "'v dyn" | Gone

text \<open>\<open>wp_chans\<close> and \<open>wp_wgs\<close> are the clients' channels and wait groups, \<open>wp_fresh\<close> the
  number of identifiers handed out so far.\<close>

record 'v pool =
  wp_workers :: nat
  wp_jobs :: "job list"
  wp_shutdown :: bool
  wp_wg :: int
  wp_started :: bool
  wp_consumers :: "'v worker list"
  wp_fresh :: nat
  wp_chans :: "nat \<Rightarrow> 'v chan"
  wp_wgs :: "nat \<Rightarrow> int"

section \<open>Operations\<close>

text \<open>\<open>make(chan *job, 2*workers)\<close> panics when the size is negative, also after wrapping around.\<close>

definition NewWorkerPool :: "int \<Rightarrow> 'v pool option" where
  "NewWorkerPool workers =
     (if workers < 0 \<or> 2 * workers \<ge> 2 ^ 63 then None
      else Some \<lparr>wp_workers = nat workers, wp_jobs = [], wp_shutdown = False, wp_wg = 0, wp_started = False,
                 wp_consumers = [], wp_fresh = 0,
                 wp_chans = (\<lambda>k. \<lparr>ch_buf = [], ch_cap = 1, ch_closed = False\<rparr>), wp_wgs = (\<lambda>k. 0)\<rparr>)"

definition pool_start :: "'v pool \<Rightarrow> 'v pool" where
  "pool_start p = p\<lparr>wp_started := True, wp_wg := wp_wg p + int (wp_workers p),
                   wp_consumers := replicate (wp_workers p) Idle\<rparr>"

definition Submit :: "command \<Rightarrow> nat \<Rightarrow> nat \<Rightarrow> 'v pool \<Rightarrow> nat res \<times> 'v pool" where
  "Submit cmd results wg p =
     (let j = newJob (wp_fresh p) cmd results wg; p1 = p\<lparr>wp_fresh := wp_fresh p + 1\<rparr> in
      if length (wp_jobs p) < 2 * wp_workers p then (Inr (job_id j), p1\<lparr>wp_jobs := wp_jobs p @ [j]\<rparr>)
      else (Inl (ErrorNew ''WorkerPool queue is full''), p1))"

definition Stop_signal :: "'v pool \<Rightarrow> 'v pool" where
  "Stop_signal p = p\<lparr>wp_shutdown := True\<rparr>"

text \<open>\<open>Stop\<close> comes back once the pool's own wait group is at zero.\<close>

definition Stop_returns :: "'v pool \<Rightarrow> bool" where
  "Stop_returns p = (wp_shutdown p \<and> wp_wg p = 0)"

text \<open>A panic inside \<open>consume\<close> is recovered there: the worker counts itself down and returns. A wait
  group that goes negative panics too.\<close>

definition retire :: "nat \<Rightarrow> 'v pool \<Rightarrow> 'v pool" where
  "retire i p = p\<lparr>wp_consumers := (wp_consumers p)[i := Gone], wp_wg := wp_wg p - 1\<rparr>"

definition wg_done :: "nat \<Rightarrow> 'v pool \<Rightarrow> bool \<times> 'v pool" where
  "wg_done k p = (let n = wp_wgs p k - 1 in (n < 0, p\<lparr>wp_wgs := (wp_wgs p)(k := n)\<rparr>))"

text \<open>The end of \<open>execute\<close>: the deferred \<open>wg.Done()\<close>, then back to the loop, or up to the
  \<open>recover\<close> when there is a panic.\<close>

definition leave_execute :: "bool \<Rightarrow> nat \<Rightarrow> job \<Rightarrow> 'v pool \<Rightarrow> 'v pool" where
  "leave_execute panicking i j p =
     (let (neg, p1) = wg_done (job_wg j) p in
      if panicking \<or> neg then retire i p1 else p1\<lparr>wp_consumers := (wp_consumers p1)[i := Idle]\<rparr>)"

definition worker_at :: "'v pool \<Rightarrow> nat \<Rightarrow> 'v worker" where
  "worker_at p i = (if i < length (wp_consumers p) then wp_consumers p ! i else Gone)"

text \<open>The two ready cases of the \<open>select\<close> in \<open>consume\<close>. When both are, either may be taken.\<close>

definition consume_done :: "nat \<Rightarrow> 'v pool \<Rightarrow> 'v pool option" where
  "consume_done i p = (case worker_at p i of Idle \<Rightarrow> if wp_shutdown p then Some (retire i p) else None | _ \<Rightarrow> None)"

definition consume_job :: "nat \<Rightarrow> 'v pool \<Rightarrow> 'v pool option" where
  "consume_job i p =
     (case worker_at p i of
        Idle \<Rightarrow> (case wp_jobs p of [] \<Rightarrow> None
                | j # js \<Rightarrow> Some (p\<lparr>wp_jobs := js, wp_consumers := (wp_consumers p)[i := Holding j]\<rparr>))
      | _ \<Rightarrow> None)"

definition execute_begin :: "nat \<Rightarrow> 'v pool \<Rightarrow> 'v pool option" where
  "execute_begin i p =
     (case worker_at p i of
        Holding j \<Rightarrow> Some (if wp_shutdown p \<or> job_command j = NotAFunc then leave_execute False i j p
                         else p\<lparr>wp_consumers := (wp_consumers p)[i := Running j]\<rparr>)
      | _ \<Rightarrow> None)"

text \<open>The command comes back with a value (\<open>Some v\<close>; the value is ignored for a \<open>func()\<close>) or
  panics (\<open>None\<close>).\<close>

definition execute_call :: "nat \<Rightarrow> 'v option \<Rightarrow> 'v pool \<Rightarrow> 'v pool option" where
  "execute_call i outcome p =
     (case worker_at p i of
        Running j \<Rightarrow> Some (case outcome of None \<Rightarrow> leave_execute True i j p
          | Some v \<Rightarrow> p\<lparr>wp_consumers := (wp_consumers p)[i := Sending j (if job_command j = FuncVoid then DynTrue else DynVal v)]\<rparr>)
      | _ \<Rightarrow> None)"

definition execute_send :: "nat \<Rightarrow> 'v pool \<Rightarrow> 'v pool option" where
  "execute_send i p =
     (case worker_at p i of
        Sending j v \<Rightarrow>
          (let ch = wp_chans p (job_results j) in
           if ch_closed ch then Some (leave_execute True i j p)
           else if length (ch_buf ch) < ch_cap ch
           then Some (leave_execute False i j (p\<lparr>wp_chans := (wp_chans p)(job_results j :=
                        ch\<lparr>ch_buf := ch_buf ch @ [NewResult (job_id j) v]\<rparr>)\<rparr>))
           else None)
      | _ \<Rightarrow> None)"

section \<open>Clients\<close>

text \<open>How \<open>ProcessRequest\<close> hands over a job: a fresh channel and wait group, \<open>Add(1)\<close>, \<open>Submit\<close>, and
  \<open>Done()\<close> when that is refused.\<close>

definition dispatch :: "command \<Rightarrow> 'v pool \<Rightarrow> nat res \<times> 'v pool" where
  "dispatch cmd p =
     (let k = wp_fresh p; p1 = p\<lparr>wp_wgs := (wp_wgs p)(k := wp_wgs p k + 1)\<rparr> in
      case Submit cmd k k p1 of
        (Inl e, p2) \<Rightarrow> (Inl e, snd (wg_done k p2))
      | (Inr r, p2) \<Rightarrow> (Inr r, p2))"

text \<open>\<open>Wait\<close>, \<open>close\<close> and the receive from the closed channel: blocked (\<open>None\<close>) while the
  wait group is not at zero, otherwise the buffered result, if there is one.\<close>

definition collect :: "nat \<Rightarrow> 'v pool \<Rightarrow> ('v Result option \<times> 'v pool) option" where
  "collect k p =
     (if wp_wgs p k \<noteq> 0 then None
      else let ch = wp_chans p k in
           Some (case ch_buf ch of [] \<Rightarrow> None | r # _ \<Rightarrow> Some r,
                 p\<lparr>wp_chans := (wp_chans p)(k := ch\<lparr>ch_closed := True, ch_buf := tl (ch_buf ch)\<rparr>)\<rparr>))"

section \<open>The step relation\<close>

datatype 'v action =
    AStart | ADispatch nat command bool | ACollect nat | AStop
  | ATake nat | ABegin nat | ACall nat "'v option" | ASend nat | ALeave

definition job_at :: "'v pool \<Rightarrow> nat \<Rightarrow> nat" where
  "job_at p i = (case worker_at p i of Holding j \<Rightarrow> job_id j | Running j \<Rightarrow> job_id j | Sending j v \<Rightarrow> job_id j | _ \<Rightarrow> 0)"

inductive worker_step :: "'v pool \<Rightarrow> 'v action \<Rightarrow> 'v pool \<Rightarrow> bool" where
  leave: "consume_done i p = Some p' \<Longrightarrow> worker_step p ALeave p'"
| take: "consume_job i p = Some p' \<Longrightarrow> worker_step p (ATake (job_id (hd (wp_jobs p)))) p'"
| begins: "execute_begin i p = Some p' \<Longrightarrow> worker_step p (ABegin (job_at p i)) p'"
| call: "execute_call i r p = Some p' \<Longrightarrow> worker_step p (ACall (job_at p i) r) p'"
| send: "execute_send i p = Some p' \<Longrightarrow> worker_step p (ASend (job_at p i)) p'"

inductive pool_step :: "'v pool \<Rightarrow> 'v action \<Rightarrow> 'v pool \<Rightarrow> bool" where
  worker: "worker_step p a p' \<Longrightarrow> pool_step p a p'"
| start: "\<not> wp_started p \<Longrightarrow> pool_step p AStart (pool_start p)"
| dispatch: "dispatch cmd p = (r, p') \<Longrightarrow> pool_step p (ADispatch (wp_fresh p) cmd (is_ok r)) p'"
| collect: "collect k p = Some (r, p') \<Longrightarrow> k < wp_fresh p \<Longrightarrow> pool_step p (ACollect k) p'"
| stop: "pool_step p AStop (Stop_signal p)"

inductive pool_run :: "'v pool \<Rightarrow> 'v action list \<Rightarrow> 'v pool \<Rightarrow> bool" for p0 where
  init: "pool_run p0 [] p0"
| step: "pool_run p0 tr p \<Longrightarrow> pool_step p a p' \<Longrightarrow> pool_run p0 (tr @ [a]) p'"

inductive_cases worker_stepE: "worker_step p a p'"
inductive_cases pool_stepE: "pool_step p a p'"

section \<open>The invariant\<close>

fun job_of :: "'v worker \<Rightarrow> job option" where
  "job_of (Holding j) = Some j"
| "job_of (Running j) = Some j"
| "job_of (Sending j v) = Some j"
| "job_of w = None"

definition holds :: "nat \<Rightarrow> 'v worker \<Rightarrow> int" where
  "holds k w = (case job_of w of None \<Rightarrow> 0 | Some j \<Rightarrow> if job_id j = k then 1 else 0)"

definition alive :: "'v worker \<Rightarrow> int" where
  "alive w = (if w = Gone then 0 else 1)"

text \<open>How many times the pool still has the job \<open>k\<close>: in the queue, or in the hands of a worker.\<close>

definition pending :: "'v pool \<Rightarrow> nat \<Rightarrow> int" where
  "pending p k = int (count_list (map job_id (wp_jobs p)) k) + sum_list (map (holds k) (wp_consumers p))"

definition own_job :: "nat \<Rightarrow> job \<Rightarrow> bool" where
  "own_job n j \<longleftrightarrow> job_results j = job_id j \<and> job_wg j = job_id j \<and> job_id j < n"

text \<open>The channel of job \<open>k\<close>: capacity one, at most the job's own result, and untouched while the
  job is still in the pool.\<close>

definition chan_ok :: "'v pool \<Rightarrow> nat \<Rightarrow> bool" where
  "chan_ok p k \<longleftrightarrow> (let ch = wp_chans p k in
     ch_cap ch = 1 \<and> length (ch_buf ch) \<le> 1 \<and> (\<forall>r \<in> set (ch_buf ch). rs_key r = k)
     \<and> (wp_wgs p k = 1 \<or> wp_fresh p \<le> k \<longrightarrow> ch_buf ch = [] \<and> \<not> ch_closed ch))"

definition pool_inv :: "'v pool \<Rightarrow> bool" where
  "pool_inv p \<longleftrightarrow>
     length (wp_jobs p) \<le> 2 * wp_workers p
   \<and> (\<forall>k. wp_wgs p k = pending p k \<and> pending p k \<le> 1)
   \<and> (\<forall>j \<in> set (wp_jobs p). own_job (wp_fresh p) j)
   \<and> (\<forall>w \<in> set (wp_consumers p). \<forall>j. job_of w = Some j \<longrightarrow> own_job (wp_fresh p) j)
   \<and> (\<forall>k. chan_ok p k)
   \<and> wp_wg p = sum_list (map alive (wp_consumers p))
   \<and> length (wp_consumers p) = (if wp_started p then wp_workers p else 0)"

lemma holds_nonneg: "0 \<le> holds k w" by (simp add: holds_def split: option.splits)

lemma sum_holds_nonneg: "0 \<le> sum_list (map (holds k) ws)"
  by (rule sum_list_nonneg) (auto simp: holds_nonneg)

lemma pending_nonneg: "0 \<le> pending p k"
  by (simp add: pending_def sum_holds_nonneg)

lemma holds_le_sum: "w \<in> set ws \<Longrightarrow> holds k w \<le> sum_list (map (holds k) ws)"
proof (induction ws)
  case (Cons v ws)
  show ?case
  proof (cases "w = v")
    case True
    then show ?thesis using sum_holds_nonneg [of k ws] by simp
  next
    case False
    with Cons have "holds k w \<le> sum_list (map (holds k) ws)" by simp
    then show ?thesis using holds_nonneg [of k v] by simp
  qed
qed simp

lemma sum_update:
  fixes f :: "'v worker \<Rightarrow> int"
  shows "i < length ws \<Longrightarrow> sum_list (map f (ws[i := w])) = sum_list (map f ws) - f (ws ! i) + f w"
proof (induction ws arbitrary: i)
  case (Cons v ws)
  then show ?case by (cases i) simp_all
qed simp

lemma pending_update:
  assumes "worker_at p i = v" "v \<noteq> Gone"
  shows "pending (p\<lparr>wp_consumers := (wp_consumers p)[i := w]\<rparr>) k = pending p k - holds k v + holds k w"
  using assms by (auto simp: pending_def worker_at_def sum_update split: if_splits)

lemma worker_at_in: "worker_at p i = w \<Longrightarrow> w \<noteq> Gone \<Longrightarrow> i < length (wp_consumers p) \<and> w \<in> set (wp_consumers p)"
  by (auto simp: worker_at_def split: if_splits)

lemma pool_invD:
  assumes "pool_inv p"
  shows "length (wp_jobs p) \<le> 2 * wp_workers p" "wp_wgs p k = pending p k" "pending p k \<le> 1"
    "j \<in> set (wp_jobs p) \<Longrightarrow> own_job (wp_fresh p) j"
    "w \<in> set (wp_consumers p) \<Longrightarrow> job_of w = Some j \<Longrightarrow> own_job (wp_fresh p) j"
    "chan_ok p k" "wp_wg p = sum_list (map alive (wp_consumers p))"
    "length (wp_consumers p) = (if wp_started p then wp_workers p else 0)"
  using assms unfolding pool_inv_def by blast+

text \<open>A job in the hands of a worker is nowhere else; its wait group is at one and its channel is empty
  and open.\<close>

lemma held_job:
  assumes "pool_inv p" and "worker_at p i = w" and "job_of w = Some j"
  shows "own_job (wp_fresh p) j" "pending p (job_id j) = 1" "wp_wgs p (job_id j) = 1"
    "ch_buf (wp_chans p (job_id j)) = []" "\<not> ch_closed (wp_chans p (job_id j))" "ch_cap (wp_chans p (job_id j)) = 1"
proof -
  from assms(3) have w: "w \<noteq> Gone" by auto
  note ins = worker_at_in [OF assms(2) w]
  from pool_invD(5) [OF assms(1) conjunct2 [OF ins] assms(3)] show "own_job (wp_fresh p) j" .
  have "1 \<le> pending p (job_id j)"
    using holds_le_sum [OF conjunct2 [OF ins], of "job_id j"] assms(3) by (simp add: pending_def holds_def)
  with pool_invD(3) [OF assms(1)] show one: "pending p (job_id j) = 1" by (simp add: order_antisym)
  with pool_invD(2) [OF assms(1)] show wg: "wp_wgs p (job_id j) = 1" by simp
  from pool_invD(6) [OF assms(1), of "job_id j"] wg
  show "ch_buf (wp_chans p (job_id j)) = []" "\<not> ch_closed (wp_chans p (job_id j))" "ch_cap (wp_chans p (job_id j)) = 1"
    by (simp_all add: chan_ok_def Let_def)
qed

lemma own_job_mono: "own_job n j \<Longrightarrow> n \<le> m \<Longrightarrow> own_job m j" by (auto simp: own_job_def)


subsection \<open>Workers keep it\<close>

lemma chan_ok_frame [simp]:
  "chan_ok (p\<lparr>wp_consumers := ws\<rparr>) = chan_ok p" "chan_ok (p\<lparr>wp_wg := n\<rparr>) = chan_ok p"
  "chan_ok (p\<lparr>wp_jobs := js\<rparr>) = chan_ok p"
  by (rule ext, simp add: chan_ok_def)+

lemma set_update_cases: "w \<in> set (xs[i := x]) \<Longrightarrow> w = x \<or> w \<in> set xs"
  using set_update_subset_insert [of xs i x] by blast

lemma inv_move:
  assumes I: "pool_inv p" and at: "worker_at p i = v" and v: "v \<noteq> Gone" "w \<noteq> Gone" and same: "job_of w = job_of v"
  shows "pool_inv (p\<lparr>wp_consumers := (wp_consumers p)[i := w]\<rparr>)"
proof -
  let ?q = "p\<lparr>wp_consumers := (wp_consumers p)[i := w]\<rparr>"
  note ins = worker_at_in [OF at v(1)]
  have pend: "pending ?q k = pending p k" for k
    by (simp add: pending_update [OF at v(1)] holds_def same)
  have alive: "sum_list (map alive (wp_consumers ?q)) = sum_list (map alive (wp_consumers p))"
    using ins at v by (auto simp: sum_update alive_def worker_at_def split: if_splits)
  have jobs: "own_job (wp_fresh p) j" if "u \<in> set (wp_consumers ?q)" "job_of u = Some j" for u j
    using that pool_invD(5) [OF I] ins same by (auto dest!: set_update_cases)
  from I show ?thesis
    unfolding pool_inv_def pend alive using jobs by (simp, blast)
qed

lemma leave_execute_fields:
  assumes "pool_inv p" and "worker_at p i = v" and "job_of v = Some j"
  shows "leave_execute pan i j (p\<lparr>wp_chans := chs\<rparr>) = p\<lparr>wp_chans := chs, wp_wgs := (wp_wgs p)(job_id j := 0),
       wp_consumers := (wp_consumers p)[i := if pan then Gone else Idle], wp_wg := (if pan then wp_wg p - 1 else wp_wg p)\<rparr>"
  using held_job [OF assms(1-3)]
  by (simp add: leave_execute_def wg_done_def retire_def own_job_def Let_def)

lemma inv_leave:
  assumes I: "pool_inv p" and at: "worker_at p i = v" and j: "job_of v = Some j"
    and ch: "ch_cap ch = 1" "length (ch_buf ch) \<le> 1" "\<forall>r \<in> set (ch_buf ch). rs_key r = job_id j"
  shows "pool_inv (leave_execute pan i j (p\<lparr>wp_chans := (wp_chans p)(job_id j := ch)\<rparr>))" (is "pool_inv ?q")
proof -
  let ?w = "if pan then Gone else Idle :: 'a worker"
  note q = leave_execute_fields [OF I at j, of pan "(wp_chans p)(job_id j := ch)"]
  note held = held_job [OF I at j]
  from j have v: "v \<noteq> Gone" by auto
  note ins = worker_at_in [OF at v]
  have pend: "pending ?q k = (if k = job_id j then 0 else pending p k)" for k
  proof -
    have "pending ?q k = pending (p\<lparr>wp_consumers := (wp_consumers p)[i := ?w]\<rparr>) k"
      unfolding q by (simp add: pending_def)
    also have "\<dots> = pending p k - holds k v + holds k ?w" by (rule pending_update [OF at v])
    finally show ?thesis using j held(2) by (simp add: holds_def)
  qed
  have alive: "wp_wg ?q = sum_list (map alive (wp_consumers ?q))"
    unfolding q using pool_invD(7) [OF I] ins at v by (auto simp: sum_update alive_def worker_at_def split: if_splits)
  have jobs: "own_job (wp_fresh ?q) j'" if "u \<in> set (wp_consumers ?q)" "job_of u = Some j'" for u j'
    using that pool_invD(5) [OF I] unfolding q by (auto dest!: set_update_cases split: if_splits)
  have chans: "chan_ok ?q k" for k
    using pool_invD(6) [OF I, of k] ch held(1) unfolding q by (simp add: chan_ok_def Let_def own_job_def)
  have wgs: "wp_wgs ?q k = pending ?q k \<and> pending ?q k \<le> 1" for k
    using pool_invD(2,3) [OF I, of k] unfolding pend unfolding q by simp
  have rest: "length (wp_jobs ?q) \<le> 2 * wp_workers ?q" "\<forall>j \<in> set (wp_jobs ?q). own_job (wp_fresh ?q) j"
    "length (wp_consumers ?q) = (if wp_started ?q then wp_workers ?q else 0)"
    using pool_invD(1,4,8) [OF I] unfolding q by simp_all
  show ?thesis unfolding pool_inv_def using alive jobs chans wgs rest by blast
qed

lemma inv_leave_same:
  assumes I: "pool_inv p" and at: "worker_at p i = v" and j: "job_of v = Some j"
  shows "pool_inv (leave_execute pan i j p)"
  using inv_leave [OF assms, of "wp_chans p (job_id j)" pan] pool_invD(6) [OF I, of "job_id j"]
  by (simp add: chan_ok_def Let_def)

lemma inv_retire:
  assumes I: "pool_inv p" and at: "worker_at p i = Idle"
  shows "pool_inv (retire i p)"
proof -
  have ins: "i < length (wp_consumers p)" "wp_consumers p ! i = Idle"
    using worker_at_in [OF at] at by (simp_all add: worker_at_def)
  have pend: "pending (retire i p) k = pending p k" for k
    using ins by (simp add: retire_def pending_def sum_update holds_def)
  have alive: "wp_wg (retire i p) = sum_list (map alive (wp_consumers (retire i p)))"
    using pool_invD(7) [OF I] ins by (simp add: retire_def sum_update alive_def)
  have jobs: "own_job (wp_fresh p) j" if "u \<in> set ((wp_consumers p)[i := Gone])" "job_of u = Some j" for u j
    using that pool_invD(5) [OF I] by (auto dest!: set_update_cases)
  have chans: "chan_ok (retire i p) = chan_ok p" by (simp add: retire_def)
  have rest: "length (wp_jobs (retire i p)) \<le> 2 * wp_workers (retire i p)" "\<forall>j \<in> set (wp_jobs (retire i p)). own_job (wp_fresh (retire i p)) j"
    "length (wp_consumers (retire i p)) = (if wp_started (retire i p) then wp_workers (retire i p) else 0)"
    "wp_wgs (retire i p) = wp_wgs p"
    using pool_invD(1,4,8) [OF I] by (simp_all add: retire_def)
  show ?thesis
    unfolding pool_inv_def pend chans rest(4) using alive rest(1-3) jobs pool_invD(2,3,6) [OF I]
    by (simp add: retire_def, blast)
qed

lemma inv_take:
  assumes I: "pool_inv p" and at: "worker_at p i = Idle" and js: "wp_jobs p = j # js"
  shows "pool_inv (p\<lparr>wp_jobs := js, wp_consumers := (wp_consumers p)[i := Holding j]\<rparr>)" (is "pool_inv ?q")
proof -
  have ins: "i < length (wp_consumers p)" "wp_consumers p ! i = Idle"
    using worker_at_in [OF at] at by (simp_all add: worker_at_def)
  have pend: "pending ?q k = pending p k" for k
    using ins js by (simp add: pending_def sum_update holds_def)
  have alive: "sum_list (map alive (wp_consumers ?q)) = sum_list (map alive (wp_consumers p))"
    using ins by (simp add: sum_update alive_def)
  have jobs: "own_job (wp_fresh p) j'" if "u \<in> set ((wp_consumers p)[i := Holding j])" "job_of u = Some j'" for u j'
    using that pool_invD(4,5) [OF I] js by (auto dest!: set_update_cases)
  have "length js \<le> 2 * wp_workers p" "\<forall>j \<in> set js. own_job (wp_fresh p) j"
    using pool_invD(1,4) [OF I] js by auto
  with pool_invD(2,3,6-8) [OF I] jobs show ?thesis
    unfolding pool_inv_def pend alive by (simp, blast)
qed

lemma worker_step_inv: "worker_step p a p' \<Longrightarrow> pool_inv p \<Longrightarrow> pool_inv p'"
proof (induction rule: worker_step.induct)
  case (leave i p p')
  then show ?case by (auto simp: consume_done_def intro: inv_retire split: worker.splits if_splits)
next
  case (take i p p')
  then show ?case by (auto simp: consume_job_def intro: inv_take split: worker.splits list.splits)
next
  case (begins i p p')
  then show ?case
    by (auto simp: execute_begin_def split: worker.splits if_splits intro: inv_leave_same inv_move)
next
  case (call i r p p')
  then show ?case
    by (auto simp: execute_call_def split: worker.splits option.splits intro: inv_leave_same inv_move)
next
  case (send i p p')
  then obtain j v where at: "worker_at p i = Sending j v" by (auto simp: execute_send_def split: worker.splits)
  note held = held_job [OF send(2) at, of j]
  have "p' = leave_execute False i j (p\<lparr>wp_chans := (wp_chans p)(job_id j :=
          (wp_chans p (job_id j))\<lparr>ch_buf := [NewResult (job_id j) v]\<rparr>)\<rparr>)"
    using send(1) at held by (simp add: execute_send_def own_job_def Let_def)
  then show ?case using inv_leave [OF send(2) at, of j "(wp_chans p (job_id j))\<lparr>ch_buf := [NewResult (job_id j) v]\<rparr>" False] held
    by (simp add: NewResult_def)
qed


subsection \<open>Clients keep it\<close>

lemma pending_fresh:
  assumes I: "pool_inv p" and k: "wp_fresh p \<le> k"
  shows "pending p k = 0"
proof -
  from I k have "k \<notin> set (map job_id (wp_jobs p))" by (auto simp: own_job_def dest: pool_invD(4))
  moreover have "holds k w = 0" if "w \<in> set (wp_consumers p)" for w
    using pool_invD(5) [OF I that] k by (fastforce simp: holds_def own_job_def split: option.splits)
  then have "sum_list (map (holds k) ws) = 0" if "set ws \<subseteq> set (wp_consumers p)" for ws
    using that by (induction ws) simp_all
  ultimately show ?thesis by (simp add: pending_def count_notin del: set_map)
qed

lemma dispatch_cases:
  assumes "pool_inv p"
  obtains (accepted) "length (wp_jobs p) < 2 * wp_workers p"
      "\<And>cmd. dispatch cmd p = (Inr (wp_fresh p), p\<lparr>wp_wgs := (wp_wgs p)(wp_fresh p := 1), wp_fresh := wp_fresh p + 1,
         wp_jobs := wp_jobs p @ [newJob (wp_fresh p) cmd (wp_fresh p) (wp_fresh p)]\<rparr>)"
  | (refused) "length (wp_jobs p) = 2 * wp_workers p"
      "\<And>cmd. dispatch cmd p = (Inl (ErrorNew ''WorkerPool queue is full''), p\<lparr>wp_fresh := wp_fresh p + 1\<rparr>)"
proof (cases "length (wp_jobs p) < 2 * wp_workers p")
  case True
  with pending_fresh [OF assms order_refl] pool_invD(2) [OF assms, of "wp_fresh p"] show ?thesis
    by (intro accepted) (simp_all add: dispatch_def Submit_def newJob_def Let_def)
next
  case False
  with pool_invD(1) [OF assms] show ?thesis
    by (intro refused) (simp_all add: dispatch_def Submit_def wg_done_def Let_def)
qed

lemma pending_frame [simp]:
  "pending (p\<lparr>wp_fresh := n\<rparr>) = pending p" "pending (p\<lparr>wp_chans := chs\<rparr>) = pending p"
  "pending (p\<lparr>wp_wgs := g\<rparr>) = pending p" "pending (p\<lparr>wp_shutdown := b\<rparr>) = pending p"
  by (rule ext, simp add: pending_def)+

lemma inv_dispatch:
  assumes I: "pool_inv p" and d: "dispatch cmd p = (r, p')"
  shows "pool_inv p'"
  using I
proof (cases rule: dispatch_cases)
  case accepted
  with d have p': "p' = p\<lparr>wp_wgs := (wp_wgs p)(wp_fresh p := 1), wp_fresh := wp_fresh p + 1,
      wp_jobs := wp_jobs p @ [newJob (wp_fresh p) cmd (wp_fresh p) (wp_fresh p)]\<rparr>" by simp
  have pend: "pending p' k = (if k = wp_fresh p then 1 else pending p k)" for k
    using pending_fresh [OF I order_refl] unfolding p' by (simp add: pending_def newJob_def)
  have chans: "chan_ok p' k" for k
    using pool_invD(6) [OF I, of k] unfolding p' by (cases "k = wp_fresh p") (simp_all add: chan_ok_def Let_def)
  have jobs: "own_job (wp_fresh p') j" if "u \<in> set (wp_consumers p')" "job_of u = Some j" for u j
    using pool_invD(5) [OF I, of u j] that unfolding p' by (simp add: own_job_def)
  have queue: "own_job (wp_fresh p') j" if "j \<in> set (wp_jobs p')" for j
    using pool_invD(4) [OF I, of j] that unfolding p' by (auto simp: newJob_def own_job_def)
  have wgs: "wp_wgs p' k = pending p' k \<and> pending p' k \<le> 1" for k
    using pool_invD(2,3) [OF I, of k] unfolding pend unfolding p' by simp
  have rest: "length (wp_jobs p') \<le> 2 * wp_workers p'" "wp_wg p' = sum_list (map alive (wp_consumers p'))"
    "length (wp_consumers p') = (if wp_started p' then wp_workers p' else 0)"
    using pool_invD(7,8) [OF I] accepted(1) unfolding p' by simp_all
  show ?thesis unfolding pool_inv_def using wgs jobs queue chans rest by blast
next
  case refused
  with d have p': "p' = p\<lparr>wp_fresh := wp_fresh p + 1\<rparr>" by simp
  have chans: "chan_ok p' k" for k
    using pool_invD(6) [OF I, of k] unfolding p' by (simp add: chan_ok_def Let_def)
  have jobs: "own_job (wp_fresh p') j" if "u \<in> set (wp_consumers p')" "job_of u = Some j" for u j
    using pool_invD(5) [OF I, of u j] that unfolding p' by (simp add: own_job_def)
  have queue: "own_job (wp_fresh p') j" if "j \<in> set (wp_jobs p')" for j
    using pool_invD(4) [OF I, of j] that unfolding p' by (simp add: own_job_def)
  have rest: "length (wp_jobs p') \<le> 2 * wp_workers p'" "wp_wg p' = sum_list (map alive (wp_consumers p'))"
    "length (wp_consumers p') = (if wp_started p' then wp_workers p' else 0)"
    "\<And>k. wp_wgs p' k = pending p' k \<and> pending p' k \<le> 1"
    using pool_invD(1-3,7,8) [OF I] unfolding p' by simp_all
  show ?thesis unfolding pool_inv_def using jobs queue chans rest by blast
qed

lemma inv_collect:
  assumes I: "pool_inv p" and c: "collect k p = Some (r, p')" "k < wp_fresh p"
  shows "pool_inv p'"
proof -
  let ?ch = "wp_chans p k"
  from c have wg: "wp_wgs p k = 0"
    and p': "p' = p\<lparr>wp_chans := (wp_chans p)(k := ?ch\<lparr>ch_closed := True, ch_buf := tl (ch_buf ?ch)\<rparr>)\<rparr>"
    by (auto simp: collect_def Let_def split: if_splits)
  have "chan_ok p' m" for m
    using pool_invD(6) [OF I, of m] wg c(2) list.set_sel(2) [of "ch_buf ?ch"] unfolding p'
    by (cases "ch_buf ?ch") (auto simp: chan_ok_def Let_def)
  then show ?thesis using I unfolding pool_inv_def p' by (simp, blast)
qed

lemma pool_step_inv: "pool_step p a p' \<Longrightarrow> pool_inv p \<Longrightarrow> pool_inv p'"
proof (induction rule: pool_step.induct)
  case (worker p a p')
  then show ?case by (rule worker_step_inv)
next
  case (start p)
  then have "wp_consumers p = []" using pool_invD(8) [OF start(2)] by simp
  moreover have "sum_list (map (holds k) (replicate n (Idle :: 'a worker))) = 0" for k n
    by (induction n) (simp_all add: holds_def)
  ultimately have pend: "pending (pool_start p) = pending p" by (intro ext) (simp add: pending_def pool_start_def)
  have alive: "sum_list (map alive (replicate n (Idle :: 'a worker))) = int n" for n
    by (induction n) (simp_all add: alive_def)
  have chans: "chan_ok (pool_start p) = chan_ok p" by (rule ext) (simp add: chan_ok_def pool_start_def)
  show ?case using start(2) \<open>wp_consumers p = []\<close> alive [of "wp_workers p"]
    unfolding pool_inv_def pend chans by (auto simp: pool_start_def)
next
  case (dispatch cmd p r p')
  then show ?case by (blast intro: inv_dispatch)
next
  case (collect k p r p')
  then show ?case by (blast intro: inv_collect)
next
  case (stop p)
  have "chan_ok (Stop_signal p) = chan_ok p" by (rule ext) (simp add: chan_ok_def Stop_signal_def)
  with stop show ?case unfolding pool_inv_def by (simp add: Stop_signal_def, blast)
qed

lemma NewWorkerPool_inv: "NewWorkerPool n = Some p \<Longrightarrow> pool_inv p"
  by (auto simp: NewWorkerPool_def pool_inv_def pending_def chan_ok_def split: if_splits)

lemma pool_run_inv: "pool_run p0 tr p \<Longrightarrow> pool_inv p0 \<Longrightarrow> pool_inv p"
  by (induction rule: pool_run.induct) (simp_all add: pool_step_inv)


section \<open>Histories\<close>

text \<open>What a worker step does to a well-formed pool.\<close>

lemma worker_step_shape:
  assumes "worker_step p a p'" and I: "pool_inv p"
  obtains (leaves) i where "a = ALeave" "worker_at p i = Idle" "wp_shutdown p" "p' = retire i p"
  | (takes) i j js where "a = ATake (job_id j)" "worker_at p i = Idle" "wp_jobs p = j # js"
      "p' = p\<lparr>wp_jobs := js, wp_consumers := (wp_consumers p)[i := Holding j]\<rparr>"
  | (runs) i j where "a = ABegin (job_id j)" "worker_at p i = Holding j" "\<not> wp_shutdown p" "job_command j \<noteq> NotAFunc"
      "p' = p\<lparr>wp_consumers := (wp_consumers p)[i := Running j]\<rparr>"
  | (skips) i j where "a = ABegin (job_id j)" "worker_at p i = Holding j" "wp_shutdown p \<or> job_command j = NotAFunc"
      "p' = p\<lparr>wp_wgs := (wp_wgs p)(job_id j := 0), wp_consumers := (wp_consumers p)[i := Idle]\<rparr>"
  | (panics) i j where "a = ACall (job_id j) None" "worker_at p i = Running j"
      "p' = p\<lparr>wp_wgs := (wp_wgs p)(job_id j := 0), wp_consumers := (wp_consumers p)[i := Gone], wp_wg := wp_wg p - 1\<rparr>"
  | (returns) i j x where "a = ACall (job_id j) (Some x)" "worker_at p i = Running j"
      "p' = p\<lparr>wp_consumers := (wp_consumers p)[i := Sending j (if job_command j = FuncVoid then DynTrue else DynVal x)]\<rparr>"
  | (sends) i j v where "a = ASend (job_id j)" "worker_at p i = Sending j v"
      "p' = p\<lparr>wp_chans := (wp_chans p)(job_id j := (wp_chans p (job_id j))\<lparr>ch_buf := [NewResult (job_id j) v]\<rparr>),
              wp_wgs := (wp_wgs p)(job_id j := 0), wp_consumers := (wp_consumers p)[i := Idle]\<rparr>"
  using assms(1)
proof (cases rule: worker_step.cases)
  case (leave i)
  then show ?thesis by (auto simp: consume_done_def split: worker.splits if_splits intro: leaves)
next
  case (take i)
  then show ?thesis by (auto simp: consume_job_def split: worker.splits list.splits intro: takes)
next
  case (begins i)
  then obtain j where at: "worker_at p i = Holding j" by (auto simp: execute_begin_def split: worker.splits)
  with begins leave_execute_fields [OF I at, of j False "wp_chans p"] show ?thesis
    by (cases "wp_shutdown p \<or> job_command j = NotAFunc") (auto simp: execute_begin_def job_at_def intro: runs skips)
next
  case (call i r)
  then obtain j where at: "worker_at p i = Running j" by (auto simp: execute_call_def split: worker.splits)
  with call leave_execute_fields [OF I at, of j True "wp_chans p"] show ?thesis
    by (cases r) (auto simp: execute_call_def job_at_def intro: panics returns)
next
  case (send i)
  then obtain j v where at: "worker_at p i = Sending j v" by (auto simp: execute_send_def split: worker.splits)
  note held = held_job [OF I at, of j]
  let ?ch = "(wp_chans p)(job_id j := (wp_chans p (job_id j))\<lparr>ch_buf := [NewResult (job_id j) v]\<rparr>)"
  have "p' = leave_execute False i j (p\<lparr>wp_chans := ?ch\<rparr>)"
    using send(2) at held by (simp add: execute_send_def own_job_def Let_def)
  with leave_execute_fields [OF I at, of j False ?ch] send(1) at show ?thesis
    by (intro sends [of j i v]) (simp_all add: job_at_def)
qed

fun takes_of :: "'v action list \<Rightarrow> nat list" where
  "takes_of [] = []"
| "takes_of (ATake k # tr) = k # takes_of tr"
| "takes_of (_ # tr) = takes_of tr"

fun accepts_of :: "'v action list \<Rightarrow> nat list" where
  "accepts_of [] = []"
| "accepts_of (ADispatch k c True # tr) = k # accepts_of tr"
| "accepts_of (_ # tr) = accepts_of tr"

definition calls :: "nat \<Rightarrow> 'v action list \<Rightarrow> nat" where
  "calls k tr = length (filter (\<lambda>a. \<exists>r. a = ACall k r) tr)"

lemma takes_of_append [simp]: "takes_of (tr @ tr') = takes_of tr @ takes_of tr'"
  by (induction tr rule: takes_of.induct) simp_all

lemma accepts_of_append [simp]: "accepts_of (tr @ tr') = accepts_of tr @ accepts_of tr'"
  by (induction tr rule: accepts_of.induct) simp_all

lemma calls_append [simp]: "calls k (tr @ tr') = calls k tr + calls k tr'"
  by (simp add: calls_def)

definition result_of :: "command \<Rightarrow> 'v \<Rightarrow> 'v dyn" where
  "result_of c x = (if c = FuncVoid then DynTrue else DynVal x)"

text \<open>What the client of job \<open>k\<close> can find once its wait group is at zero: the value its command
  returned, or nothing, and then the command panicked, was no function, or the pool was stopped.\<close>

definition finished_ok :: "'v action list \<Rightarrow> 'v pool \<Rightarrow> nat \<Rightarrow> command \<Rightarrow> bool" where
  "finished_ok tr p k c \<longleftrightarrow>
     (\<exists>x. ACall k (Some x) \<in> set tr \<and> ch_buf (wp_chans p k) = [NewResult k (result_of c x)])
   \<or> (ch_buf (wp_chans p k) = [] \<and> (ACall k None \<in> set tr \<or> AStop \<in> set tr \<or> c = NotAFunc))"

fun worker_ok :: "'v action list \<Rightarrow> 'v worker \<Rightarrow> bool" where
  "worker_ok tr (Holding j) = (ADispatch (job_id j) (job_command j) True \<in> set tr)"
| "worker_ok tr (Running j) = (ADispatch (job_id j) (job_command j) True \<in> set tr)"
| "worker_ok tr (Sending j v) = (ADispatch (job_id j) (job_command j) True \<in> set tr
     \<and> (\<exists>x. ACall (job_id j) (Some x) \<in> set tr \<and> v = result_of (job_command j) x))"
| "worker_ok tr w = True"

definition history :: "'v action list \<Rightarrow> 'v pool \<Rightarrow> bool" where
  "history tr p \<longleftrightarrow>
     (wp_shutdown p \<longleftrightarrow> AStop \<in> set tr)
   \<and> takes_of tr @ map job_id (wp_jobs p) = accepts_of tr
   \<and> (\<forall>j \<in> set (wp_jobs p). ADispatch (job_id j) (job_command j) True \<in> set tr)
   \<and> (\<forall>w \<in> set (wp_consumers p). worker_ok tr w)
   \<and> (\<forall>k c b. ADispatch k c b \<in> set tr \<longrightarrow> k < wp_fresh p)
   \<and> (\<forall>k c b c' b'. ADispatch k c b \<in> set tr \<longrightarrow> ADispatch k c' b' \<in> set tr \<longrightarrow> c = c' \<and> b = b')
   \<and> (\<forall>k c. ADispatch k c True \<in> set tr \<longrightarrow> ACollect k \<notin> set tr \<longrightarrow> wp_wgs p k = 0 \<longrightarrow> finished_ok tr p k c)"

lemma historyD:
  assumes "history tr p"
  shows "wp_shutdown p \<longleftrightarrow> AStop \<in> set tr" "takes_of tr @ map job_id (wp_jobs p) = accepts_of tr"
    "j \<in> set (wp_jobs p) \<Longrightarrow> ADispatch (job_id j) (job_command j) True \<in> set tr"
    "w \<in> set (wp_consumers p) \<Longrightarrow> worker_ok tr w"
    "ADispatch k c b \<in> set tr \<Longrightarrow> k < wp_fresh p"
    "ADispatch k c b \<in> set tr \<Longrightarrow> ADispatch k c' b' \<in> set tr \<Longrightarrow> c = c' \<and> b = b'"
    "ADispatch k c True \<in> set tr \<Longrightarrow> ACollect k \<notin> set tr \<Longrightarrow> wp_wgs p k = 0 \<Longrightarrow> finished_ok tr p k c"
  using assms unfolding history_def by blast+

lemma worker_ok_mono: "worker_ok tr w \<Longrightarrow> worker_ok (tr @ [a]) w" by (cases w) auto


lemma finished_ok_mono: "finished_ok tr p k c \<Longrightarrow> wp_chans p' k = wp_chans p k \<Longrightarrow> finished_ok (tr @ [a]) p' k c"
  by (auto simp: finished_ok_def)

lemma history_worker:
  assumes H: "history tr p"
    and a: "\<And>k c b. a \<noteq> ADispatch k c b" "\<And>k. a \<noteq> ACollect k" "a \<noteq> AStop"
    and same: "wp_shutdown p' = wp_shutdown p" "wp_fresh p' = wp_fresh p"
    and fifo: "takes_of [a] @ map job_id (wp_jobs p') = map job_id (wp_jobs p)"
    and queue: "set (wp_jobs p') \<subseteq> set (wp_jobs p)"
    and ws: "\<And>w. w \<in> set (wp_consumers p') \<Longrightarrow> w \<in> set (wp_consumers p) \<or> worker_ok (tr @ [a]) w"
    and fin: "\<And>k c. ADispatch k c True \<in> set tr \<Longrightarrow> wp_wgs p' k = 0 \<Longrightarrow>
        wp_wgs p k \<noteq> 0 \<or> wp_chans p' k \<noteq> wp_chans p k \<Longrightarrow> finished_ok (tr @ [a]) p' k c"
  shows "history (tr @ [a]) p'"
proof -
  note D = historyD [OF H]
  have acc: "accepts_of [a] = []" using a(1) by (cases a) auto
  have f: "finished_ok (tr @ [a]) p' k c"
    if "ADispatch k c True \<in> set (tr @ [a])" "ACollect k \<notin> set (tr @ [a])" "wp_wgs p' k = 0" for k c
  proof -
    from that a have d: "ADispatch k c True \<in> set tr" "ACollect k \<notin> set tr" by auto
    show ?thesis
    proof (cases "wp_wgs p k \<noteq> 0 \<or> wp_chans p' k \<noteq> wp_chans p k")
      case True
      with fin d(1) that(3) show ?thesis by blast
    next
      case False
      with D(7) [OF d] show ?thesis by (simp add: finished_ok_mono)
    qed
  qed
  have fifo': "takes_of (tr @ [a]) @ map job_id (wp_jobs p') = accepts_of (tr @ [a])"
    using fifo D(2) acc by simp
  have w: "worker_ok (tr @ [a]) w" if "w \<in> set (wp_consumers p')" for w
    using ws [OF that] D(4) worker_ok_mono by blast
  show ?thesis
    unfolding history_def using a same fifo' w f D(1,3,5,6) queue by (simp, blast)
qed

lemma history_worker_step:
  assumes H: "history tr p" and I: "pool_inv p" and st: "worker_step p a p'"
  shows "history (tr @ [a]) p'"
  using st I
proof (cases rule: worker_step_shape)
  case (leaves i)
  show ?thesis by (rule history_worker [OF H])
      (use leaves in \<open>auto simp: retire_def dest!: set_update_cases\<close>)
next
  case (takes i j js)
  show ?thesis by (rule history_worker [OF H])
      (use takes historyD(3) [OF H, of j] in \<open>auto dest!: set_update_cases\<close>)
next
  case (runs i j)
  have "worker_ok tr (Holding j)" using worker_at_in [OF runs(2)] historyD(4) [OF H] by blast
  show ?thesis by (rule history_worker [OF H])
      (use runs \<open>worker_ok tr (Holding j)\<close> in \<open>auto dest!: set_update_cases\<close>)
next
  case (skips i j)
  have "worker_ok tr (Holding j)" using worker_at_in [OF skips(2)] historyD(4) [OF H] by blast
  then have fin: "finished_ok (tr @ [a]) p' (job_id j) c" if "ADispatch (job_id j) c True \<in> set tr" for c
    using that historyD(1,6) [OF H] skips held_job [OF I skips(2), of j] by (fastforce simp: finished_ok_def)
  show ?thesis by (rule history_worker [OF H])
      (use skips fin in \<open>auto dest!: set_update_cases split: if_splits\<close>)
next
  case (panics i j)
  then have fin: "finished_ok (tr @ [a]) p' (job_id j) c" for c
    using held_job [OF I panics(2), of j] by (simp add: finished_ok_def)
  show ?thesis by (rule history_worker [OF H])
      (use panics fin in \<open>auto dest!: set_update_cases split: if_splits\<close>)
next
  case (returns i j x)
  have "worker_ok tr (Running j)" using worker_at_in [OF returns(2)] historyD(4) [OF H] by blast
  then have "worker_ok (tr @ [a]) (Sending j (if job_command j = FuncVoid then DynTrue else DynVal x))"
    using returns(1) by (auto simp: result_of_def)
  then show ?thesis using returns by (intro history_worker [OF H]) (auto dest!: set_update_cases)
next
  case (sends i j v)
  have w: "worker_ok tr (Sending j v)" using worker_at_in [OF sends(2)] historyD(4) [OF H] by blast
  have fin: "finished_ok (tr @ [a]) p' (job_id j) c" if "ADispatch (job_id j) c True \<in> set tr" for c
    using that w historyD(6) [OF H, of "job_id j" c True "job_command j" True] sends by (auto simp: finished_ok_def)
  show ?thesis by (rule history_worker [OF H])
      (use sends fin in \<open>auto dest!: set_update_cases split: if_splits\<close>)
qed


lemma history_dispatch:
  assumes H: "history tr p" and I: "pool_inv p" and d: "dispatch cmd p = (r, p')"
  shows "history (tr @ [ADispatch (wp_fresh p) cmd (is_ok r)]) p'" (is "history (tr @ [?a]) p'")
proof -
  note D = historyD [OF H]
  have new: "ADispatch (wp_fresh p) c b \<notin> set tr" for c b using D(5) by blast
  have w: "worker_ok (tr @ [?a]) w" if "w \<in> set (wp_consumers p)" for w
    using D(4) [OF that] by (rule worker_ok_mono)
  have fin: "finished_ok (tr @ [?a]) p' k c"
    if "ADispatch k c True \<in> set tr" "ACollect k \<notin> set tr" "wp_wgs p k = 0" "wp_chans p' = wp_chans p" for k c
    using finished_ok_mono [OF D(7) [OF that(1-3)]] that(4) by simp
  show ?thesis using I
  proof (cases rule: dispatch_cases)
    case accepted
    with d have r: "is_ok r" and p': "p' = p\<lparr>wp_wgs := (wp_wgs p)(wp_fresh p := 1), wp_fresh := wp_fresh p + 1,
      wp_jobs := wp_jobs p @ [newJob (wp_fresh p) cmd (wp_fresh p) (wp_fresh p)]\<rparr>" by auto
    have "finished_ok (tr @ [?a]) p' k c"
      if "ADispatch k c True \<in> set (tr @ [?a])" "ACollect k \<notin> set (tr @ [?a])" "wp_wgs p' k = 0" for k c
      using that fin [of k c] unfolding p' by (auto split: if_splits)
    with D(1-3) w new r show ?thesis
      unfolding history_def by (auto simp: p' newJob_def less_Suc_eq dest: D(5,6))
  next
    case refused
    with d have r: "\<not> is_ok r" and p': "p' = p\<lparr>wp_fresh := wp_fresh p + 1\<rparr>" by auto
    have "finished_ok (tr @ [?a]) p' k c"
      if "ADispatch k c True \<in> set (tr @ [?a])" "ACollect k \<notin> set (tr @ [?a])" "wp_wgs p' k = 0" for k c
      using that fin [of k c] r unfolding p' by auto
    with D(1-3) w new r show ?thesis
      unfolding history_def by (auto simp: p' less_Suc_eq dest: D(5,6))
  qed
qed

lemma history_collect:
  assumes H: "history tr p" and c: "collect k p = Some (r, p')"
  shows "history (tr @ [ACollect k]) p'"
proof -
  note D = historyD [OF H]
  from c have p': "p' = p\<lparr>wp_chans := (wp_chans p)(k := (wp_chans p k)\<lparr>ch_closed := True, ch_buf := tl (ch_buf (wp_chans p k))\<rparr>)\<rparr>"
    by (auto simp: collect_def Let_def split: if_splits)
  have "finished_ok (tr @ [ACollect k]) p' m c"
    if "ADispatch m c True \<in> set tr" "m \<noteq> k" "ACollect m \<notin> set tr" "wp_wgs p m = 0" for m c
    using finished_ok_mono [OF D(7) [OF that(1,3,4)]] that(2) by (simp add: p')
  with D(1-6) worker_ok_mono [where a = "ACollect k"] show ?thesis
    unfolding history_def p' by (simp, blast)
qed

lemma history_step:
  assumes "pool_step p a p'" "history tr p" "pool_inv p"
  shows "history (tr @ [a]) p'"
  using assms
proof (induction rule: pool_step.induct)
  case (worker p a p')
  then show ?case by (blast intro: history_worker_step)
next
  case (start p)
  show ?case by (rule history_worker [OF start(2)]) (auto simp: pool_start_def)
next
  case (dispatch cmd p r p')
  then show ?case by (blast intro: history_dispatch)
next
  case (collect k p r p')
  then show ?case by (blast intro: history_collect)
next
  case (stop p)
  note D = historyD [OF stop(1)]
  have "finished_ok (tr @ [AStop]) (Stop_signal p) k c"
    if "ADispatch k c True \<in> set tr" "ACollect k \<notin> set tr" "wp_wgs p k = 0" for k c
    using finished_ok_mono [OF D(7) [OF that]] by (simp add: Stop_signal_def)
  moreover have "worker_ok (tr @ [AStop]) w" if "w \<in> set (wp_consumers p)" for w
    using D(4) [OF that] by (rule worker_ok_mono)
  ultimately show ?case using D(2,3,5,6)
    unfolding history_def by (auto simp: Stop_signal_def)
qed

lemma pool_run_history:
  "pool_run p0 tr p \<Longrightarrow> NewWorkerPool n = Some p0 \<Longrightarrow> pool_inv p \<and> history tr p"
proof (induction rule: pool_run.induct)
  case init
  then show ?case
    by (auto simp: NewWorkerPool_inv) (auto simp: NewWorkerPool_def history_def split: if_splits)
next
  case (step tr p a p')
  then show ?case by (blast intro: history_step pool_step_inv)
qed

subsection \<open>Nothing runs twice\<close>

text \<open>Where the command of job \<open>k\<close> is still to be called.\<close>

fun to_call :: "nat \<Rightarrow> 'v worker \<Rightarrow> int" where
  "to_call k (Holding j) = (if job_id j = k then 1 else 0)"
| "to_call k (Running j) = (if job_id j = k then 1 else 0)"
| "to_call k w = 0"

definition uncalled :: "'v pool \<Rightarrow> nat \<Rightarrow> int" where
  "uncalled p k = int (count_list (map job_id (wp_jobs p)) k) + sum_list (map (to_call k) (wp_consumers p))"

definition once :: "'v action list \<Rightarrow> 'v pool \<Rightarrow> bool" where
  "once tr p \<longleftrightarrow> (\<forall>k. int (calls k tr) + uncalled p k \<le> 1) \<and> (\<forall>k \<ge> wp_fresh p. calls k tr = 0)"

lemma uncalled_le_pending: "uncalled p k \<le> pending p k"
proof -
  have "to_call k w \<le> holds k w" for w :: "'a worker" by (cases w) (simp_all add: holds_def)
  then show ?thesis by (simp add: uncalled_def pending_def sum_list_mono)
qed

lemma uncalled_move:
  assumes "worker_at p i = v" "v \<noteq> Gone" "wp_jobs p' = wp_jobs p" "wp_consumers p' = (wp_consumers p)[i := w]"
  shows "uncalled p' k = uncalled p k - to_call k v + to_call k w"
  using assms by (auto simp: uncalled_def worker_at_def sum_update split: if_splits)

lemma once_worker_step:
  assumes O: "once tr p" and I: "pool_inv p" and st: "worker_step p a p'"
  shows "once (tr @ [a]) p'"
  using st I
proof (cases rule: worker_step_shape)
  case (leaves i)
  then show ?thesis using O uncalled_move [OF leaves(2), of p' Gone] by (simp add: once_def calls_def retire_def)
next
  case (takes i j js)
  have "uncalled p' k = uncalled p k" for k
    using takes worker_at_in [OF takes(2)] by (simp add: uncalled_def sum_update worker_at_def)
  with takes O show ?thesis by (simp add: once_def calls_def)
next
  case (runs i j)
  then show ?thesis using O uncalled_move [OF runs(2), of p' "Running j"] by (simp add: once_def calls_def)
next
  case (skips i j)
  have "int (calls k (tr @ [a])) + uncalled p' k \<le> 1" for k
  proof -
    have "uncalled p' k \<le> uncalled p k" using uncalled_move [OF skips(2), of p' Idle k] skips(4) by simp
    moreover have "int (calls k tr) + uncalled p k \<le> 1" using O by (simp add: once_def)
    ultimately show ?thesis using skips(1) by (simp add: calls_def)
  qed
  with skips(1,4) O show ?thesis by (simp add: once_def calls_def)
next
  case (panics i j)
  have id: "job_id j < wp_fresh p" using held_job(1) [OF I panics(2), of j] by (simp add: own_job_def)
  then show ?thesis using O panics uncalled_move [OF panics(2), of p' Gone] by (auto simp: once_def calls_def)
next
  case (returns i j x)
  have id: "job_id j < wp_fresh p" using held_job(1) [OF I returns(2), of j] by (simp add: own_job_def)
  then show ?thesis using O returns uncalled_move [OF returns(2) _ _, of p' "Sending j (if job_command j = FuncVoid then DynTrue else DynVal x)"]
    by (auto simp: once_def calls_def)
next
  case (sends i j v)
  then show ?thesis using O uncalled_move [OF sends(2), of p' Idle] by (simp add: once_def calls_def)
qed


lemma once_step:
  assumes "pool_step p a p'" "once tr p" "pool_inv p"
  shows "once (tr @ [a]) p'"
  using assms
proof (induction rule: pool_step.induct)
  case (worker p a p')
  then show ?case by (blast intro: once_worker_step)
next
  case (start p)
  have "wp_consumers p = []" using pool_invD(8) [OF start(3)] start(1) by simp
  moreover have "sum_list (map (to_call k) (replicate n (Idle :: 'a worker))) = 0" for k n by (induction n) simp_all
  ultimately have "uncalled (pool_start p) = uncalled p" by (intro ext) (simp add: uncalled_def pool_start_def)
  with start show ?case by (simp add: once_def calls_def pool_start_def)
next
  case (dispatch cmd p r p')
  note O = dispatch(2)
  show ?case using dispatch(3)
  proof (cases rule: dispatch_cases)
    case accepted
    with dispatch(1) have p': "p' = p\<lparr>wp_wgs := (wp_wgs p)(wp_fresh p := 1), wp_fresh := wp_fresh p + 1,
        wp_jobs := wp_jobs p @ [newJob (wp_fresh p) cmd (wp_fresh p) (wp_fresh p)]\<rparr>" by simp
    have zero: "uncalled p (wp_fresh p) \<le> 0" "calls (wp_fresh p) tr = 0"
      using uncalled_le_pending [of p "wp_fresh p"] pending_fresh [OF dispatch(3), of "wp_fresh p"] O
      by (simp_all add: once_def)
    have "uncalled p' k = (if k = wp_fresh p then 1 + uncalled p k else uncalled p k)" for k
      unfolding p' by (simp add: uncalled_def newJob_def)
    with O zero show ?thesis by (auto simp: once_def p' calls_def)
  next
    case refused
    with dispatch(1) have p': "p' = p\<lparr>wp_fresh := wp_fresh p + 1\<rparr>" by simp
    have "uncalled p' = uncalled p" by (rule ext) (simp add: p' uncalled_def)
    with O show ?thesis by (simp add: once_def p' calls_def)
  qed
next
  case (collect k p r p')
  then have "uncalled p' = uncalled p" "wp_fresh p' = wp_fresh p"
    by (auto simp: collect_def uncalled_def Let_def split: if_splits)
  with collect show ?case by (simp add: once_def calls_def)
next
  case (stop p)
  have "uncalled (Stop_signal p) = uncalled p" by (rule ext) (simp add: uncalled_def Stop_signal_def)
  with stop show ?case by (simp add: once_def calls_def Stop_signal_def)
qed

lemma pool_run_once:
  assumes "pool_run p0 tr p" and new: "NewWorkerPool n = Some p0"
  shows "once tr p"
  using assms(1)
proof (induction rule: pool_run.induct)
  case init
  from new show ?case by (auto simp: NewWorkerPool_def once_def calls_def uncalled_def split: if_splits)
next
  case (step tr p a p')
  then show ?case using once_step pool_run_history [OF step(1) new] by blast
qed

section \<open>Progress\<close>

fun weight :: "'v worker \<Rightarrow> int" where
  "weight Gone = 0"
| "weight Idle = 1"
| "weight (Sending j v) = 3"
| "weight (Running j) = 4"
| "weight (Holding j) = 5"

definition work :: "'v pool \<Rightarrow> int" where
  "work p = 5 * int (length (wp_jobs p)) + sum_list (map weight (wp_consumers p))"

lemma work_nonneg: "0 \<le> work p"
proof -
  have "0 \<le> weight w" for w :: "'a worker" by (cases w) simp_all
  then have "0 \<le> sum_list (map weight (wp_consumers p))" by (intro sum_list_nonneg) auto
  then show ?thesis by (simp add: work_def)
qed

lemma work_move:
  assumes "worker_at p i = v" "v \<noteq> Gone" "wp_jobs p' = wp_jobs p" "wp_consumers p' = (wp_consumers p)[i := w]"
  shows "work p' = work p - weight v + weight w"
  using assms by (auto simp: work_def worker_at_def sum_update split: if_splits)

lemma worker_step_work:
  assumes st: "worker_step p a p'" and I: "pool_inv p"
  shows "work p' < work p"
  using st I
proof (cases rule: worker_step_shape)
  case (leaves i)
  then show ?thesis using work_move [OF leaves(2), of p' Gone] by (simp add: retire_def)
next
  case (takes i j js)
  then show ?thesis using worker_at_in [OF takes(2)] by (simp add: work_def sum_update worker_at_def)
next
  case (runs i j)
  then show ?thesis using work_move [OF runs(2), of p' "Running j"] by simp
next
  case (skips i j)
  then show ?thesis using work_move [OF skips(2), of p' Idle] by simp
next
  case (panics i j)
  then show ?thesis using work_move [OF panics(2), of p' Gone] by simp
next
  case (returns i j x)
  then show ?thesis
    using work_move [OF returns(2), of p' "Sending j (if job_command j = FuncVoid then DynTrue else DynVal x)"] by simp
next
  case (sends i j v)
  then show ?thesis using work_move [OF sends(2), of p' Idle] by simp
qed

text \<open>Runs in which only the workers move, with their length.\<close>

inductive worker_run :: "'v pool \<Rightarrow> nat \<Rightarrow> 'v pool \<Rightarrow> bool" for p where
  here: "worker_run p 0 p"
| more: "worker_run p n q \<Longrightarrow> worker_step q a r \<Longrightarrow> worker_run p (Suc n) r"

lemma worker_run_work: "worker_run p n q \<Longrightarrow> pool_inv p \<Longrightarrow> pool_inv q \<and> int n + work q \<le> work p"
proof (induction rule: worker_run.induct)
  case (more n q a r)
  then show ?case using worker_step_work [OF more(2)] worker_step_inv [OF more(2)] by fastforce
qed simp

text \<open>Every worker that is not at the loop's \<open>select\<close> can go on: its send finds room.\<close>

lemma quiescent_worker:
  assumes I: "pool_inv p" and quiet: "\<nexists>a p'. worker_step p a p'" and w: "w \<in> set (wp_consumers p)"
  shows "w = Gone \<or> (w = Idle \<and> wp_jobs p = [] \<and> \<not> wp_shutdown p)"
proof -
  from w obtain i where at: "worker_at p i = w" by (metis worker_at_def in_set_conv_nth)
  show ?thesis
  proof (cases w)
    case Idle
    have "\<not> wp_shutdown p"
    proof
      assume "wp_shutdown p"
      with at Idle have "consume_done i p = Some (retire i p)" by (simp add: consume_done_def)
      with quiet worker_step.leave show False by blast
    qed
    moreover have "wp_jobs p = []"
    proof (cases "wp_jobs p")
      case (Cons j js)
      with at Idle have "\<exists>p'. consume_job i p = Some p'" by (simp add: consume_job_def)
      with quiet worker_step.take show ?thesis by blast
    qed
    ultimately show ?thesis using Idle by simp
  next
    case (Holding j)
    with at have "\<exists>p'. execute_begin i p = Some p'" by (simp add: execute_begin_def)
    with quiet worker_step.begins show ?thesis by blast
  next
    case (Running j)
    with at have "\<exists>p'. execute_call i None p = Some p'" by (simp add: execute_call_def)
    with quiet worker_step.call show ?thesis by blast
  next
    case (Sending j v)
    with at held_job [OF I at, of j] have "\<exists>p'. execute_send i p = Some p'"
      by (simp add: execute_send_def own_job_def Let_def)
    with quiet worker_step.send show ?thesis by blast
  qed simp
qed


lemma sum_holds_Nil: "\<forall>w \<in> set ws. w = Gone \<or> w = Idle \<Longrightarrow> sum_list (map (holds k) ws) = 0"
  by (induction ws) (auto simp: holds_def)

lemma sum_alive_Gone: "\<forall>w \<in> set ws. w = Gone \<Longrightarrow> sum_list (map alive ws) = 0"
  by (induction ws) (simp_all add: alive_def)

lemma dead_step:
  assumes "pool_step p a p'" "pool_inv p" "wp_started p" "\<forall>w \<in> set (wp_consumers p). w = Gone" "j \<in> set (wp_jobs p)"
  shows "wp_started p' \<and> (\<forall>w \<in> set (wp_consumers p'). w = Gone) \<and> j \<in> set (wp_jobs p')"
  using assms
proof (induction rule: pool_step.induct)
  case (worker p a p')
  then have at: "worker_at p i = Gone" for i using nth_mem by (auto simp: worker_at_def)
  from worker(1,2) show ?case by (cases rule: worker_step_shape) (simp_all add: at)
next
  case (dispatch cmd p r p')
  from dispatch(2) show ?case by (cases rule: dispatch_cases) (use dispatch in auto)
next
  case (collect k p r p')
  then show ?case by (auto simp: collect_def Let_def split: if_splits)
qed (auto simp: Stop_signal_def)

lemma dead_run:
  assumes "pool_run p tr p'" and "pool_inv p" "wp_started p" "\<forall>w \<in> set (wp_consumers p). w = Gone" "j \<in> set (wp_jobs p)"
  shows "pool_inv p' \<and> wp_started p' \<and> (\<forall>w \<in> set (wp_consumers p'). w = Gone) \<and> j \<in> set (wp_jobs p')"
  using assms
proof (induction rule: pool_run.induct)
  case (step tr q a q')
  then show ?case using dead_step [OF step(2)] pool_step_inv [OF step(2)] by blast
qed simp

text \<open>A pool of one worker, its life up to the job whose command panics, and one more job.\<close>

definition demo_pool :: "nat pool" where "demo_pool = the (NewWorkerPool 1)"
definition demo_busy :: "nat pool" where "demo_busy = snd (dispatch FuncAny (pool_start demo_pool))"
definition demo_called :: "nat pool" where "demo_called = the (execute_begin 0 (the (consume_job 0 demo_busy)))"
definition demo_dead :: "nat pool" where "demo_dead = snd (dispatch FuncAny (the (execute_call 0 None demo_called)))"
definition demo_done :: "nat pool" where "demo_done = the (execute_send 0 (the (execute_call 0 (Some 7) demo_called)))"

lemmas demo_pool_defs = demo_pool_def demo_busy_def demo_called_def demo_dead_def demo_done_def NewWorkerPool_def
  pool_start_def dispatch_def Submit_def newJob_def consume_job_def execute_begin_def execute_call_def execute_send_def
  leave_execute_def wg_done_def retire_def worker_at_def

lemma demo_new: "NewWorkerPool 1 = Some demo_pool" by (simp add: demo_pool_defs)

lemma demo_called_run: "pool_run demo_pool [AStart, ADispatch 0 FuncAny True, ATake 0, ABegin 0] demo_called"
proof -
  have "pool_step demo_pool AStart (pool_start demo_pool)" by (rule pool_step.start) (simp add: demo_pool_defs)
  moreover have "pool_step (pool_start demo_pool) (ADispatch 0 FuncAny True) demo_busy"
    using pool_step.dispatch [of FuncAny "pool_start demo_pool", OF prod.collapse [symmetric]] by (simp add: demo_pool_defs)
  moreover have "pool_step demo_busy (ATake 0) (the (consume_job 0 demo_busy))"
    using worker_step.take [of 0 demo_busy "the (consume_job 0 demo_busy)", THEN pool_step.worker] by (simp add: demo_pool_defs)
  moreover have "pool_step (the (consume_job 0 demo_busy)) (ABegin 0) demo_called"
    using worker_step.begins [of 0 "the (consume_job 0 demo_busy)" demo_called, THEN pool_step.worker]
    by (simp add: demo_pool_defs job_at_def)
  ultimately show ?thesis
    using pool_run.step [OF pool_run.step [OF pool_run.step [OF pool_run.step [OF pool_run.init]]]] by fastforce
qed

lemma demo_dead_run:
  "pool_run demo_pool [AStart, ADispatch 0 FuncAny True, ATake 0, ABegin 0, ACall 0 None, ADispatch 1 FuncAny True] demo_dead"
proof -
  have "pool_step demo_called (ACall 0 None) (the (execute_call 0 None demo_called))"
    using worker_step.call [of 0 None demo_called "the (execute_call 0 None demo_called)", THEN pool_step.worker]
    by (simp add: demo_pool_defs job_at_def)
  moreover have "pool_step (the (execute_call 0 None demo_called)) (ADispatch 1 FuncAny True) demo_dead"
    using pool_step.dispatch [of FuncAny "the (execute_call 0 None demo_called)", OF prod.collapse [symmetric]]
    by (simp add: demo_pool_defs)
  ultimately show ?thesis using pool_run.step [OF pool_run.step [OF demo_called_run]] by fastforce
qed

lemma demo_done_run:
  "pool_run demo_pool [AStart, ADispatch 0 FuncAny True, ATake 0, ABegin 0, ACall 0 (Some 7), ASend 0] demo_done"
proof -
  have "pool_step demo_called (ACall 0 (Some 7)) (the (execute_call 0 (Some 7) demo_called))"
    using worker_step.call [of 0 "Some 7" demo_called "the (execute_call 0 (Some 7) demo_called)", THEN pool_step.worker]
    by (simp add: demo_pool_defs job_at_def)
  moreover have "pool_step (the (execute_call 0 (Some 7) demo_called)) (ASend 0) demo_done"
    using worker_step.send [of 0 "the (execute_call 0 (Some 7) demo_called)" demo_done, THEN pool_step.worker]
    by (simp add: demo_pool_defs job_at_def)
  ultimately show ?thesis using pool_run.step [OF pool_run.step [OF demo_called_run]] by fastforce
qed

section \<open>Properties\<close>

text \<open>C7: the pool is safe under every interleaving. In every state that clients, workers and \<open>Stop\<close> can
  reach: the queue holds at most twice as many jobs as there are workers and a job is refused exactly when it
  is full; jobs are taken in the order in which they were accepted; no command is called twice; a worker
  with a result never finds its channel full or closed; and a client whose wait group is at zero finds
  the value its own command returned, or nothing, and nothing only if the command panicked, was not a function,
  or the pool was stopped.\<close>

theorem pool_is_safe:
  assumes new: "NewWorkerPool n = Some p0" and run: "pool_run p0 tr p"
  shows "length (wp_jobs p) \<le> 2 * wp_workers p
       \<and> (fst (dispatch cmd p) = Inl (ErrorNew ''WorkerPool queue is full'') \<longleftrightarrow> length (wp_jobs p) = 2 * wp_workers p)
       \<and> prefix (takes_of tr) (accepts_of tr)
       \<and> calls k tr \<le> 1
       \<and> (\<forall>i j v. worker_at p i = Sending j v \<longrightarrow> (\<exists>p'. execute_send i p = Some p' \<and> ch_buf (wp_chans p' (job_id j)) = [NewResult (job_id j) v]))
       \<and> (ADispatch k c True \<in> set tr \<and> ACollect k \<notin> set tr \<and> wp_wgs p k = 0 \<longrightarrow> finished_ok tr p k c)"
proof -
  from pool_run_history [OF run new] have I: "pool_inv p" and H: "history tr p" by simp_all
  have once: "calls k tr \<le> 1"
  proof -
    have "0 \<le> uncalled p k"
    proof -
      have "0 \<le> to_call k w" for w :: "'a worker" by (cases w) simp_all
      then have "0 \<le> sum_list (map (to_call k) (wp_consumers p))" by (intro sum_list_nonneg) auto
      then show ?thesis by (simp add: uncalled_def)
    qed
    moreover have "int (calls k tr) + uncalled p k \<le> 1" using pool_run_once [OF run new] by (simp add: once_def)
    ultimately show ?thesis by simp
  qed
  have full: "fst (dispatch cmd p) = Inl (ErrorNew ''WorkerPool queue is full'') \<longleftrightarrow> length (wp_jobs p) = 2 * wp_workers p"
    using I by (cases rule: dispatch_cases) simp_all
  have send: "\<exists>p'. execute_send i p = Some p' \<and> ch_buf (wp_chans p' (job_id j)) = [NewResult (job_id j) v]"
    if at: "worker_at p i = Sending j v" for i j v
  proof -
    note held = held_job [OF I at, of j]
    let ?ch = "(wp_chans p)(job_id j := (wp_chans p (job_id j))\<lparr>ch_buf := [NewResult (job_id j) v]\<rparr>)"
    have "execute_send i p = Some (leave_execute False i j (p\<lparr>wp_chans := ?ch\<rparr>))"
      using at held by (simp add: execute_send_def own_job_def Let_def)
    with leave_execute_fields [OF I at, of j False ?ch] show ?thesis by simp
  qed
  have "prefix (takes_of tr) (accepts_of tr)" using historyD(2) [OF H] by (metis prefixI)
  with pool_invD(1) [OF I] once full send historyD(7) [OF H] show ?thesis by blast
qed

theorem pool_is_safe_witness:
  "length (wp_jobs demo_dead) = 1 \<and> calls 0 [AStart, ADispatch 0 FuncAny True, ATake 0, ABegin 0,
      ACall 0 None :: nat action, ADispatch 1 FuncAny True] = 1 \<and> wp_wgs demo_dead 0 = 0 \<and> ch_buf (wp_chans demo_dead 0) = []
   \<and> finished_ok [AStart, ADispatch 0 FuncAny True, ATake 0, ABegin 0, ACall 0 None, ADispatch 1 FuncAny True] demo_dead 0 FuncAny"
proof -
  have "wp_wgs demo_dead 0 = 0" "length (wp_jobs demo_dead) = 1" "ch_buf (wp_chans demo_dead 0) = []"
    by (simp_all add: demo_pool_defs)
  with pool_is_safe [OF demo_new demo_dead_run, of FuncAny 0 FuncAny] show ?thesis by (simp add: calls_def)
qed

text \<open>C16: the pool finishes what it has. From every reachable state, left to themselves, the workers make a
  bounded number of steps; when none is left to make, \<open>Stop\<close> has come back if it was called, and
  otherwise, as long as one worker is alive, every accepted job has been finished, so no client waits.\<close>

theorem pool_finishes:
  assumes new: "NewWorkerPool n = Some p0" and run: "pool_run p0 tr p" and started: "wp_started p"
    and only: "worker_run p m q"
  shows "int m \<le> work p
       \<and> ((\<nexists>a q'. worker_step q a q') \<longrightarrow>
            (wp_shutdown q \<longrightarrow> Stop_returns q)
          \<and> (\<not> wp_shutdown q \<and> (\<exists>w \<in> set (wp_consumers q). w \<noteq> Gone) \<longrightarrow> (\<forall>k. collect k q \<noteq> None)))"
proof -
  from pool_run_history [OF run new] have "pool_inv p" by simp
  from worker_run_work [OF only this] have I: "pool_inv q" and m: "int m + work q \<le> work p" by simp_all
  have m': "int m \<le> work p" using m work_nonneg [of q] by simp
  have stop: "Stop_returns q" if quiet: "\<nexists>a q'. worker_step q a q'" and sd: "wp_shutdown q"
    using quiescent_worker [OF I quiet] sd pool_invD(7) [OF I] sum_alive_Gone [of "wp_consumers q"]
    by (auto simp: Stop_returns_def)
  have all: "collect k q \<noteq> None"
    if quiet: "\<nexists>a q'. worker_step q a q'" and al: "\<exists>w \<in> set (wp_consumers q). w \<noteq> Gone" for k
  proof -
    have "wp_jobs q = []" using quiescent_worker [OF I quiet] al by blast
    moreover have "\<forall>w \<in> set (wp_consumers q). w = Gone \<or> w = Idle" using quiescent_worker [OF I quiet] by blast
    ultimately have "pending q k = 0" by (simp add: pending_def sum_holds_Nil)
    with pool_invD(2) [OF I, of k] show ?thesis by (simp add: collect_def Let_def)
  qed
  from m' stop all show ?thesis by blast
qed

theorem pool_finishes_witness:
  "worker_run demo_called 2 demo_done \<and> (2 :: int) \<le> work demo_called \<and> (\<nexists>a q. worker_step demo_done a q) \<and> collect 0 demo_done \<noteq> None"
proof -
  have "worker_step demo_called (ACall 0 (Some 7)) (the (execute_call 0 (Some 7) demo_called))"
    using worker_step.call [of 0 "Some 7" demo_called "the (execute_call 0 (Some 7) demo_called)"]
    by (simp add: demo_pool_defs job_at_def)
  moreover have "worker_step (the (execute_call 0 (Some 7) demo_called)) (ASend 0) demo_done"
    using worker_step.send [of 0 "the (execute_call 0 (Some 7) demo_called)" demo_done]
    by (simp add: demo_pool_defs job_at_def)
  ultimately have run: "worker_run demo_called 2 demo_done"
    using worker_run.more [OF worker_run.more [OF worker_run.here]] by (fastforce simp: numeral_2_eq_2)
  have st: "wp_started demo_called" "\<not> wp_shutdown demo_done" "\<exists>w \<in> set (wp_consumers demo_done). w \<noteq> Gone"
    by (simp_all add: demo_pool_defs)
  have quiet: "\<nexists>a q. worker_step demo_done a q"
    by (auto elim!: worker_stepE simp: demo_pool_defs consume_done_def split: if_splits)
  from pool_finishes [OF demo_new demo_called_run st(1) run] run quiet st show ?thesis by auto
qed

text \<open>C35: nothing replaces a lost worker. Once every worker is gone, after a \<open>Stop\<close> or because each of them
  met a panicking command, a job that is in the queue stays there for ever and its client never gets past
  \<open>Wait\<close>, although the pool goes on accepting jobs while its queue has room.\<close>

theorem dead_pool_blocks_clients:
  assumes new: "NewWorkerPool n = Some p0" and run: "pool_run p0 tr p" and started: "wp_started p"
    and gone: "\<forall>w \<in> set (wp_consumers p). w = Gone" and j: "j \<in> set (wp_jobs p)" and later: "pool_run p tr' q"
  shows "collect (job_id j) q = None \<and> (length (wp_jobs q) < 2 * wp_workers q \<longrightarrow> is_ok (fst (dispatch cmd q)))"
proof -
  from pool_run_history [OF run new] have "pool_inv p" by simp
  from dead_run [OF later this started gone j] have I: "pool_inv q" and q: "j \<in> set (wp_jobs q)" by simp_all
  have "0 < count_list (map job_id (wp_jobs q)) (job_id j)" using q by (simp add: count_list_0_iff neq0_conv [symmetric] del: neq0_conv)
  then have "wp_wgs q (job_id j) \<noteq> 0"
    using pool_invD(2) [OF I, of "job_id j"] sum_holds_nonneg [of "job_id j" "wp_consumers q"] by (simp add: pending_def)
  moreover have "is_ok (fst (dispatch cmd q))" if "length (wp_jobs q) < 2 * wp_workers q"
    using I by (cases rule: dispatch_cases) (use that in simp_all)
  ultimately show ?thesis by (simp add: collect_def)
qed

theorem dead_pool_blocks_clients_witness:
  "pool_run demo_dead [AStop] (Stop_signal demo_dead) \<and> collect 1 (Stop_signal demo_dead) = None"
proof -
  have st: "wp_started demo_dead" "\<forall>w \<in> set (wp_consumers demo_dead). w = Gone"
    and j: "\<lparr>job_id = 1, job_command = FuncAny, job_results = 1, job_wg = 1\<rparr> \<in> set (wp_jobs demo_dead)"
    by (simp_all add: demo_pool_defs)
  have run: "pool_run demo_dead [AStop] (Stop_signal demo_dead)"
    using pool_run.step [OF pool_run.init pool_step.stop] by fastforce
  from dead_pool_blocks_clients [OF demo_new demo_dead_run st j run] run show ?thesis by simp
qed

end
