(* ===== verification/Tenants.thy ===== *)
theory Tenants
  imports HookPrelude
begin

text \<open>
  Tenant membership (\<^verbatim>\<open>internal/tenants\<close>): the validator that asks the tenant service and the validator
  that is used when no tenant service is configured. The service is not part of the repository: its RPC
  \<open>LookupTenants\<close> is a function of the identity and a state of any type; the time limit on the call is one
  of the reasons for which it answers with an error. The locale \<open>tenant_validator\<close> is the contract of
  \<open>TenantValidatorInterface\<close>, interpreted on both.
\<close>

section \<open>Validators\<close>

text \<open>A response without a tenant list and the nil pointer are different answers.\<close>

type_synonym 't lookup = "string \<Rightarrow> 't \<Rightarrow> string list option res \<times> 't"
type_synonym 't validator = "string \<Rightarrow> string \<Rightarrow> 't \<Rightarrow> error option \<times> 't"

fun find_tenant :: "string \<Rightarrow> string list \<Rightarrow> error option" where
  "find_tenant tenantID [] = Some (Sentinel tenants_ErrNotMember)"
| "find_tenant tenantID (t # ts) = (if t = tenantID then None else find_tenant tenantID ts)"

definition tenants_ValidateMembership :: "'t lookup \<Rightarrow> 't validator" where
  "tenants_ValidateMembership LookupTenants identityID tenantID t =
     (case LookupTenants identityID t of
        (Inl e, t1) \<Rightarrow> (Some (Errorf_v ''cannot look up tenants'' e), t1)
      | (Inr None, t1) \<Rightarrow> (Some (Errorf_v ''cannot look up tenants'' (ErrorNew ''empty response'')), t1)
      | (Inr (Some ts), t1) \<Rightarrow> (find_tenant tenantID ts, t1))"

definition NoopValidator :: "'t validator" where
  "NoopValidator identityID tenantID t = (None, t)"

section \<open>The connection\<close>

text \<open>The options the connection is made with. gRPC's client is a parameter: for an address and options it gives a
  connection, on which a lookup can be made within a time limit (in nanoseconds).\<close>

datatype transport_creds = TLS_at_least nat | Insecure

record dial_options =
  do_creds :: transport_creds
  do_keepalive :: "int \<times> int \<times> bool"

type_synonym 't tenant_conn = "int \<Rightarrow> 't lookup"

definition keepaliveTime :: int where "keepaliveTime = 30 * 1000000000"
definition keepaliveTimeout :: int where "keepaliveTimeout = 10 * 1000000000"

definition NewGRPCConn :: "(string \<Rightarrow> dial_options \<Rightarrow> 't tenant_conn res) \<Rightarrow> string \<Rightarrow> bool \<Rightarrow> 't tenant_conn res" where
  "NewGRPCConn grpc_NewClient address tlsEnabled =
     (let creds = (if tlsEnabled then TLS_at_least 12 else Insecure) in
      case grpc_NewClient address \<lparr>do_creds = creds, do_keepalive = (keepaliveTime, keepaliveTimeout, True)\<rparr> of
        Inl err \<Rightarrow> Inl (Errorf_v (''failed to connect to tenant-service at '' @ address) err)
      | Inr conn \<Rightarrow> Inr conn)"

text \<open>The client keeps the connection and the time limit of its calls.\<close>

definition tenants_NewClient :: "'t tenant_conn \<Rightarrow> int \<Rightarrow> 't lookup" where
  "tenants_NewClient grpcClient timeout = grpcClient timeout"

section \<open>The contract\<close>

text \<open>\<open>member\<close> is what the implementation calls a membership. A validator accepts members only, calls a
  user a stranger only if he is one, and answers with one of three kinds of result: nothing, the sentinel, or
  an error that is not the sentinel.\<close>

locale tenant_validator =
  fixes validate :: "'t validator" and member :: "'t \<Rightarrow> string \<Rightarrow> string \<Rightarrow> bool"
  assumes accepted: "validate u t s = (None, s') \<Longrightarrow> member s u t"
    and denied: "validate u t s = (Some e, s') \<Longrightarrow> errors_Is e tenants_ErrNotMember \<Longrightarrow> \<not> member s u t"
    and answers: "validate u t s = (Some e, s') \<Longrightarrow> e = Sentinel tenants_ErrNotMember \<or> \<not> errors_Is e tenants_ErrNotMember"

lemma find_tenant_None: "find_tenant t ts = None \<longleftrightarrow> t \<in> set ts"
  by (induction ts) auto

lemma find_tenant_Some: "find_tenant t ts = Some e \<Longrightarrow> t \<notin> set ts \<and> e = Sentinel tenants_ErrNotMember"
  by (induction ts) (auto split: if_splits)

text \<open>Membership according to the tenant service: the tenant is in the list it answers with.\<close>

definition listed :: "'t lookup \<Rightarrow> 't \<Rightarrow> string \<Rightarrow> string \<Rightarrow> bool" where
  "listed LookupTenants s u t = (case fst (LookupTenants u s) of Inr (Some ts) \<Rightarrow> t \<in> set ts | _ \<Rightarrow> False)"

interpretation service: tenant_validator "tenants_ValidateMembership LookupTenants" "listed LookupTenants"
  for LookupTenants :: "'t lookup"
proof
  fix u t and s s' :: 't and e
  show "tenants_ValidateMembership LookupTenants u t s = (None, s') \<Longrightarrow> listed LookupTenants s u t"
    by (auto simp: tenants_ValidateMembership_def listed_def find_tenant_None split: prod.splits sum.splits option.splits)
  show "tenants_ValidateMembership LookupTenants u t s = (Some e, s') \<Longrightarrow> errors_Is e tenants_ErrNotMember
      \<Longrightarrow> \<not> listed LookupTenants s u t"
    by (auto simp: tenants_ValidateMembership_def listed_def split: prod.splits sum.splits option.splits
        dest: find_tenant_Some)
  show "tenants_ValidateMembership LookupTenants u t s = (Some e, s')
      \<Longrightarrow> e = Sentinel tenants_ErrNotMember \<or> \<not> errors_Is e tenants_ErrNotMember"
    by (auto simp: tenants_ValidateMembership_def split: prod.splits sum.splits option.splits
        dest: find_tenant_Some)
qed

interpretation noop: tenant_validator NoopValidator "\<lambda>s u t. True"
  by unfold_locales (simp_all add: NoopValidator_def)

end
