(* ===== verification/Hooks.thy ===== *)
theory Hooks
  imports AuthzApi WorkerPool Tenants
begin

text \<open>
  The token hook (\<^verbatim>\<open>pkg/hooks\<close>): who the user of a request is, where his groups come from, the
  authorization decision, the orchestration of both over the worker pool with tenant validation in parallel,
  and the HTTP handler with the response it composes. The types of the request and the response belong to Hydra
  and are records of the fields the code touches; Hydra's functions (\<open>NewConsentRequestSessionData\<close>,
  \<open>IDTokenClaims\<close>) and the JSON codec of its types are parameters. A handler may return, panic, or wait for
  ever on a job that never ends.
\<close>

section \<open>The request\<close>

record DefaultSession =
  ds_Subject :: string
  ds_Claims :: "(string \<rightharpoonup> json) option"

record Session =
  ss_DefaultSession :: "DefaultSession option"
  ss_Extra :: "(string \<rightharpoonup> json) option"

record TokenHookRequest =
  th_Session :: "Session option"
  th_ClientID :: string
  th_GrantTypes :: "string list"
  th_GrantedAudience :: "string list"

definition GrantTypeClientCredentials :: string where
  "GrantTypeClientCredentials = ''client_credentials''"

definition GrantTypeJWTBearer :: string where
  "GrantTypeJWTBearer = ''urn:ietf:params:oauth:grant-type:jwt-bearer''"

text \<open>The checked type assertion \<open>m[k].(string)\<close>; reading a nil map finds nothing.\<close>

definition string_at :: "(string \<rightharpoonup> json) \<Rightarrow> string \<Rightarrow> string option" where
  "string_at m k = (case m k of Some (JString s) \<Rightarrow> Some s | _ \<Rightarrow> None)"

section \<open>Users\<close>

record User =
  u_SubjectId :: string
  u_ClientId :: string
  u_Email :: string

definition zero_User :: User where
  "zero_User = \<lparr>u_SubjectId = [], u_ClientId = [], u_Email = []\<rparr>"

definition GetUserId :: "User \<Rightarrow> string" where
  "GetUserId u = (if u_SubjectId u \<noteq> [] then u_SubjectId u else if u_ClientId u \<noteq> [] then u_ClientId u else [])"

definition exactOne :: "string list \<Rightarrow> string \<Rightarrow> bool" where
  "exactOne vs v = (length vs = 1 \<and> vs ! 0 = v)"

definition isServiceAccount :: "string list \<Rightarrow> bool" where
  "isServiceAccount grantTypes =
     (exactOne grantTypes GrantTypeClientCredentials \<or> exactOne grantTypes GrantTypeJWTBearer)"

definition NewUserFromHookRequest :: "TokenHookRequest \<Rightarrow> User" where
  "NewUserFromHookRequest r =
     (if isServiceAccount (th_GrantTypes r) then zero_User\<lparr>u_ClientId := th_ClientID r\<rparr>
      else case th_Session r of
        None \<Rightarrow> zero_User
      | Some session \<Rightarrow>
          (case ss_DefaultSession session of
             None \<Rightarrow> zero_User
           | Some s \<Rightarrow>
               let u = zero_User\<lparr>u_SubjectId := ds_Subject s\<rparr> in
               (case ds_Claims s of
                  None \<Rightarrow> u
                | Some extra \<Rightarrow>
                    (case string_at extra ''email'' of None \<Rightarrow> u | Some email \<Rightarrow> u\<lparr>u_Email := email\<rparr>))))"

section \<open>Groups of a user\<close>

type_synonym 'w group_client = "User \<Rightarrow> 'w \<Rightarrow> Group list res \<times> 'w"

definition StorageHookGroupsClient_FetchUserGroups :: "env \<Rightarrow> ctx \<Rightarrow> world group_client" where
  "StorageHookGroupsClient_FetchUserGroups env c user w =
     (let userId = (if u_ClientId user \<noteq> [] then u_ClientId user else u_Email user) in
      if userId = [] then (Inr [], w)
      else (case GetGroupsForUser env c userId w of
              (Inl err, w1) \<Rightarrow> (Inl err, w1) | (Inr gs, w1) \<Rightarrow> (Inr gs, w1)))"

fun fetch_loop :: "User \<Rightarrow> Group list \<Rightarrow> 'w group_client list \<Rightarrow> 'w \<Rightarrow> Group list res \<times> 'w" where
  "fetch_loop user ret [] w = (Inr ret, w)"
| "fetch_loop user ret (cl # cls) w =
     (case cl user w of
        (Inl err, w1) \<Rightarrow> (Inl err, w1)
      | (Inr gs, w1) \<Rightarrow> fetch_loop user (ret @ gs) cls w1)"

definition FetchUserGroups :: "'w group_client list \<Rightarrow> 'w group_client" where
  "FetchUserGroups clients user w = fetch_loop user [] clients w"

section \<open>The authorization decision\<close>

text \<open>\<open>None\<close> is a panic inside the batch check.\<close>

definition AuthorizeRequest ::
  "'s authz_client \<Rightarrow> User \<Rightarrow> TokenHookRequest \<Rightarrow> Group list \<Rightarrow> 's \<Rightarrow> bool res option \<times> 's" where
  "AuthorizeRequest authz user req groups s =
     (let groupIDs = map g_ID groups in
      if \<not> isServiceAccount (th_GrantTypes req) then
        (case CanAccess authz (GetUserId user) (th_ClientID req) groupIDs s of (r, s1) \<Rightarrow> (Some r, s1))
      else if length (th_GrantedAudience req) > 0 then
        BatchCanAccess authz (GetUserId user) (th_GrantedAudience req) groupIDs s
      else (Some (Inr True), s))"

definition extractTenantID :: "TokenHookRequest \<Rightarrow> string" where
  "extractTenantID req =
     (case th_Session req of None \<Rightarrow> []
      | Some session \<Rightarrow>
          (case ss_Extra session of None \<Rightarrow> []
           | Some extra \<Rightarrow> (case string_at extra ''_tenant_id'' of None \<Rightarrow> [] | Some tid \<Rightarrow> tid)))"

section \<open>Orchestration\<close>

text \<open>What becomes of a job handed to the pool, seen from its client: \<open>Submit\<close> refuses it; \<open>Wait\<close>
  never returns; \<open>Wait\<close> returns and the channel is empty, because the job was dropped; or its function ran
  and the result is there. A dropped job leaves no trace in the stores.\<close>

datatype fate = Refused | Blocked | Lost | Ran

definition job_fate :: "bool \<Rightarrow> nat \<Rightarrow> 'v pool \<Rightarrow> fate" where
  "job_fate accepted k p =
     (if \<not> accepted then Refused
      else case collect k p of None \<Rightarrow> Blocked | Some (None, p') \<Rightarrow> Lost | Some (Some r, p') \<Rightarrow> Ran)"

datatype 'a outcome = Returns 'a | Panics | Blocks

record HookContext =
  hc_Groups :: "Group list"
  hc_TenantID :: string

definition access_denied :: "User \<Rightarrow> TokenHookRequest \<Rightarrow> error" where
  "access_denied user req = ErrorNew (''access denied for user '' @ GetUserId user @ '' to client '' @ th_ClientID req)"

definition not_member :: "User \<Rightarrow> string \<Rightarrow> error" where
  "not_member user tenantID =
     Errorf_w (''user '' @ u_SubjectId user @ '' is not a member of tenant '' @ tenantID) (Sentinel tenants_ErrNotMember)"

text \<open>\<open>tenant_wait\<close> is the deferred \<open>waitTenant\<close>: whatever the function was about to do, it first waits for
  the tenant job, if there is one.\<close>

definition tenant_wait :: "string \<Rightarrow> fate \<Rightarrow> 'a outcome \<Rightarrow> 'a outcome" where
  "tenant_wait tenantID tf r = (if tenantID \<noteq> [] \<and> tf = Blocked then Blocks else r)"

definition tenant_job :: "'t validator \<Rightarrow> User \<Rightarrow> string \<Rightarrow> fate \<Rightarrow> 't \<Rightarrow> error option \<times> 't" where
  "tenant_job validate user tenantID tf t =
     (if tenantID \<noteq> [] \<and> tf = Ran then validate (u_SubjectId user) tenantID t else (None, t))"

definition tenant_verdict :: "User \<Rightarrow> string \<Rightarrow> error option \<Rightarrow> Group list \<Rightarrow> HookContext res" where
  "tenant_verdict user tenantID tenantErr groups =
     (case tenantErr of
        Some e \<Rightarrow> if errors_Is e tenants_ErrNotMember then Inl (not_member user tenantID)
                 else Inl (Errorf_w ''cannot validate tenant membership'' (Sentinel hooks_errTenantInternal))
      | None \<Rightarrow> Inr \<lparr>hc_Groups = groups, hc_TenantID = tenantID\<rparr>)"

definition ProcessRequest ::
  "'w group_client list \<Rightarrow> 's authz_client \<Rightarrow> 't validator \<Rightarrow> fate \<Rightarrow> fate \<Rightarrow> User \<Rightarrow> TokenHookRequest \<Rightarrow>
   'w \<times> 's \<times> 't \<Rightarrow> HookContext res outcome \<times> ('w \<times> 's \<times> 't)" where
  "ProcessRequest clients authz validate gf tf user req st =
     (case st of (w, s, t) \<Rightarrow>
      let tenantID = extractTenantID req in
      if gf = Refused then (Returns (Inl (Sentinel hooks_ErrTooBusy)), (w, s, t))
      else
        let (fetched, w1) = (if gf = Ran then FetchUserGroups clients user w else (Inr [], w)) in
        if tenantID \<noteq> [] \<and> tf = Refused then
          (if gf = Blocked then Blocks else Returns (Inl (Sentinel hooks_ErrTooBusy)), (w1, s, t))
        else
          let (tenantErr, t1) = tenant_job validate user tenantID tf t in
          if gf = Blocked then (Blocks, (w1, s, t1))
          else if gf = Lost then (tenant_wait tenantID tf (Returns (Inl (Sentinel hooks_ErrTooBusy))), (w1, s, t1))
          else
            (case fetched of
               Inl err \<Rightarrow> (tenant_wait tenantID tf (Returns (Inl (Errorf_v ''cannot fetch user groups'' err))), (w1, s, t1))
             | Inr groups \<Rightarrow>
                 (case AuthorizeRequest authz user req groups s of
                    (None, s1) \<Rightarrow> (tenant_wait tenantID tf Panics, (w1, s1, t1))
                  | (Some (Inl err), s1) \<Rightarrow>
                      (tenant_wait tenantID tf (Returns (Inl (Errorf_v ''cannot authorize request'' err))), (w1, s1, t1))
                  | (Some (Inr allowed), s1) \<Rightarrow>
                      if \<not> allowed then (tenant_wait tenantID tf (Returns (Inl (access_denied user req))), (w1, s1, t1))
                      else (tenant_wait tenantID tf (Returns (tenant_verdict user tenantID tenantErr groups)), (w1, s1, t1)))))"


section \<open>The response\<close>

record TokenHookResponse =
  tr_AccessToken :: "string \<rightharpoonup> json"
  tr_IDToken :: "string \<rightharpoonup> json"

text \<open>\<open>gg\<close> collects the keys of the map of group names; \<open>fresh\<close> is what Hydra's
  \<open>NewConsentRequestSessionData\<close> returns, \<open>rank\<close> the order in which the range over the map meets the
  names.\<close>

definition claim_names :: "(string \<Rightarrow> nat) \<Rightarrow> Group list \<Rightarrow> string list" where
  "claim_names rank groups = sort_key rank (remdups (map g_Name groups))"

definition newHookResponse ::
  "TokenHookResponse \<Rightarrow> (string \<Rightarrow> nat) \<Rightarrow> Group list \<Rightarrow> (string \<rightharpoonup> json) \<Rightarrow> (string \<rightharpoonup> json) \<Rightarrow> TokenHookResponse" where
  "newHookResponse fresh rank groups existingAccessToken existingIDToken =
     (let resp = fresh\<lparr>tr_AccessToken := tr_AccessToken fresh ++ existingAccessToken,
                       tr_IDToken := tr_IDToken fresh ++ existingIDToken\<rparr> in
      if length groups = 0 then resp
      else
        let gg = JArray (map JString (claim_names rank groups)) in
        resp\<lparr>tr_AccessToken := (tr_AccessToken resp)(''groups'' \<mapsto> gg), tr_IDToken := (tr_IDToken resp)(''groups'' \<mapsto> gg)\<rparr>)"

definition composeTokenResponse ::
  "TokenHookResponse \<Rightarrow> (DefaultSession \<Rightarrow> (string \<rightharpoonup> json) option) \<Rightarrow> (string \<Rightarrow> nat) \<Rightarrow>
   TokenHookRequest \<Rightarrow> HookContext \<Rightarrow> TokenHookResponse" where
  "composeTokenResponse fresh IDTokenClaims rank req hctx =
     (let existingAccessToken = (case th_Session req of None \<Rightarrow> Map.empty
            | Some session \<Rightarrow> (case ss_Extra session of None \<Rightarrow> Map.empty | Some m \<Rightarrow> m));
          existingIDToken = (case th_Session req of None \<Rightarrow> Map.empty
            | Some session \<Rightarrow> (case ss_DefaultSession session of None \<Rightarrow> Map.empty
                | Some ds \<Rightarrow> (case IDTokenClaims ds of None \<Rightarrow> Map.empty | Some m \<Rightarrow> m)));
          resp = newHookResponse fresh rank (hc_Groups hctx) existingAccessToken existingIDToken in
      if hc_TenantID hctx \<noteq> []
      then resp\<lparr>tr_AccessToken := (tr_AccessToken resp)(''tenant_id'' \<mapsto> JString (hc_TenantID hctx)),
                tr_IDToken := (tr_IDToken resp)(''tenant_id'' \<mapsto> JString (hc_TenantID hctx))\<rparr>
      else resp)"

section \<open>The HTTP handler\<close>

definition hook_error_status :: "error \<Rightarrow> nat" where
  "hook_error_status err =
     (if errors_Is err hooks_ErrTooBusy then 429
      else if errors_Is err tenants_ErrNotMember then 403
      else if errors_Is err hooks_errTenantInternal then 500
      else 403)"

text \<open>What Hydra's library and the codec of its types contribute.\<close>

record hydra =
  hy_Unmarshal :: "string \<Rightarrow> TokenHookRequest res"
  hy_Marshal :: "TokenHookResponse \<Rightarrow> string res"
  hy_NewConsentRequestSessionData :: TokenHookResponse
  hy_IDTokenClaims :: "DefaultSession \<Rightarrow> (string \<rightharpoonup> json) option"

definition handleHydraHook ::
  "hydra \<Rightarrow> (string \<Rightarrow> nat) \<Rightarrow> (User \<Rightarrow> TokenHookRequest \<Rightarrow> 'st \<Rightarrow> HookContext res outcome \<times> 'st) \<Rightarrow>
   string res \<Rightarrow> 'st \<Rightarrow> (nat \<times> string) outcome \<times> 'st" where
  "handleHydraHook hy rank service_ProcessRequest body st =
     (case body of
        Inl err \<Rightarrow> (Returns (400, []), st)
      | Inr bytes \<Rightarrow>
          (case hy_Unmarshal hy bytes of
             Inl err \<Rightarrow> (Returns (400, []), st)
           | Inr req \<Rightarrow>
               (case service_ProcessRequest (NewUserFromHookRequest req) req st of
                  (Panics, st1) \<Rightarrow> (Panics, st1)
                | (Blocks, st1) \<Rightarrow> (Blocks, st1)
                | (Returns (Inl err), st1) \<Rightarrow> (Returns (hook_error_status err, []), st1)
                | (Returns (Inr hctx), st1) \<Rightarrow>
                    (case hy_Marshal hy (composeTokenResponse (hy_NewConsentRequestSessionData hy)
                            (hy_IDTokenClaims hy) rank req hctx) of
                       Inl err \<Rightarrow> (Returns (500, []), st1)
                     | Inr encoded \<Rightarrow> (Returns (200, encoded), st1)))))"

text \<open>The middleware in front of it, present only when an API token is configured.\<close>

definition hooks_AuthMiddleware :: "string \<Rightarrow> ('st \<Rightarrow> (nat \<times> string) outcome \<times> 'st) \<Rightarrow> string \<Rightarrow> 'st \<Rightarrow> (nat \<times> string) outcome \<times> 'st" where
  "hooks_AuthMiddleware token next authorization st =
     (if token \<noteq> authorization then (Returns (401, ''Invalid authorization header'' @ [CHR 0x0A]), st) else next st)"

definition hook_endpoint :: "string \<Rightarrow> ('st \<Rightarrow> (nat \<times> string) outcome \<times> 'st) \<Rightarrow> string \<Rightarrow> 'st \<Rightarrow> (nat \<times> string) outcome \<times> 'st" where
  "hook_endpoint token handler authorization st =
     (if token \<noteq> [] then hooks_AuthMiddleware token handler authorization st else handler st)"

section \<open>Sources of groups\<close>

text \<open>The contract of \<open>ClientInterface\<close>: what it answers is a set of groups of the user, according to the
  store it reads, and reading does not change the store.\<close>

locale group_source =
  fixes fetch :: "'w group_client" and groups_of :: "'w \<Rightarrow> User \<Rightarrow> Group set" and data :: "'w \<Rightarrow> 'd"
  assumes fetched: "fetch u w = (Inr gs, w') \<Longrightarrow> set gs = groups_of w u"
    and reads_only: "fetch u w = (r, w') \<Longrightarrow> data w' = data w"
begin

lemma service_fetches:
  assumes "FetchUserGroups [fetch] u w = (r, w')"
  shows "data w' = data w \<and> (\<forall>gs. r = Inr gs \<longrightarrow> set gs = groups_of w u)"
proof -
  obtain q w1 where q: "fetch u w = (q, w1)" by fastforce
  with assms reads_only [OF q] fetched [of u w] show ?thesis
    by (cases q) (auto simp: FetchUserGroups_def)
qed

end

text \<open>Who the groups are looked up for.\<close>

definition lookup_id :: "User \<Rightarrow> string" where
  "lookup_id u = (if u_ClientId u \<noteq> [] then u_ClientId u else u_Email u)"

definition stored_groups :: "ctx \<Rightarrow> world \<Rightarrow> User \<Rightarrow> Group set" where
  "stored_groups c w u =
     (if lookup_id u = [] then {}
      else scanGroup ` {r \<in> set (t_groups (target c w)). (gr_id r, lookup_id u) \<in> memberships (target c w)})"

lemma client_fetch:
  "StorageHookGroupsClient_FetchUserGroups env c u w =
     (if lookup_id u = [] then (Inr [], w) else GetGroupsForUser env c (lookup_id u) w)"
  by (simp add: StorageHookGroupsClient_FetchUserGroups_def lookup_id_def Let_def split: prod.splits sum.splits)

lemma storage_source:
  assumes rd: "readable c"
  shows "group_source (StorageHookGroupsClient_FetchUserGroups env c) (stored_groups c) (target c)"
proof
  fix u w gs w'
  assume "StorageHookGroupsClient_FetchUserGroups env c u w = (Inr gs, w')"
  then show "set gs = stored_groups c w u"
    using GetGroupsForUser_members [OF rd]
    by (auto simp: StorageHookGroupsClient_FetchUserGroups_def stored_groups_def lookup_id_def Let_def
        split: if_splits prod.splits sum.splits)
next
  fix u w r w'
  assume f: "StorageHookGroupsClient_FetchUserGroups env c u w = (r, w')"
  have "target c w1 = target c w" if "GetGroupsForUser env c x w = (q, w1)" for x q w1
    using that db_query_target [OF rd] by (auto simp: GetGroupsForUser_def split: prod.splits sum.splits)
  with f show "target c w' = target c w"
    by (auto simp: StorageHookGroupsClient_FetchUserGroups_def Let_def split: if_splits prod.splits sum.splits)
qed

text \<open>The context the hook runs with: the transaction middleware's, which reads the primary.\<close>

definition hook_ctx :: ctx where "hook_ctx = background\<lparr>ctx_lazy := True\<rparr>"

lemma hook_ctx_readable [simp]: "readable hook_ctx" "writable hook_ctx"
  by (simp_all add: hook_ctx_def readable_def writable_def background_def)

interpretation storage_client: group_source "StorageHookGroupsClient_FetchUserGroups env hook_ctx" "stored_groups hook_ctx" "target hook_ctx"
  for env
  by (rule storage_source) simp


section \<open>The decision\<close>

lemma AuthorizeRequest_sound:
  assumes laws: "check_law sdk store" "batch_law sdk store" and st: "store s = permission_tuple ` P"
    and a: "AuthorizeRequest (Client sdk) user req groups s = (Some (Inr b), s')"
  shows "if isServiceAccount (th_GrantTypes req)
         then b \<and> (\<forall>a \<in> set (th_GrantedAudience req). \<exists>g \<in> g_ID ` set groups. (g, a) \<in> P)
         else b \<longleftrightarrow> (\<exists>g \<in> g_ID ` set groups. (g, th_ClientID req) \<in> P)"
proof (cases "isServiceAccount (th_GrantTypes req)")
  case True
  with a BatchCanAccess_spec [OF laws(2) st, of "GetUserId user" "th_GrantedAudience req" "map g_ID groups" b s']
  show ?thesis by (cases "th_GrantedAudience req = []") (simp_all add: AuthorizeRequest_def)
next
  case False
  with a have "CanAccess (Client sdk) (GetUserId user) (th_ClientID req) (map g_ID groups) s = (Inr b, s')"
    by (auto simp: AuthorizeRequest_def Let_def split: prod.splits)
  from CanAccess_spec [OF laws(1) st this] False show ?thesis by simp
qed

lemma ProcessRequest_Inr:
  assumes "ProcessRequest clients authz validate gf tf user req (w, s, t) = (Returns (Inr hctx), (w', s', t'))"
  obtains groups where "gf = Ran" "FetchUserGroups clients user w = (Inr groups, w')"
    "AuthorizeRequest authz user req groups s = (Some (Inr True), s')"
    "tenant_job validate user (extractTenantID req) tf t = (None, t')"
    "hctx = \<lparr>hc_Groups = groups, hc_TenantID = extractTenantID req\<rparr>"
    "extractTenantID req = [] \<or> tf = Ran \<or> tf = Lost"
proof -
  obtain f w1 where f: "FetchUserGroups clients user w = (f, w1)" by fastforce
  obtain te t1 where te: "tenant_job validate user (extractTenantID req) tf t = (te, t1)" by fastforce
  from assms have gf: "gf = Ran"
    by (cases gf) (auto simp: ProcessRequest_def tenant_wait_def Let_def split: if_splits prod.splits)
  from assms gf f te obtain groups where gr: "f = Inr groups"
    by (cases f) (auto simp: ProcessRequest_def tenant_wait_def Let_def split: if_splits)
  obtain v s1 where v: "AuthorizeRequest authz user req groups s = (v, s1)" by fastforce
  from assms gf f te gr v have "v = Some (Inr True)"
    by (auto simp: ProcessRequest_def tenant_wait_def access_denied_def Let_def split: if_splits option.splits sum.splits)
  with assms gf f te gr v have "te = None" "t1 = t'" "w1 = w'" "s1 = s'"
    "hctx = \<lparr>hc_Groups = groups, hc_TenantID = extractTenantID req\<rparr>" "extractTenantID req = [] \<or> (tf \<noteq> Refused \<and> tf \<noteq> Blocked)"
    by (auto simp: ProcessRequest_def tenant_wait_def tenant_verdict_def Let_def split: if_splits option.splits)
  moreover have "tf \<noteq> Refused \<and> tf \<noteq> Blocked \<Longrightarrow> tf = Ran \<or> tf = Lost" by (cases tf) simp_all
  ultimately show thesis using that gf f gr v te \<open>v = Some (Inr True)\<close> by blast
qed

text \<open>The groups the hook sees are those of the memberships: every membership has its group row.\<close>

lemma stored_group_ids:
  assumes "wf_tables (target c w)" "lookup_id u \<noteq> []"
  shows "g_ID ` stored_groups c w u = {g. (g, lookup_id u) \<in> memberships (target c w)}"
proof
  show "g_ID ` stored_groups c w u \<subseteq> {g. (g, lookup_id u) \<in> memberships (target c w)}"
    using assms(2) by (auto simp: stored_groups_def scanGroup_def)
  show "{g. (g, lookup_id u) \<in> memberships (target c w)} \<subseteq> g_ID ` stored_groups c w u"
  proof
    fix g assume "g \<in> {g. (g, lookup_id u) \<in> memberships (target c w)}"
    then have m: "(g, lookup_id u) \<in> memberships (target c w)" by simp
    then obtain x where x: "x \<in> set (t_members (target c w))" "member_key x = (g, lookup_id u)"
      by (auto simp: memberships_def)
    with assms(1) have "member_ref x \<in> set (map group_key (t_groups (target c w)))" by (simp add: wf_tables_def)
    with x(2) obtain r where "r \<in> set (t_groups (target c w))" "gr_id r = g"
      by (auto simp: member_ref_def group_key_def member_key_def)
    with m assms(2) show "g \<in> g_ID ` stored_groups c w u"
      by (force simp: stored_groups_def scanGroup_def)
  qed
qed

lemma stored_groups_empty: "lookup_id u = [] \<Longrightarrow> stored_groups c w u = {}"
  by (simp add: stored_groups_def)

lemma lookup_of_request:
  "isServiceAccount (th_GrantTypes req) \<Longrightarrow> lookup_id (NewUserFromHookRequest req) = th_ClientID req"
  "\<not> isServiceAccount (th_GrantTypes req) \<Longrightarrow> lookup_id (NewUserFromHookRequest req) = u_Email (NewUserFromHookRequest req)"
  by (auto simp: NewUserFromHookRequest_def lookup_id_def zero_User_def Let_def split: option.splits)

text \<open>\<open>may_use tb u a\<close>: one of the groups of \<open>u\<close> is allowed to use the application \<open>a\<close>.\<close>

definition may_use :: "tables \<Rightarrow> string \<Rightarrow> string \<Rightarrow> bool" where
  "may_use tb u a \<longleftrightarrow> u \<noteq> [] \<and> (\<exists>g. (g, u) \<in> memberships tb \<and> (g, a) \<in> allowances tb)"

lemma may_use_stored:
  assumes "wf_tables (target c w)"
  shows "(\<exists>g \<in> g_ID ` stored_groups c w u. (g, a) \<in> allowances (target c w)) \<longleftrightarrow> may_use (target c w) (lookup_id u) a"
  using stored_group_ids [OF assms] stored_groups_empty by (cases "lookup_id u = []") (auto simp: may_use_def)


section \<open>Tenants\<close>

context tenant_validator
begin

lemma ProcessRequest_member:
  assumes "ProcessRequest clients authz validate gf tf user req (w, s, t) = (Returns (Inr hctx), st')"
    and "extractTenantID req \<noteq> []" "tf \<noteq> Lost"
  shows "member t (u_SubjectId user) (extractTenantID req) \<and> hc_TenantID hctx = extractTenantID req"
proof -
  obtain w' s' t' where st': "st' = (w', s', t')" by (metis prod.exhaust)
  from assms(1) [unfolded st'] obtain groups where job: "tenant_job validate user (extractTenantID req) tf t = (None, t')"
    and h: "hctx = \<lparr>hc_Groups = groups, hc_TenantID = extractTenantID req\<rparr>"
    and tf: "extractTenantID req = [] \<or> tf = Ran \<or> tf = Lost" by (rule ProcessRequest_Inr)
  from job tf assms(2,3) have "validate (u_SubjectId user) (extractTenantID req) t = (None, t')"
    by (simp add: tenant_job_def)
  with accepted h show ?thesis by simp
qed

end

text \<open>A job of the pool is lost only if its command panicked or the pool was stopped.\<close>

lemma job_fate_Lost:
  assumes new: "NewWorkerPool n = Some p0" and run: "pool_run p0 tr p"
    and k: "ADispatch k FuncAny True \<in> set tr" "ACollect k \<notin> set tr" and lost: "job_fate True k p = Lost"
  shows "ACall k None \<in> set tr \<or> AStop \<in> set tr"
proof -
  from lost have "wp_wgs p k = 0" "ch_buf (wp_chans p k) = []"
    by (auto simp: job_fate_def collect_def Let_def split: if_splits list.splits)
  with historyD(7) [OF conjunct2 [OF pool_run_history [OF run new]] k] show ?thesis
    by (auto simp: finished_ok_def)
qed

text \<open>A request of the user \<open>ann\<close> for the client \<open>app\<close>, without and with a tenant.\<close>

definition demo_session :: "(string \<rightharpoonup> json) \<Rightarrow> Session" where
  "demo_session extra = \<lparr>ss_DefaultSession = Some \<lparr>ds_Subject = ''sub'', ds_Claims = Some [''email'' \<mapsto> JString ''ann'']\<rparr>,
     ss_Extra = Some extra\<rparr>"

definition demo_request :: "(string \<rightharpoonup> json) \<Rightarrow> TokenHookRequest" where
  "demo_request extra = \<lparr>th_Session = Some (demo_session extra), th_ClientID = ''app'',
     th_GrantTypes = [''authorization_code''], th_GrantedAudience = []\<rparr>"

lemma demo_request_facts [simp]:
  "\<not> isServiceAccount (th_GrantTypes (demo_request extra))" "th_ClientID (demo_request extra) = ''app''"
  "u_Email (NewUserFromHookRequest (demo_request extra)) = ''ann''"
  "u_SubjectId (NewUserFromHookRequest (demo_request extra)) = ''sub''"
  "extractTenantID (demo_request extra) = (case string_at extra ''_tenant_id'' of None \<Rightarrow> [] | Some t \<Rightarrow> t)"
  by (simp_all add: demo_request_def demo_session_def isServiceAccount_def exactOne_def GrantTypeClientCredentials_def
      GrantTypeJWTBearer_def NewUserFromHookRequest_def string_at_def zero_User_def extractTenantID_def Let_def)

lemma demo_hook_facts [simp]:
  "target hook_ctx (world_of tb) = tb" "live hook_ctx (world_of tb)"
  "in_sync set demo_tables [permission_tuple (''g1'', ''app'')]" "may_use demo_tables ''ann'' ''app''"
  by (simp_all add: target_def target_rest_def hook_ctx_def background_def live_def in_sync_def may_use_def)

lemma string_at_upd [simp]: "string_at (m(k \<mapsto> JString x)) k = Some x" "string_at Map.empty k = None"
  by (simp_all add: string_at_def)

lemma ref_sdk_answers: "\<exists>v s'. sdk_Check ref_sdk q cs s = (Inr v, s')"
  by (simp add: ref_sdk_def)

section \<open>Properties\<close>

lemma ProcessRequest_permitted:
  assumes laws: "check_law sdk store" and wf: "wf_world w" and db: "no_faults env" "live hook_ctx w"
    and fga: "\<And>q cs s. \<exists>v s'. sdk_Check sdk q cs s = (Inr v, s')"
    and sync: "in_sync store (target hook_ctx w) s"
    and req: "\<not> isServiceAccount (th_GrantTypes req)" "extractTenantID req = []"
  shows "\<exists>r w' s'. ProcessRequest [StorageHookGroupsClient_FetchUserGroups env hook_ctx] (Client sdk) validate Ran tf
        (NewUserFromHookRequest req) req (w, s, t) = (Returns r, (w', s', t))
      \<and> (if may_use (target hook_ctx w) (u_Email (NewUserFromHookRequest req)) (th_ClientID req)
         then is_ok r else r = Inl (access_denied (NewUserFromHookRequest req) req))"
proof -
  let ?u = "NewUserFromHookRequest req" and ?cl = "StorageHookGroupsClient_FetchUserGroups env hook_ctx"
  have "\<exists>groups w'. ?cl ?u w = (Inr groups, w')"
    using GetGroupsForUser_succeeds [OF hook_ctx_readable(1) db, of "lookup_id ?u"]
    by (cases "GetGroupsForUser env hook_ctx (lookup_id ?u) w") (simp add: client_fetch)
  then obtain groups w' where f: "FetchUserGroups [?cl] ?u w = (Inr groups, w')" by (auto simp: FetchUserGroups_def)
  from fga obtain v s' where "sdk_Check sdk (NewTuple (UserTuple (GetUserId ?u)) CAN_ACCESS_RELATION (ClientTuple (th_ClientID req)))
      (member_tuples (GetUserId ?u) (map g_ID groups)) s = (Inr v, s')" by blast
  then obtain b where c: "CanAccess (Client sdk) (GetUserId ?u) (th_ClientID req) (map g_ID groups) s = (Inr b, s')"
    by (simp add: CanAccess_def authorizer_Check_def Check_def)
  from storage_client.service_fetches [OF f] have g: "set groups = stored_groups hook_ctx w ?u" by simp
  from CanAccess_spec [OF laws sync [unfolded in_sync_def] c] may_use_stored [OF wf_world_target [OF wf], of hook_ctx ?u "th_ClientID req"]
  have b: "b \<longleftrightarrow> may_use (target hook_ctx w) (u_Email ?u) (th_ClientID req)"
    unfolding g [symmetric] using lookup_of_request(2) [OF req(1)] by simp
  show ?thesis
    unfolding b [symmetric] using f c req
    by (simp add: ProcessRequest_def AuthorizeRequest_def tenant_job_def tenant_wait_def tenant_verdict_def Let_def)
qed

text \<open>A token is granted only to those the stores permit, with exactly the caller's groups, and nothing in the
  database changes.\<close>

lemma ProcessRequest_sound:
  assumes laws: "check_law sdk store" "batch_law sdk store" and wf: "wf_world w"
    and sync: "in_sync store (target hook_ctx w) s"
    and ok: "ProcessRequest [StorageHookGroupsClient_FetchUserGroups env hook_ctx] (Client sdk) validate gf tf
        (NewUserFromHookRequest req) req (w, s, t) = (Returns (Inr hctx), (w', s', t'))"
  shows "(if isServiceAccount (th_GrantTypes req)
          then \<forall>a \<in> set (th_GrantedAudience req). may_use (target hook_ctx w) (th_ClientID req) a
          else may_use (target hook_ctx w) (u_Email (NewUserFromHookRequest req)) (th_ClientID req))
       \<and> set (hc_Groups hctx) = stored_groups hook_ctx w (NewUserFromHookRequest req)
       \<and> target hook_ctx w' = target hook_ctx w"
proof -
  let ?u = "NewUserFromHookRequest req"
  from ok obtain groups where f: "FetchUserGroups [StorageHookGroupsClient_FetchUserGroups env hook_ctx] ?u w = (Inr groups, w')"
    and a: "AuthorizeRequest (Client sdk) ?u req groups s = (Some (Inr True), s')"
    and h: "hctx = \<lparr>hc_Groups = groups, hc_TenantID = extractTenantID req\<rparr>" by (rule ProcessRequest_Inr)
  from storage_client.service_fetches [OF f]
  have g: "set groups = stored_groups hook_ctx w ?u" and w': "target hook_ctx w' = target hook_ctx w" by simp_all
  from AuthorizeRequest_sound [OF laws sync [unfolded in_sync_def] a]
  show ?thesis
    unfolding g may_use_stored [OF wf_world_target [OF wf]] using h g w' lookup_of_request [of req] by (simp split: if_splits)
qed

text \<open>C8: and it is granted to all of them. For an ordinary user, when the pool runs the job, the
  database and OpenFGA answer and the request names no tenant, the outcome is decided by the two stores alone:
  the token is granted exactly when one of the user's groups may use the client.\<close>

theorem hook_grants_all_the_permitted:
  assumes laws: "check_law sdk store" and wf: "wf_world w" and db: "no_faults env" "live hook_ctx w"
    and fga: "\<And>q cs s. \<exists>v s'. sdk_Check sdk q cs s = (Inr v, s')"
    and sync: "in_sync store (target hook_ctx w) s"
    and req: "\<not> isServiceAccount (th_GrantTypes req)" "extractTenantID req = []"
  shows "\<exists>r w' s'. ProcessRequest [StorageHookGroupsClient_FetchUserGroups env hook_ctx] (Client sdk) validate Ran tf
        (NewUserFromHookRequest req) req (w, s, t) = (Returns r, (w', s', t))
      \<and> (if may_use (target hook_ctx w) (u_Email (NewUserFromHookRequest req)) (th_ClientID req)
         then is_ok r else r = Inl (access_denied (NewUserFromHookRequest req) req))"
  by (rule ProcessRequest_permitted [OF assms])

theorem hook_grants_all_the_permitted_witness:
  "\<exists>r w' s'. ProcessRequest [StorageHookGroupsClient_FetchUserGroups quiet_env hook_ctx] (Client ref_sdk) NoopValidator Ran Refused
      (NewUserFromHookRequest (demo_request Map.empty)) (demo_request Map.empty)
      (world_of demo_tables, [permission_tuple (''g1'', ''app'')], ()) = (Returns (Inr r), (w', s', ()))"
proof -
  have "extractTenantID (demo_request Map.empty) = []" by (simp add: string_at_def)
  with hook_grants_all_the_permitted [OF ref_laws(2) _ quiet_env_simps(1) _ ref_sdk_answers, of "world_of demo_tables"
      "[permission_tuple (''g1'', ''app'')]" "demo_request Map.empty" NoopValidator Refused "()"]
  show ?thesis by (auto simp: is_ok_iff)
qed


text \<open>C15: tenant membership is enforced. In a pool that has not been stopped, and unless the validation itself
  panics, a request that names a tenant succeeds only if the tenant service lists that tenant for the user, and the
  tenant in the answer is the one that was validated.\<close>

theorem tenant_membership_enforced:
  assumes pool: "NewWorkerPool n = Some p0" "pool_run p0 tr p"
    and job: "ADispatch k FuncAny True \<in> set tr" "ACollect k \<notin> set tr" "ACall k None \<notin> set tr" "AStop \<notin> set tr"
    and tenant: "extractTenantID req \<noteq> []"
    and ok: "ProcessRequest clients authz (tenants_ValidateMembership LookupTenants) gf (job_fate True k p) user req (w, s, t)
        = (Returns (Inr hctx), st')"
  shows "listed LookupTenants t (u_SubjectId user) (extractTenantID req) \<and> hc_TenantID hctx = extractTenantID req"
  using service.ProcessRequest_member [OF ok tenant] job_fate_Lost [OF pool job(1,2)] job(3,4) by blast

theorem tenant_membership_enforced_witness:
  "job_fate True 0 demo_done = Ran \<and>
   (\<exists>hctx st'. ProcessRequest [] (NoopClient :: unit authz_client) (tenants_ValidateMembership (\<lambda>u t. (Inr (Some [''acme'']), t))) Ran (job_fate True 0 demo_done)
      (NewUserFromHookRequest (demo_request [''_tenant_id'' \<mapsto> JString ''acme''])) (demo_request [''_tenant_id'' \<mapsto> JString ''acme''])
      ((), (), ()) = (Returns (Inr hctx), st') \<and> hc_TenantID hctx = ''acme'')"
proof -
  let ?r = "demo_request [''_tenant_id'' \<mapsto> JString ''acme'']" and ?v = "tenants_ValidateMembership (\<lambda>u t. (Inr (Some [''acme'']), t))"
  have run: "pool_run demo_pool [AStart, ADispatch 0 FuncAny True, ATake 0, ABegin 0, ACall 0 (Some 7), ASend 0] demo_done"
    by (rule demo_done_run)
  have fate: "job_fate True 0 demo_done = Ran" by (simp add: demo_pool_defs job_fate_def collect_def)
  have tid: "extractTenantID ?r = ''acme''" by (simp add: string_at_def)
  obtain hctx st' where ok: "ProcessRequest [] (NoopClient :: unit authz_client) ?v Ran (job_fate True 0 demo_done)
      (NewUserFromHookRequest ?r) ?r ((), (), ()) = (Returns (Inr hctx), st')"
    by (simp add: ProcessRequest_def fate tid FetchUserGroups_def AuthorizeRequest_def CanAccess_def authorizer_Check_def NoopClient_def
        tenant_job_def tenant_wait_def tenant_verdict_def tenants_ValidateMembership_def)
  from tenant_membership_enforced [OF demo_new run _ _ _ _ _ ok] have "hc_TenantID hctx = ''acme''" by simp
  with ok fate show ?thesis by blast
qed

text \<open>A validation that is dropped counts as passed. When the pool is stopped (or the validation panics)
  after the job was accepted, the wait group is released with no result, the tenant error stays nil, and the request
  succeeds for the tenant it names whatever the tenant service would have said.\<close>

theorem dropped_tenant_validation_passes:
  assumes "FetchUserGroups clients user w = (Inr groups, w1)"
    and "AuthorizeRequest authz user req groups s = (Some (Inr True), s1)"
  shows "ProcessRequest clients authz validate Ran Lost user req (w, s, t)
       = (Returns (Inr \<lparr>hc_Groups = groups, hc_TenantID = extractTenantID req\<rparr>), (w1, s1, t))"
  using assms by (simp add: ProcessRequest_def tenant_job_def tenant_wait_def tenant_verdict_def Let_def)

theorem dropped_tenant_validation_passes_witness:
  "job_fate True 0 demo_dead = Lost \<and>
   (\<exists>st'. ProcessRequest [] (NoopClient :: unit authz_client) (\<lambda>u tid t. (Some (Sentinel tenants_ErrNotMember), t)) Ran (job_fate True 0 demo_dead)
      (NewUserFromHookRequest (demo_request [''_tenant_id'' \<mapsto> JString ''acme''])) (demo_request [''_tenant_id'' \<mapsto> JString ''acme''])
      ((), (), ()) = (Returns (Inr \<lparr>hc_Groups = [], hc_TenantID = ''acme''\<rparr>), st'))"
proof -
  let ?r = "demo_request [''_tenant_id'' \<mapsto> JString ''acme'']"
  have fate: "job_fate True 0 demo_dead = Lost" by (simp add: demo_pool_defs job_fate_def collect_def)
  have tid: "extractTenantID ?r = ''acme''" by (simp add: string_at_def)
  have f: "FetchUserGroups [] (NewUserFromHookRequest ?r) () = (Inr [], ())" by (simp add: FetchUserGroups_def)
  have a: "AuthorizeRequest (NoopClient :: unit authz_client) (NewUserFromHookRequest ?r) ?r [] () = (Some (Inr True), ())"
    by (simp add: AuthorizeRequest_def CanAccess_def authorizer_Check_def NoopClient_def)
  show ?thesis unfolding fate dropped_tenant_validation_passes [OF f a] by (simp add: tid)
qed


lemma ProcessRequest_errors:
  assumes "ProcessRequest clients authz validate gf tf user req (w, s, t) = (Returns (Inl err), st')"
  shows "(gf = Refused \<or> gf = Lost \<or> (extractTenantID req \<noteq> [] \<and> tf = Refused)) \<and> err = Sentinel hooks_ErrTooBusy
       \<or> gf = Ran \<and> \<not> (extractTenantID req \<noteq> [] \<and> tf = Refused) \<and> (\<not> errors_Is err hooks_ErrTooBusy)"
proof -
  obtain f w1 where f: "FetchUserGroups clients user w = (f, w1)" by fastforce
  obtain te t1 where te: "tenant_job validate user (extractTenantID req) tf t = (te, t1)" by fastforce
  show ?thesis
  proof (cases "gf = Ran \<and> \<not> (extractTenantID req \<noteq> [] \<and> tf = Refused)")
    case False
    with assms f te show ?thesis
      by (cases gf) (auto simp: ProcessRequest_def tenant_wait_def Let_def split: if_splits)
  next
    case True
    show ?thesis
    proof (cases f)
      case (Inl e)
      with assms True f te show ?thesis by (auto simp: ProcessRequest_def tenant_wait_def Let_def split: if_splits)
    next
      case (Inr groups)
      obtain v s1 where v: "AuthorizeRequest authz user req groups s = (v, s1)" by fastforce
      have "\<not> errors_Is (access_denied user req) hooks_ErrTooBusy" "\<not> errors_Is (not_member user tid) hooks_ErrTooBusy" for tid
        by (simp_all add: access_denied_def not_member_def)
      with assms True f te Inr v show ?thesis
        by (auto simp: ProcessRequest_def tenant_wait_def tenant_verdict_def Let_def
            split: if_splits option.splits sum.splits)
    qed
  qed
qed



text \<open>C29: the claims. Hydra's own session data is kept, every claim of the request survives except the two the
  hook manages, \<open>groups\<close> lists each name of the caller's groups once, and \<open>tenant_id\<close> is the validated
  tenant, in both tokens; but a caller without groups keeps whatever \<open>groups\<close> claim the request already
  carried.\<close>

theorem hook_claims:
  assumes fresh: "fresh = \<lparr>tr_AccessToken = Map.empty, tr_IDToken = Map.empty\<rparr>"
    and session: "th_Session req = Some \<lparr>ss_DefaultSession = Some ds, ss_Extra = Some acc\<rparr>" "IDTokenClaims ds = Some idt"
    and r: "r = composeTokenResponse fresh IDTokenClaims rank req \<lparr>hc_Groups = gs, hc_TenantID = tid\<rparr>"
  shows "(\<forall>k. k \<noteq> ''groups'' \<and> k \<noteq> ''tenant_id'' \<longrightarrow> tr_AccessToken r k = acc k \<and> tr_IDToken r k = idt k)
       \<and> (gs \<noteq> [] \<longrightarrow> (\<exists>names. distinct names \<and> set names = g_Name ` set gs
            \<and> tr_AccessToken r ''groups'' = Some (JArray (map JString names)) \<and> tr_IDToken r ''groups'' = Some (JArray (map JString names))))
       \<and> (gs = [] \<longrightarrow> tr_AccessToken r ''groups'' = acc ''groups'' \<and> tr_IDToken r ''groups'' = idt ''groups'')
       \<and> (tid \<noteq> [] \<longrightarrow> tr_AccessToken r ''tenant_id'' = Some (JString tid) \<and> tr_IDToken r ''tenant_id'' = Some (JString tid))
       \<and> (tid = [] \<longrightarrow> tr_AccessToken r ''tenant_id'' = acc ''tenant_id'' \<and> tr_IDToken r ''tenant_id'' = idt ''tenant_id'')"
proof -
  have names: "distinct (claim_names rank gs)" "set (claim_names rank gs) = g_Name ` set gs"
    by (simp_all add: claim_names_def)
  have "r = (let gg = JArray (map JString (claim_names rank gs));
                 f = (\<lambda>m. (if gs = [] then m else m(''groups'' \<mapsto> gg)));
                 h = (\<lambda>m. if tid = [] then m else m(''tenant_id'' \<mapsto> JString tid))
             in \<lparr>tr_AccessToken = h (f acc), tr_IDToken = h (f idt)\<rparr>)"
    unfolding r fresh using session by (simp add: composeTokenResponse_def newHookResponse_def Let_def)
  with names show ?thesis by (auto simp: Let_def)
qed

theorem hook_claims_witness:
  "tr_IDToken (composeTokenResponse \<lparr>tr_AccessToken = Map.empty, tr_IDToken = Map.empty\<rparr> ds_Claims length
     (demo_request [''groups'' \<mapsto> JString ''stale'']) \<lparr>hc_Groups = [], hc_TenantID = ''acme''\<rparr>) ''tenant_id'' = Some (JString ''acme'')
   \<and> tr_AccessToken (composeTokenResponse \<lparr>tr_AccessToken = Map.empty, tr_IDToken = Map.empty\<rparr> ds_Claims length
     (demo_request [''groups'' \<mapsto> JString ''stale'']) \<lparr>hc_Groups = [], hc_TenantID = ''acme''\<rparr>) ''groups'' = Some (JString ''stale'')"
proof -
  have s: "th_Session (demo_request [''groups'' \<mapsto> JString ''stale'']) = Some \<lparr>ss_DefaultSession =
      Some \<lparr>ds_Subject = ''sub'', ds_Claims = Some [''email'' \<mapsto> JString ''ann'']\<rparr>, ss_Extra = Some [''groups'' \<mapsto> JString ''stale'']\<rparr>"
    by (simp add: demo_request_def demo_session_def)
  from hook_claims [OF refl s _ refl, of ds_Claims "[''email'' \<mapsto> JString ''ann'']" length "[]" "''acme''"] show ?thesis by simp
qed

end
