(* ===== verification/Authentication.thy ===== *)
theory Authentication
  imports GroupsApi
begin

text \<open>
  JWT authentication of the management APIs (\<^verbatim>\<open>pkg/authentication\<close>): the verifier with its two authorization
  criteria, the no-op verifier, the HTTP middleware and the stream interceptor in front of the handlers, and the
  parsing of the configured subjects (\<^verbatim>\<open>cmd/serve.go\<close>). Signature, issuer and expiry are checked by the OIDC
  library, which is a parameter. The locale \<open>token_verifier\<close> is the contract of
  \<open>TokenVerifierInterface\<close>, interpreted on both verifiers.
\<close>

section \<open>Verifiers\<close>

record token_claims =
  tc_Subject :: string
  tc_Scope :: string
  tc_Scopes :: "string list"

text \<open>\<open>jv_Verify\<close> and \<open>jv_Claims\<close> are the OIDC library's \<open>IDTokenVerifier.Verify\<close> and
  \<open>IDToken.Claims\<close>.\<close>

record 'tok JWTVerifier =
  jv_Verify :: "string \<Rightarrow> 'tok res"
  jv_Claims :: "'tok \<Rightarrow> token_claims res"
  jv_allowedSubjects :: "string list"
  jv_requiredScope :: string

definition VerifyToken :: "'tok JWTVerifier \<Rightarrow> string \<Rightarrow> bool res" where
  "VerifyToken v rawToken =
     (case jv_Verify v rawToken of
        Inl err \<Rightarrow> Inl err
      | Inr token \<Rightarrow>
          (case jv_Claims v token of
             Inl err \<Rightarrow> Inl err
           | Inr claims \<Rightarrow>
               if length (jv_allowedSubjects v) > 0 \<and> tc_Subject claims \<in> set (jv_allowedSubjects v) then Inr True
               else if jv_requiredScope v \<noteq> [] \<and> tc_Scope claims \<noteq> [] \<and> jv_requiredScope v \<in> set (Fields (tc_Scope claims))
               then Inr True
               else if jv_requiredScope v \<noteq> [] \<and> jv_requiredScope v \<in> set (tc_Scopes claims) then Inr True
               else Inr False))"

definition NoopVerifier :: "string \<Rightarrow> bool res" where
  "NoopVerifier rawToken = Inr True"

section \<open>Construction\<close>

text \<open>The OIDC library: a provider found by discovery makes verifiers for a configuration; \<open>oi_NewVerifier\<close> is
  \<open>oidc.NewVerifier\<close> for an issuer on the remote key set of a URL; \<open>oi_Issuer\<close> is the issuer of a token.\<close>

record oidc_config =
  oc_SkipClientIDCheck :: bool
  oc_SkipIssuerCheck :: bool

record 'tok oidc =
  oi_NewProvider :: "string \<Rightarrow> (oidc_config \<Rightarrow> string \<Rightarrow> 'tok res) res"
  oi_NewVerifier :: "string \<Rightarrow> string \<Rightarrow> oidc_config \<Rightarrow> string \<Rightarrow> 'tok res"
  oi_Claims :: "'tok \<Rightarrow> token_claims res"
  oi_Issuer :: "'tok \<Rightarrow> string"

text \<open>What the library documents: unless told to skip the check, a verifier accepts tokens of its issuer only.\<close>

definition checks_issuer :: "'tok oidc \<Rightarrow> bool" where
  "checks_issuer lib \<longleftrightarrow>
     (\<forall>issuer verifier cfg raw tok. oi_NewProvider lib issuer = Inr verifier \<longrightarrow> \<not> oc_SkipIssuerCheck cfg \<longrightarrow>
        verifier cfg raw = Inr tok \<longrightarrow> oi_Issuer lib tok = issuer)
     \<and> (\<forall>issuer jwksURL cfg raw tok. \<not> oc_SkipIssuerCheck cfg \<longrightarrow> oi_NewVerifier lib issuer jwksURL cfg raw = Inr tok \<longrightarrow>
        oi_Issuer lib tok = issuer)"

definition NewProvider :: "'tok oidc \<Rightarrow> string \<Rightarrow> (oidc_config \<Rightarrow> string \<Rightarrow> 'tok res) res" where
  "NewProvider lib issuer =
     (case oi_NewProvider lib issuer of
        Inl err \<Rightarrow> Inl (Errorf_v ''failed to create OIDC provider'' err)
      | Inr provider \<Rightarrow> Inr provider)"

definition NewProviderWithJWKS :: "'tok oidc \<Rightarrow> string \<Rightarrow> string \<Rightarrow> (string \<Rightarrow> 'tok res) res" where
  "NewProviderWithJWKS lib issuer jwksURL =
     Inr (oi_NewVerifier lib issuer jwksURL \<lparr>oc_SkipClientIDCheck = True, oc_SkipIssuerCheck = False\<rparr>)"

definition NewJWTVerifier ::
  "'tok oidc \<Rightarrow> (oidc_config \<Rightarrow> string \<Rightarrow> 'tok res) \<Rightarrow> string \<Rightarrow> string list \<Rightarrow> string \<Rightarrow> 'tok JWTVerifier" where
  "NewJWTVerifier lib provider issuer allowedSubjects requiredScope =
     \<lparr>jv_Verify = provider \<lparr>oc_SkipClientIDCheck = True, oc_SkipIssuerCheck = False\<rparr>, jv_Claims = oi_Claims lib,
      jv_allowedSubjects = allowedSubjects, jv_requiredScope = requiredScope\<rparr>"

definition NewJWTVerifierDirect ::
  "'tok oidc \<Rightarrow> (string \<Rightarrow> 'tok res) \<Rightarrow> string list \<Rightarrow> string \<Rightarrow> 'tok JWTVerifier" where
  "NewJWTVerifierDirect lib verifier allowedSubjects requiredScope =
     \<lparr>jv_Verify = verifier, jv_Claims = oi_Claims lib, jv_allowedSubjects = allowedSubjects, jv_requiredScope = requiredScope\<rparr>"

definition NewJWTAuthenticator ::
  "'tok oidc \<Rightarrow> string \<Rightarrow> string \<Rightarrow> string list \<Rightarrow> string \<Rightarrow> 'tok JWTVerifier res" where
  "NewJWTAuthenticator lib issuer jwksURL allowedSubjects requiredScope =
     (if issuer = [] then Inl (ErrorNew ''issuer is required for JWT authentication'')
      else if jwksURL \<noteq> [] then
        (case NewProviderWithJWKS lib issuer jwksURL of
           Inl err \<Rightarrow> Inl (Errorf_v ''failed to create JWKS verifier'' err)
         | Inr idTokenVerifier \<Rightarrow> Inr (NewJWTVerifierDirect lib idTokenVerifier allowedSubjects requiredScope))
      else
        (case NewProvider lib issuer of
           Inl err \<Rightarrow> Inl (Errorf_v ''failed to create OIDC provider'' err)
         | Inr provider \<Rightarrow> Inr (NewJWTVerifier lib provider issuer allowedSubjects requiredScope)))"

lemmas authenticator_defs =
  NewJWTAuthenticator_def NewProvider_def NewProviderWithJWKS_def NewJWTVerifier_def NewJWTVerifierDirect_def

lemma NewJWTAuthenticator_fields:
  assumes "NewJWTAuthenticator lib issuer jwksURL subjects scope = Inr v"
  shows "issuer \<noteq> []" "jv_Claims v = oi_Claims lib" "jv_allowedSubjects v = subjects" "jv_requiredScope v = scope"
  using assms by (auto simp: authenticator_defs split: if_splits sum.splits)

lemma checks_issuerD:
  assumes "checks_issuer lib"
  shows "oi_NewProvider lib issuer = Inr provider \<Longrightarrow> provider \<lparr>oc_SkipClientIDCheck = c, oc_SkipIssuerCheck = False\<rparr> raw = Inr tok
      \<Longrightarrow> oi_Issuer lib tok = issuer"
    and "oi_NewVerifier lib issuer jwksURL \<lparr>oc_SkipClientIDCheck = c, oc_SkipIssuerCheck = False\<rparr> raw = Inr tok
      \<Longrightarrow> oi_Issuer lib tok = issuer"
  using assms unfolding checks_issuer_def by (metis oidc_config.select_convs(2))+

lemma NewJWTAuthenticator_issuer:
  assumes "NewJWTAuthenticator lib issuer jwksURL subjects scope = Inr v" and "checks_issuer lib" and "jv_Verify v raw = Inr tok"
  shows "oi_Issuer lib tok = issuer"
  using assms(1,3) by (auto simp: authenticator_defs split: if_splits sum.splits intro: checks_issuerD [OF assms(2)])

text \<open>The subjects of the configuration: separated by commas, trimmed, empty ones dropped.\<close>

definition allowed_subjects :: "string \<Rightarrow> string list" where
  "allowed_subjects spec =
     (if spec = [] then [] else filter (\<lambda>s. s \<noteq> []) (map TrimSpace (Split spec (CHR '',''))))"

section \<open>In front of the handlers\<close>

text \<open>A missing header reads as the empty string.\<close>

definition getBearerToken :: "string \<Rightarrow> string option" where
  "getBearerToken bearer =
     (if bearer = [] then None
      else if \<not> HasPrefix bearer ''Bearer '' then None
      else Some (TrimPrefix bearer ''Bearer ''))"

definition unauthorizedResponse :: "string \<Rightarrow> world \<Rightarrow> (nat \<times> (json + 'b)) \<times> world" where
  "unauthorizedResponse message w = ((401, Inl (JObject [(''message'', JString message), (''status'', JNumber ''401'')])), w)"

definition Authenticate :: "(string \<Rightarrow> bool res) \<Rightarrow> string \<Rightarrow> 'b http_handler \<Rightarrow> (json + 'b) http_handler" where
  "Authenticate verify header next c w =
     (case getBearerToken header of
        None \<Rightarrow> unauthorizedResponse ''missing authorization header'' w
      | Some token \<Rightarrow>
          (case verify token of
             Inl err \<Rightarrow> unauthorizedResponse ''invalid token'' w
           | Inr authorized \<Rightarrow>
               if \<not> authorized then unauthorizedResponse ''unauthorized'' w
               else (case next c w of ((code, b), w1) \<Rightarrow> ((code, Inr b), w1))))"

text \<open>The values of the metadata key \<open>authorization\<close>; \<open>None\<close> when the context has no metadata.\<close>

definition StreamAuthenticate ::
  "(string \<Rightarrow> bool res) \<Rightarrow> string list option \<Rightarrow> ('st \<Rightarrow> 'a rpc \<times> 'st) \<Rightarrow> 'st \<Rightarrow> 'a rpc \<times> 'st" where
  "StreamAuthenticate verify md handler st =
     (case md of
        None \<Rightarrow> (Inl (status_Errorf Unauthenticated ''missing metadata''), st)
      | Some values \<Rightarrow>
          (case values of
             [] \<Rightarrow> (Inl (status_Errorf Unauthenticated ''missing authorization header''), st)
           | bearer # _ \<Rightarrow>
               if \<not> HasPrefix bearer ''Bearer '' then (Inl (status_Errorf Unauthenticated ''invalid authorization format''), st)
               else
                 (case verify (TrimPrefix bearer ''Bearer '') of
                    Inl err \<Rightarrow> (Inl (status_Errorf Unauthenticated ''invalid token''), st)
                  | Inr authorized \<Rightarrow>
                      if \<not> authorized then (Inl (status_Errorf Unauthenticated ''unauthorized''), st)
                      else handler st)))"

section \<open>The contract\<close>

text \<open>A verifier decides, for every token, whether it is an authorized one.\<close>

locale token_verifier =
  fixes verify :: "string \<Rightarrow> bool res" and authorized :: "string \<Rightarrow> bool"
  assumes verdict: "verify t = Inr True \<longleftrightarrow> authorized t"
begin

lemma verify_other: "\<not> authorized t \<Longrightarrow> (\<exists>e. verify t = Inl e) \<or> verify t = Inr False"
  using verdict [of t] by (cases "verify t") auto

lemma http_accepts:
  assumes "header = ''Bearer '' @ t" "authorized t"
  shows "Authenticate verify header next c w = (case next c w of ((code, b), w1) \<Rightarrow> ((code, Inr b), w1))"
  using assms verdict [of t] by (simp add: Authenticate_def getBearerToken_def del: append_Cons)

lemma http_refuses:
  assumes "\<nexists>t. header = ''Bearer '' @ t \<and> authorized t"
  shows "\<exists>msg. Authenticate verify header next c w = ((401, Inl msg), w)"
proof (cases "getBearerToken header")
  case (Some t)
  then have "header = ''Bearer '' @ t"
    by (auto simp: getBearerToken_def simp del: append_Cons split: if_splits elim: HasPrefixE)
  with assms have "\<not> authorized t" by blast
  with verify_other [OF this] Some show ?thesis by (auto simp: Authenticate_def unauthorizedResponse_def)
qed (simp add: Authenticate_def unauthorizedResponse_def)

lemma stream_accepts:
  assumes "authorized t"
  shows "StreamAuthenticate verify (Some ((''Bearer '' @ t) # vs)) handler st = handler st"
  using assms verdict [of t] by (simp add: StreamAuthenticate_def del: append_Cons)

lemma stream_refuses:
  assumes "\<nexists>t vs. md = Some ((''Bearer '' @ t) # vs) \<and> authorized t"
  shows "\<exists>msg. StreamAuthenticate verify md handler st = (Inl \<lparr>st_code = Unauthenticated, st_message = msg\<rparr>, st)"
proof (cases "\<exists>t vs. md = Some ((''Bearer '' @ t) # vs)")
  case True
  then obtain t vs where md: "md = Some ((''Bearer '' @ t) # vs)" by blast
  with assms have "\<not> authorized t" by blast
  with verify_other [OF this] md show ?thesis
    by (auto simp: StreamAuthenticate_def status_Errorf_def simp del: append_Cons)
next
  case False
  then show ?thesis
    by (auto simp: StreamAuthenticate_def status_Errorf_def simp del: append_Cons split: option.splits list.splits elim!: HasPrefixE)
qed

end

text \<open>What the JWT verifier authorizes: a token the library accepts, whose subject is one of the allowed ones,
  or that carries the required scope, as a word of \<open>scope\<close> or a member of \<open>scp\<close>.\<close>

definition jwt_authorized :: "'tok JWTVerifier \<Rightarrow> string \<Rightarrow> bool" where
  "jwt_authorized v raw \<longleftrightarrow> (\<exists>tok cl. jv_Verify v raw = Inr tok \<and> jv_Claims v tok = Inr cl \<and>
     (tc_Subject cl \<in> set (jv_allowedSubjects v)
      \<or> jv_requiredScope v \<noteq> [] \<and> jv_requiredScope v \<in> set (Fields (tc_Scope cl)) \<union> set (tc_Scopes cl)))"

interpretation jwt: token_verifier "VerifyToken v" "jwt_authorized v" for v :: "'tok JWTVerifier"
proof
  fix t
  show "VerifyToken v t = Inr True \<longleftrightarrow> jwt_authorized v t"
    by (auto simp: VerifyToken_def jwt_authorized_def Fields_def split: sum.splits)
qed

interpretation open_api: token_verifier NoopVerifier "\<lambda>t. True"
  by unfold_locales (simp add: NoopVerifier_def)


section \<open>Properties\<close>

lemma refused_under_transaction:
  assumes "\<And>c w. h c w = ((401, x), w)"
  shows "\<exists>w'. TransactionMiddleware env meth h c w = ((401, x), w')
       \<and> w_primary w' = w_primary w \<and> w_replica w' = w_replica w \<and> w_lazyTx w' = w_lazyTx w"
  using assms by (simp add: TransactionMiddleware_def WithTx_def Let_def)

text \<open>C9: the management APIs are reached with an authorized token only. For every handler: a request whose
  header is \<open>Bearer\<close> and an authorized token is handed on unchanged; any other one (no header, another scheme, a
  token the library rejects, a token that meets neither criterion) is answered with 401 or \<open>Unauthenticated\<close>
  without running the handler, and under the transaction middleware it leaves both databases alone.\<close>

theorem apis_require_an_authorized_token:
  "(if \<exists>t. header = ''Bearer '' @ t \<and> jwt_authorized v t
    then \<forall>c w. Authenticate (VerifyToken v) header next c w = (case next c w of ((code, b), w1) \<Rightarrow> ((code, Inr b), w1))
    else \<exists>msg. \<forall>c w. \<exists>w'. TransactionMiddleware env meth (Authenticate (VerifyToken v) header next) c w = ((401, Inl msg), w')
           \<and> w_primary w' = w_primary w \<and> w_replica w' = w_replica w)
   \<and> (if \<exists>t vs. md = Some ((''Bearer '' @ t) # vs) \<and> jwt_authorized v t
      then StreamAuthenticate (VerifyToken v) md handler st = handler st
      else \<exists>msg. StreamAuthenticate (VerifyToken v) md handler st = (Inl \<lparr>st_code = Unauthenticated, st_message = msg\<rparr>, st))"
proof
  show "if \<exists>t. header = ''Bearer '' @ t \<and> jwt_authorized v t
    then \<forall>c w. Authenticate (VerifyToken v) header next c w = (case next c w of ((code, b), w1) \<Rightarrow> ((code, Inr b), w1))
    else \<exists>msg. \<forall>c w. \<exists>w'. TransactionMiddleware env meth (Authenticate (VerifyToken v) header next) c w = ((401, Inl msg), w')
           \<and> w_primary w' = w_primary w \<and> w_replica w' = w_replica w"
  proof (cases "\<exists>t. header = ''Bearer '' @ t \<and> jwt_authorized v t")
    case True
    then obtain t where "header = ''Bearer '' @ t" "jwt_authorized v t" by blast
    from jwt.http_accepts [OF this, of "next"] True show ?thesis by simp
  next
    case False
    define msg where "msg = JObject [(''message'', JString (case getBearerToken header of None \<Rightarrow> ''missing authorization header''
        | Some t \<Rightarrow> (case VerifyToken v t of Inl e \<Rightarrow> ''invalid token'' | Inr b \<Rightarrow> ''unauthorized''))), (''status'', JNumber ''401'')]"
    have refused: "Authenticate (VerifyToken v) header next c w = ((401, Inl msg), w)" for c w
      using jwt.http_refuses [OF False, of "next" c w]
      by (auto simp: msg_def Authenticate_def unauthorizedResponse_def split: option.splits sum.splits if_splits prod.splits)
    have "\<exists>w'. TransactionMiddleware env meth (Authenticate (VerifyToken v) header next) c w = ((401, Inl msg), w')
        \<and> w_primary w' = w_primary w \<and> w_replica w' = w_replica w \<and> w_lazyTx w' = w_lazyTx w" for c w
      by (rule refused_under_transaction) (rule refused)
    with False show ?thesis by (simp only: if_False) blast
  qed
  show "if \<exists>t vs. md = Some ((''Bearer '' @ t) # vs) \<and> jwt_authorized v t
      then StreamAuthenticate (VerifyToken v) md handler st = handler st
      else \<exists>msg. StreamAuthenticate (VerifyToken v) md handler st = (Inl \<lparr>st_code = Unauthenticated, st_message = msg\<rparr>, st)"
    using jwt.stream_accepts [of v] jwt.stream_refuses [of md v] by auto
qed

lemma TrimSpace_trimmed:
  assumes "TrimSpace s \<noteq> []"
  shows "\<not> is_space (hd (TrimSpace s))" "\<not> is_space (last (TrimSpace s))"
proof -
  let ?r = "dropWhile is_space (rev (dropWhile is_space s))"
  from assms have r: "?r \<noteq> []" by (simp add: TrimSpace_def)
  then show "\<not> is_space (last (TrimSpace s))" using hd_dropWhile [OF r] by (simp add: TrimSpace_def last_rev)
  have "dropWhile is_space s \<noteq> []" using r by (metis dropWhile.simps(1) rev.simps(1))
  moreover have "last ?r = last (rev (dropWhile is_space s))" using r last_drop by (metis dropWhile_eq_drop drop_eq_Nil linorder_not_le)
  ultimately have "last ?r = hd (dropWhile is_space s)" by (simp add: last_rev)
  with hd_dropWhile [of is_space s] \<open>dropWhile is_space s \<noteq> []\<close> show "\<not> is_space (hd (TrimSpace s))"
    by (simp add: TrimSpace_def hd_rev)
qed

lemma Split_parts: "x \<in> set (Split s sep) \<Longrightarrow> sep \<notin> set x"
  by (induction s arbitrary: x) (auto split: if_splits list.splits)

lemma set_TrimSpace: "set (TrimSpace s) \<subseteq> set s"
proof
  fix c assume "c \<in> set (TrimSpace s)"
  then have "c \<in> set (dropWhile is_space (rev (dropWhile is_space s)))" by (simp add: TrimSpace_def)
  then have "c \<in> set (dropWhile is_space s)" by (metis set_dropWhileD set_rev)
  then show "c \<in> set s" by (rule set_dropWhileD)
qed

text \<open>C27: authentication denies by default. A token is authorized only after the library accepted it, so its issuer
  is the configured one; a configured subject is never empty, has no outer white space and no comma, so a token without
  a subject is never let in by the list; and with a blank list and no required scope no token is authorized at all.\<close>

theorem jwt_denies_by_default:
  assumes lib: "checks_issuer lib"
    and v: "NewJWTAuthenticator lib issuer jwksURL (allowed_subjects spec) scope = Inr v"
    and ok: "VerifyToken v raw = Inr True"
  shows "issuer \<noteq> [] \<and> (\<exists>tok cl. jv_Verify v raw = Inr tok \<and> oi_Issuer lib tok = issuer \<and> oi_Claims lib tok = Inr cl \<and>
     ((tc_Subject cl \<noteq> [] \<and> \<not> is_space (hd (tc_Subject cl)) \<and> \<not> is_space (last (tc_Subject cl)) \<and> CHR '','' \<notin> set (tc_Subject cl)
        \<and> tc_Subject cl \<in> TrimSpace ` set (Split spec (CHR '','')))
      \<or> (scope \<noteq> [] \<and> (scope \<in> set (Fields (tc_Scope cl)) \<or> scope \<in> set (tc_Scopes cl)))))"
proof -
  note f = NewJWTAuthenticator_fields [OF v]
  from ok obtain tok cl where t: "jv_Verify v raw = Inr tok" "oi_Claims lib tok = Inr cl"
    "tc_Subject cl \<in> set (allowed_subjects spec) \<or> scope \<noteq> [] \<and> scope \<in> set (Fields (tc_Scope cl)) \<union> set (tc_Scopes cl)"
    using jwt.verdict [of v raw] f by (auto simp: jwt_authorized_def)
  have "s \<noteq> [] \<and> \<not> is_space (hd s) \<and> \<not> is_space (last s) \<and> CHR '','' \<notin> set s \<and> s \<in> TrimSpace ` set (Split spec (CHR '',''))"
    if "s \<in> set (allowed_subjects spec)" for s
  proof -
    from that obtain x where x: "x \<in> set (Split spec (CHR '',''))" "s = TrimSpace x" "s \<noteq> []"
      by (auto simp: allowed_subjects_def split: if_splits)
    with TrimSpace_trimmed [of x] Split_parts [OF x(1)] set_TrimSpace [of x] show ?thesis by blast
  qed
  with t f(1) NewJWTAuthenticator_issuer [OF v lib t(1)] show ?thesis by blast
qed

text \<open>A library whose tokens are pairs of an issuer and a subject, and an identity provider that signs its own.\<close>

definition demo_oidc :: "(string \<times> string) oidc" where
  "demo_oidc = \<lparr>oi_NewProvider = (\<lambda>issuer. Inl (ErrorNew ''offline'')), oi_NewVerifier = (\<lambda>issuer url cfg raw. Inr (issuer, raw)),
     oi_Claims = (\<lambda>tok. Inr \<lparr>tc_Subject = snd tok, tc_Scope = [], tc_Scopes = []\<rparr>), oi_Issuer = fst\<rparr>"

theorem jwt_denies_by_default_witness:
  "\<exists>v. NewJWTAuthenticator demo_oidc ''iss'' ''url'' (allowed_subjects '' a, b'') [] = Inr v
     \<and> VerifyToken v ''b'' = Inr True \<and> ''b'' \<in> TrimSpace ` set (Split '' a, b'' (CHR '',''))"
proof -
  have lib: "checks_issuer demo_oidc" by (simp add: checks_issuer_def demo_oidc_def)
  obtain v where n: "NewJWTAuthenticator demo_oidc ''iss'' ''url'' (allowed_subjects '' a, b'') [] = Inr v"
    by (simp add: authenticator_defs)
  then have "VerifyToken v ''b'' = Inr True"
    by (auto simp: authenticator_defs VerifyToken_def allowed_subjects_def TrimSpace_def is_space_def demo_oidc_def)
  from jwt_denies_by_default [OF lib n this] n this show ?thesis by (auto simp: authenticator_defs demo_oidc_def)
qed

end
