(* ===== verification/Web.thy ===== *)
theory Web
  imports Hooks Authentication
begin

text \<open>
  The HTTP surface (\<^verbatim>\<open>pkg/web\<close>, \<^verbatim>\<open>pkg/status\<close>, \<^verbatim>\<open>pkg/metrics\<close>, \<^verbatim>\<open>internal/monitoring\<close>): the router with its
  chain of middlewares, the routes and which credentials guard them, the status endpoints and the response time
  metric. The gateway that turns HTTP requests into calls of the gRPC handlers, the Prometheus handler and the
  CORS library are parameters; chi's matching of a request to a route is written out for the routes of the
  service. The state of a request is the database and an extra state \<open>'x\<close> of everything else (OpenFGA, the tenant
  service), which the transaction middleware does not touch.
\<close>

section \<open>Status\<close>

record BuildInfo =
  bi_Version :: string
  bi_CommitHash :: string
  bi_Name :: string

definition Version :: string where "Version = ''1.3.1''"

fun gitRevision :: "(string \<times> string) list \<Rightarrow> string" where
  "gitRevision [] = ''n/a''"
| "gitRevision ((key, value) # settings) = (if key = ''vcs.revision'' then value else gitRevision settings)"

text \<open>\<open>read\<close> is the result of \<open>debug.ReadBuildInfo\<close>: the path of the main module and the build settings.\<close>

definition buildInfo :: "(string \<times> (string \<times> string) list) option \<Rightarrow> BuildInfo option" where
  "buildInfo read =
     (case read of
        None \<Rightarrow> None
      | Some (path, settings) \<Rightarrow> Some \<lparr>bi_Version = Version, bi_CommitHash = gitRevision settings, bi_Name = path\<rparr>)"

definition info_json :: "BuildInfo \<Rightarrow> json" where
  "info_json i = JObject [(''version'', JString (bi_Version i)), (''commit_hash'', JString (bi_CommitHash i)), (''name'', JString (bi_Name i))]"

definition alive :: "(string \<times> (string \<times> string) list) option \<Rightarrow> nat \<times> json" where
  "alive read =
     (200, JObject [(''status'', JString ''ok''), (''buildInfo'', case buildInfo read of None \<Rightarrow> JNull | Some i \<Rightarrow> info_json i)])"

definition version :: "(string \<times> (string \<times> string) list) option \<Rightarrow> nat \<times> json" where
  "version read =
     (200, info_json (case buildInfo read of None \<Rightarrow> \<lparr>bi_Version = [], bi_CommitHash = [], bi_Name = []\<rparr> | Some i \<Rightarrow> i))"

section \<open>Requests and routes\<close>

record http_request =
  hr_Method :: string
  hr_Path :: string
  hr_Authorization :: string
  hr_body :: "string res"

text \<open>A body is text, a JSON document, what another component answered, or nothing, because the handler panicked
  (the connection is closed) or never returned. For the latter two the code is 500: the transaction is
  rolled back, or is never committed, as for an error.\<close>

datatype 'b http_body = Text string | JsonBody json | Body 'b | Aborted | Pending

datatype endpoint =
  HookEndpoint | MetricsEndpoint | StatusEndpoint | VersionEndpoint | AuthzEndpoint | WrongMethod | NoRoute

definition on_method :: "string \<Rightarrow> string \<Rightarrow> endpoint \<Rightarrow> endpoint" where
  "on_method expected actual e = (if actual = expected then e else WrongMethod)"

text \<open>The routes the components register; \<open>Mount\<close> takes the path itself and everything below it.\<close>

definition route :: "string \<Rightarrow> string \<Rightarrow> endpoint" where
  "route m p =
     (if p = ''/api/v0/hook/hydra'' then on_method ''POST'' m HookEndpoint
      else if p = ''/api/v0/metrics'' then on_method ''GET'' m MetricsEndpoint
      else if p = ''/api/v0/status'' then on_method ''GET'' m StatusEndpoint
      else if p = ''/api/v0/version'' then on_method ''GET'' m VersionEndpoint
      else if p = ''/api/v0/authz'' \<or> HasPrefix p ''/api/v0/authz/'' then AuthzEndpoint
      else NoRoute)"

record ('b, 'x) handlers =
  hd_hook :: "string res \<Rightarrow> ctx \<Rightarrow> world \<times> 'x \<Rightarrow> (nat \<times> string) outcome \<times> (world \<times> 'x)"
  hd_gateway :: "http_request \<Rightarrow> ctx \<Rightarrow> world \<times> 'x \<Rightarrow> (nat \<times> 'b) \<times> (world \<times> 'x)"
  hd_metrics :: "nat \<times> 'b"
  hd_build :: "(string \<times> (string \<times> string) list) option"

definition hook_route ::
  "string \<Rightarrow> ('b, 'x) handlers \<Rightarrow> http_request \<Rightarrow> 'x \<Rightarrow> ('b http_body \<times> 'x) http_handler" where
  "hook_route token hs req x c w =
     (case hook_endpoint token (hd_hook hs (hr_body req) c) (hr_Authorization req) (w, x) of
        (Returns (code, body), (w1, x1)) \<Rightarrow> ((code, (Text body, x1)), w1)
      | (Panics, (w1, x1)) \<Rightarrow> ((500, (Aborted, x1)), w1)
      | (Blocks, (w1, x1)) \<Rightarrow> ((500, (Pending, x1)), w1))"

text \<open>The sub-router of the gateway, behind the JWT middleware when authentication is enabled.\<close>

definition authz_router ::
  "bool \<Rightarrow> (string \<Rightarrow> bool res) \<Rightarrow> ('b, 'x) handlers \<Rightarrow> http_request \<Rightarrow> 'x \<Rightarrow> ('b http_body \<times> 'x) http_handler" where
  "authz_router authenticationEnabled verify hs req x c w =
     (let next = (\<lambda>c w. case hd_gateway hs req c (w, x) of ((code, b), (w1, x1)) \<Rightarrow> ((code, (Body b, x1)), w1)) in
      if authenticationEnabled then
        (case Authenticate verify (hr_Authorization req) next c w of
           ((code, Inl msg), w1) \<Rightarrow> ((code, (JsonBody msg, x)), w1)
         | ((code, Inr bx), w1) \<Rightarrow> ((code, bx), w1))
      else next c w)"

definition serve_mux ::
  "string \<Rightarrow> bool \<Rightarrow> (string \<Rightarrow> bool res) \<Rightarrow> ('b, 'x) handlers \<Rightarrow> http_request \<Rightarrow> 'x \<Rightarrow> ('b http_body \<times> 'x) http_handler" where
  "serve_mux token authenticationEnabled verify hs req x c w =
     (case route (hr_Method req) (hr_Path req) of
        HookEndpoint \<Rightarrow> hook_route token hs req x c w
      | MetricsEndpoint \<Rightarrow> ((fst (hd_metrics hs), (Body (snd (hd_metrics hs)), x)), w)
      | StatusEndpoint \<Rightarrow> ((fst (alive (hd_build hs)), (JsonBody (snd (alive (hd_build hs))), x)), w)
      | VersionEndpoint \<Rightarrow> ((fst (version (hd_build hs)), (JsonBody (snd (version (hd_build hs))), x)), w)
      | AuthzEndpoint \<Rightarrow> authz_router authenticationEnabled verify hs req x c w
      | WrongMethod \<Rightarrow> ((405, (Text [], x)), w)
      | NoRoute \<Rightarrow> ((404, (Text (''404 page not found'' @ [CHR 0x0A]), x)), w))"

section \<open>Middlewares\<close>

record cors_options =
  co_AllowedOrigins :: "string list"
  co_AllowedMethods :: "string list"
  co_AllowedHeaders :: "string list"
  co_AllowCredentials :: bool
  co_MaxAge :: nat

definition middlewareCORS :: "string list \<Rightarrow> cors_options" where
  "middlewareCORS origins =
     \<lparr>co_AllowedOrigins = origins,
      co_AllowedMethods = [''HEAD'', ''GET'', ''POST'', ''PUT'', ''PATCH'', ''DELETE'', ''OPTIONS''],
      co_AllowedHeaders = [''*''], co_AllowCredentials = True, co_MaxAge = 300\<rparr>"

text \<open>\<open>regex.ReplaceAll\<close> with the expression \<^verbatim>\<open>{[a-zA-Z_]*}\<close> and the replacement \<open>id\<close>: leftmost matches,
  from left to right. \<open>id_match\<close> is the rest after the names of a parameter and the closing brace.\<close>

definition is_name_char :: "char \<Rightarrow> bool" where
  "is_name_char c =
     (97 \<le> (of_char c :: nat) \<and> (of_char c :: nat) \<le> 122 \<or> 65 \<le> (of_char c :: nat) \<and> (of_char c :: nat) \<le> 90 \<or> c = CHR ''_'')"

definition id_match :: "string \<Rightarrow> string option" where
  "id_match s = (case dropWhile is_name_char s of c # rest \<Rightarrow> if c = CHR ''}'' then Some rest else None | [] \<Rightarrow> None)"

lemma id_match_shorter: "id_match s = Some rest \<Longrightarrow> length rest < length s"
  using length_dropWhile_le [of is_name_char s] by (auto simp: id_match_def split: list.splits if_splits)

function replace_ids :: "string \<Rightarrow> string" where
  "replace_ids [] = []"
| "replace_ids (c # cs) =
     (if c = CHR ''{'' then (case id_match cs of Some rest \<Rightarrow> ''id'' @ replace_ids rest | None \<Rightarrow> c # replace_ids cs)
      else c # replace_ids cs)"
  by pat_completeness auto
termination
  by (relation "measure length") (auto dest: id_match_shorter)

text \<open>The tags of the metric; the measured time is left out.\<close>

definition ResponseTime :: "http_request \<Rightarrow> ((nat \<times> 'b) \<times> 'st) \<Rightarrow> (string \<times> string) list" where
  "ResponseTime req answered =
     [(''route'', hr_Method req @ replace_ids (hr_Path req)), (''status'', decimal (fst (fst answered)))]"

text \<open>The whole chain. \<open>cors\<close> is the CORS library: it answers a request itself, or lets it pass. A request is
  answered, leaves a state, and is measured.\<close>

definition NewRouter ::
  "env \<Rightarrow> (cors_options \<Rightarrow> http_request \<Rightarrow> nat option) \<Rightarrow> string \<Rightarrow> bool \<Rightarrow> (string \<Rightarrow> bool res) \<Rightarrow> ('b, 'x) handlers \<Rightarrow> bool \<Rightarrow>
   http_request \<Rightarrow> ctx \<Rightarrow> world \<times> 'x \<Rightarrow> ((nat \<times> 'b http_body) \<times> (world \<times> 'x)) \<times> (string \<times> string) list" where
  "NewRouter env cors token authenticationEnabled verify hs hasDB req c wx =
     (let mux = serve_mux token authenticationEnabled verify hs req (snd wx);
          handler = (if hasDB then TransactionMiddleware env (hr_Method req) mux else mux);
          answered =
            (case cors (middlewareCORS [''*'']) req of
               Some code \<Rightarrow> ((code, Text []), wx)
             | None \<Rightarrow> (case handler c (fst wx) of ((code, (b, x1)), w1) \<Rightarrow> ((code, b), (w1, x1)))) in
      (answered, ResponseTime req answered))"

section \<open>Guards\<close>

lemma route_authz: "HasPrefix p ''/api/v0/authz/'' \<Longrightarrow> route m p = AuthzEndpoint"
  by (auto simp: route_def elim!: HasPrefixE)

lemma route_hook: "route ''POST'' ''/api/v0/hook/hydra'' = HookEndpoint"
  by (simp add: route_def on_method_def)

text \<open>A handler that answers without touching the state, seen through the transaction middleware.\<close>

lemma untouched_under_transaction:
  assumes "\<And>c w. handler c w = ((code, b), w)"
  shows "\<exists>w'. TransactionMiddleware env meth handler c w = ((code, b), w') \<and> w_primary w' = w_primary w \<and> w_replica w' = w_replica w"
  using assms by (auto simp: TransactionMiddleware_def WithTx_def Let_def)

lemma NewRouter_untouched:
  assumes cors: "cors (middlewareCORS [''*'']) req = None"
    and mux: "\<forall>c w. serve_mux token auth verify hs req x c w = ((code, (b, x)), w)"
  shows "\<exists>w' tags. NewRouter env cors token auth verify hs True req c (w, x) = (((code, b), (w', x)), tags)
    \<and> w_primary w' = w_primary w \<and> w_replica w' = w_replica w"
proof -
  from untouched_under_transaction [of "serve_mux token auth verify hs req x" code "(b, x)" env "hr_Method req" c w] mux
  obtain w' where "TransactionMiddleware env (hr_Method req) (serve_mux token auth verify hs req x) c w = ((code, (b, x)), w')"
    "w_primary w' = w_primary w" "w_replica w' = w_replica w" by blast
  with cors show ?thesis by (simp add: NewRouter_def Let_def)
qed

lemma mux_authz_refuses:
  assumes p: "HasPrefix (hr_Path req) ''/api/v0/authz/''"
    and no: "\<nexists>t. hr_Authorization req = ''Bearer '' @ t \<and> jwt_authorized v t"
  shows "\<exists>msg. \<forall>c w. serve_mux token True (VerifyToken v) hs req x c w = ((401, (JsonBody msg, x)), w)"
proof -
  let ?next = "\<lambda>c w. case hd_gateway hs req c (w, x) of ((code, b), (w1, x1)) \<Rightarrow> ((code, (Body b, x1)), w1)"
  from jwt.http_refuses [OF no, of ?next] have "\<forall>c w. \<exists>msg. Authenticate (VerifyToken v) (hr_Authorization req) ?next c w = ((401, Inl msg), w)"
    by blast
  moreover have "fst (Authenticate (VerifyToken v) (hr_Authorization req) ?next c w) = (401, Inl msg)"
    if "Authenticate (VerifyToken v) (hr_Authorization req) ?next c0 w0 = ((401, Inl msg), w0)" for c w c0 w0 msg
    using that by (auto simp: Authenticate_def unauthorizedResponse_def split: option.splits sum.splits if_splits prod.splits)
  ultimately have "\<exists>msg. \<forall>c w. Authenticate (VerifyToken v) (hr_Authorization req) ?next c w = ((401, Inl msg), w)"
    by (metis fst_conv)
  then show ?thesis by (auto simp: serve_mux_def route_authz [OF p] authz_router_def Let_def)
qed

text \<open>C10: the endpoints are guarded as configured. With authentication enabled, a request below
  \<open>/api/v0/authz/\<close> reaches the gateway, inside the transaction middleware, exactly when it carries an
  authorized bearer token; otherwise it is answered with 401. A hook request with another \<open>Authorization\<close> header
  than the configured API token is answered with 401. A path that is not one of the service's is answered with 404. In
  all the refused cases neither database nor anything else has changed.\<close>
theorem endpoints_are_guarded:
  assumes cors: "cors (middlewareCORS [''*'']) req = None"
    and run: "NewRouter env cors token True (VerifyToken v) hs True req c (w, x) = (((code, body), (w', x')), tags)"
  shows "(HasPrefix (hr_Path req) ''/api/v0/authz/'' \<longrightarrow>
        (if \<exists>t. hr_Authorization req = ''Bearer '' @ t \<and> jwt_authorized v t
         then TransactionMiddleware env (hr_Method req)
                (\<lambda>c w. case hd_gateway hs req c (w, x) of ((code, b), (w1, x1)) \<Rightarrow> ((code, (Body b, x1)), w1)) c w
              = ((code, (body, x')), w')
         else code = 401 \<and> w_primary w' = w_primary w \<and> w_replica w' = w_replica w \<and> x' = x))
    \<and> (hr_Method req = ''POST'' \<and> hr_Path req = ''/api/v0/hook/hydra'' \<and> token \<noteq> [] \<and> hr_Authorization req \<noteq> token \<longrightarrow>
         code = 401 \<and> w_primary w' = w_primary w \<and> w_replica w' = w_replica w \<and> x' = x)
    \<and> (route (hr_Method req) (hr_Path req) = NoRoute \<longrightarrow>
         code = 404 \<and> w_primary w' = w_primary w \<and> w_replica w' = w_replica w \<and> x' = x)"
proof (intro conjI impI)
  assume p: "HasPrefix (hr_Path req) ''/api/v0/authz/''"
  show "if \<exists>t. hr_Authorization req = ''Bearer '' @ t \<and> jwt_authorized v t
         then TransactionMiddleware env (hr_Method req)
                (\<lambda>c w. case hd_gateway hs req c (w, x) of ((code, b), (w1, x1)) \<Rightarrow> ((code, (Body b, x1)), w1)) c w
              = ((code, (body, x')), w')
         else code = 401 \<and> w_primary w' = w_primary w \<and> w_replica w' = w_replica w \<and> x' = x"
  proof (cases "\<exists>t. hr_Authorization req = ''Bearer '' @ t \<and> jwt_authorized v t")
    case True
    then obtain t where t: "hr_Authorization req = ''Bearer '' @ t" "jwt_authorized v t" by blast
    have "serve_mux token True (VerifyToken v) hs req x =
        (\<lambda>c w. case hd_gateway hs req c (w, x) of ((code, b), (w1, x1)) \<Rightarrow> ((code, (Body b, x1)), w1))"
      by (intro ext) (simp add: serve_mux_def route_authz [OF p] authz_router_def jwt.http_accepts [OF t] split: prod.splits)
    with run cors True show ?thesis by (auto simp: NewRouter_def Let_def split: prod.splits)
  next
    case False
    from mux_authz_refuses [OF p this, of token hs x] obtain msg where
      "\<forall>c w. serve_mux token True (VerifyToken v) hs req x c w = ((401, (JsonBody msg, x)), w)" by blast
    from NewRouter_untouched [where cors = cors and req = req, OF cors this, of env c w] run False show ?thesis by auto
  qed
next
  assume "hr_Method req = ''POST'' \<and> hr_Path req = ''/api/v0/hook/hydra'' \<and> token \<noteq> [] \<and> hr_Authorization req \<noteq> token"
  then have "\<forall>c w. serve_mux token True (VerifyToken v) hs req x c w = ((401, (Text (''Invalid authorization header'' @ [CHR 0x0A]), x)), w)"
    by (auto simp: serve_mux_def route_hook hook_route_def hook_endpoint_def hooks_AuthMiddleware_def)
  from NewRouter_untouched [where cors = cors and req = req, OF cors this, of env c w] run
  show "code = 401" "w_primary w' = w_primary w" "w_replica w' = w_replica w" "x' = x" by auto
next
  assume "route (hr_Method req) (hr_Path req) = NoRoute"
  then have "\<forall>c w. serve_mux token True (VerifyToken v) hs req x c w = ((404, (Text (''404 page not found'' @ [CHR 0x0A]), x)), w)"
    by (simp add: serve_mux_def)
  from NewRouter_untouched [where cors = cors and req = req, OF cors this, of env c w] run
  show "code = 404" "w_primary w' = w_primary w" "w_replica w' = w_replica w" "x' = x" by auto
qed

definition demo_handlers :: "(string, nat) handlers" where
  "demo_handlers =
     \<lparr>hd_hook = (\<lambda>body c st. (Returns (200, ''granted''), st)), hd_gateway = (\<lambda>req c (w, x). ((200, ''ok''), (w, x + 1))),
      hd_metrics = (200, ''metrics''), hd_build = None\<rparr>"

definition demo_verifier :: "unit JWTVerifier" where
  "demo_verifier = \<lparr>jv_Verify = (\<lambda>raw. if raw = ''good'' then Inr () else Inl (ErrorNew ''bad'')), jv_Claims = (\<lambda>t.
     Inr \<lparr>tc_Subject = ''admin'', tc_Scope = [], tc_Scopes = []\<rparr>), jv_allowedSubjects = [''admin''], jv_requiredScope = []\<rparr>"

theorem endpoints_are_guarded_witness:
  "\<exists>body w' x' tags. NewRouter quiet_env (\<lambda>co r. None) ''secret'' True (VerifyToken demo_verifier) demo_handlers True
     \<lparr>hr_Method = ''DELETE'', hr_Path = ''/api/v0/authz/groups/g1'', hr_Authorization = ''Bearer bad'', hr_body = Inr []\<rparr> background
     (world_of demo_tables, 0) = (((401, body), (w', x')), tags) \<and> w_primary w' = demo_tables \<and> x' = 0"
proof -
  let ?req = "\<lparr>hr_Method = ''DELETE'', hr_Path = ''/api/v0/authz/groups/g1'', hr_Authorization = ''Bearer bad'', hr_body = Inr []\<rparr>"
  obtain code body w' x' tags where run: "NewRouter quiet_env (\<lambda>co r. None) ''secret'' True (VerifyToken demo_verifier) demo_handlers True
     ?req background (world_of demo_tables, 0) = (((code, body), (w', x')), tags)" by (metis prod.exhaust)
  have "\<not> jwt_authorized demo_verifier ''bad''" by (simp add: jwt_authorized_def demo_verifier_def)
  moreover have "HasPrefix (hr_Path ?req) ''/api/v0/authz/''" by (simp add: HasPrefix_def)
  ultimately show ?thesis using endpoints_are_guarded [OF refl run] run by auto
qed

section \<open>The response time metric\<close>

lemma replace_ids_plain: "CHR ''{'' \<notin> set p \<Longrightarrow> replace_ids p = p"
  by (induction p) auto

text \<open>A request's path has no braces, so the route tag is the raw path: every identifier in a path makes a new series.\<close>

lemma route_tag_is_the_raw_path:
  assumes "CHR ''{'' \<notin> set (hr_Path req)"
  shows "map_of (ResponseTime req answered) ''route'' = Some (hr_Method req @ hr_Path req)"
  by (simp add: ResponseTime_def replace_ids_plain [OF assms])

end
