(* ===== verification/Logging.thy ===== *)
theory Logging
  imports HookPrelude "HOL-Library.Multiset"
begin

text \<open>
  The loggers (\<^verbatim>\<open>internal/logging\<close>): the service logger, the security logger with its OWASP events, the
  request fields attached to them and the entries of the access log. A zap logger is modelled by what the code
  configures of it: the lowest level it writes and the lines written so far (the time stamp of a line is left
  out). \<open>DPanic\<close> only panics in zap's development mode, which is not configured.
\<close>

section \<open>Levels\<close>

datatype level = DebugLevel | InfoLevel | WarnLevel | ErrorLevel | DPanicLevel

primrec level_num :: "level \<Rightarrow> int" where
  "level_num DebugLevel = -1"
| "level_num InfoLevel = 0"
| "level_num WarnLevel = 1"
| "level_num ErrorLevel = 2"
| "level_num DPanicLevel = 3"

primrec CapitalString :: "level \<Rightarrow> string" where
  "CapitalString DebugLevel = ''DEBUG''"
| "CapitalString InfoLevel = ''INFO''"
| "CapitalString WarnLevel = ''WARN''"
| "CapitalString ErrorLevel = ''ERROR''"
| "CapitalString DPanicLevel = ''DPANIC''"

definition levelEncoder :: "level \<Rightarrow> string" where
  "levelEncoder l = (case l of DPanicLevel \<Rightarrow> ''CRITICAL'' | _ \<Rightarrow> CapitalString l)"

text \<open>The names both constructors know; any other one leaves the zero value of \<open>zapcore.Level\<close>, which is
  \<open>InfoLevel\<close>.\<close>

definition security_level :: "string \<Rightarrow> level" where
  "security_level l =
     (let s = ToLower l in
      if s = ''debug'' then DebugLevel
      else if s = ''info'' then InfoLevel
      else if s = ''warn'' then WarnLevel
      else if s = ''error'' then ErrorLevel
      else if s = ''critical'' then DPanicLevel
      else InfoLevel)"

definition service_level :: "string \<Rightarrow> level" where
  "service_level l =
     (let s = ToLower l in
      if s = ''debug'' then DebugLevel
      else if s = ''info'' then InfoLevel
      else if s = ''warning'' then WarnLevel
      else if s = ''error'' then ErrorLevel
      else if s = ''critical'' then DPanicLevel
      else InfoLevel)"

section \<open>Loggers\<close>

type_synonym Field = "string \<times> string"
type_synonym Option = "Field list"

record log_line =
  ln_level :: string
  ln_description :: string
  ln_fields :: "Field list"

record zap_logger =
  zl_level :: "level option"
  zl_encode :: "level \<Rightarrow> string"
  zl_context :: "Field list"
  zl_out :: "log_line list"

text \<open>\<open>zap.NewNop\<close> writes at no level; otherwise a line is written when its level is enabled.\<close>

definition zap_log :: "level \<Rightarrow> string \<Rightarrow> Field list \<Rightarrow> zap_logger \<Rightarrow> zap_logger" where
  "zap_log l msg fs z =
     (case zl_level z of
        None \<Rightarrow> z
      | Some lvl \<Rightarrow>
          if level_num lvl \<le> level_num l
          then z\<lparr>zl_out := zl_out z @ [\<lparr>ln_level = zl_encode z l, ln_description = msg, ln_fields = zl_context z @ fs\<rparr>]\<rparr>
          else z)"

definition APP_ID :: string where "APP_ID = ''identity_platform.hook_service''"

definition NewSecurityLogger :: "string \<Rightarrow> zap_logger" where
  "NewSecurityLogger l =
     \<lparr>zl_level = Some (security_level l), zl_encode = levelEncoder,
      zl_context = [(''appid'', APP_ID), (''type'', ''security'')], zl_out = []\<rparr>"

definition NewServiceLogger :: "string \<Rightarrow> zap_logger" where
  "NewServiceLogger l =
     \<lparr>zl_level = Some (service_level l), zl_encode = CapitalString, zl_context = [(''type'', ''service'')], zl_out = []\<rparr>"

record Logger =
  lg_service :: zap_logger
  lg_security :: zap_logger

definition NewLogger :: "string \<Rightarrow> Logger" where
  "NewLogger l = \<lparr>lg_service = NewServiceLogger l, lg_security = NewSecurityLogger l\<rparr>"

definition NewNoopLogger :: Logger where
  "NewNoopLogger =
     \<lparr>lg_service = \<lparr>zl_level = None, zl_encode = CapitalString, zl_context = [], zl_out = []\<rparr>,
      lg_security = \<lparr>zl_level = None, zl_encode = CapitalString, zl_context = [], zl_out = []\<rparr>\<rparr>"

section \<open>Request fields\<close>

text \<open>What the code reads of a \<open>net/http\<close> request.\<close>

record Request =
  rq_UserAgent :: string
  rq_RemoteAddr :: string
  rq_Host :: string
  rq_Proto :: string
  rq_RequestURI :: string
  rq_Method :: string
  rq_TLS :: bool

definition UserAgentKey :: string where "UserAgentKey = ''useragent''"
definition SourceIpKey :: string where "SourceIpKey = ''source_ip''"
definition HostnameKey :: string where "HostnameKey = ''hostname''"
definition ProtocolKey :: string where "ProtocolKey = ''protocol''"
definition PortKey :: string where "PortKey = ''port''"
definition RequestUriKey :: string where "RequestUriKey = ''request_uri''"
definition RequestMethodKey :: string where "RequestMethodKey = ''request_method''"

lemmas key_defs = UserAgentKey_def SourceIpKey_def HostnameKey_def ProtocolKey_def PortKey_def RequestUriKey_def
  RequestMethodKey_def

definition WithRequest :: "Request \<Rightarrow> Option" where
  "WithRequest request =
     (let h = Split (rq_Host request) (CHR '':'');
          fs =
            [(''useragent'', rq_UserAgent request),
             (''source_ip'', rq_RemoteAddr request),
             (''hostname'', h ! 0),
             (''protocol'', rq_Proto request),
             (''request_uri'', rq_RequestURI request),
             (''request_method'', rq_Method request)] in
      if length h > 1 then fs @ [(''port'', h ! 1)] else fs)"

text \<open>A context is nil or a map of values of any type (here JSON values stand for them); the type assertion
  panics (\<open>None\<close>) on a value that is not a string. The table of labels is a Go map, met in the order
  \<open>rank\<close> gives.\<close>

definition context_labels :: "(string \<times> string) list" where
  "context_labels =
     [(UserAgentKey, ''useragent''), (SourceIpKey, ''source_ip''), (HostnameKey, ''hostname''),
      (ProtocolKey, ''protocol''), (PortKey, ''port''), (RequestUriKey, ''request_uri''),
      (RequestMethodKey, ''request_method'')]"

fun context_fields :: "(string \<rightharpoonup> json) \<Rightarrow> (string \<times> string) list \<Rightarrow> Option \<Rightarrow> Option option" where
  "context_fields c [] ret = Some ret"
| "context_fields c ((key, label) # ls) ret =
     (case c key of
        None \<Rightarrow> context_fields c ls ret
      | Some (JString v) \<Rightarrow> context_fields c ls (ret @ [(label, v)])
      | Some _ \<Rightarrow> None)"

definition WithContext :: "(string \<Rightarrow> nat) \<Rightarrow> (string \<rightharpoonup> json) option \<Rightarrow> Option option" where
  "WithContext rank c =
     (case c of None \<Rightarrow> Some []
      | Some m \<Rightarrow> context_fields m (sort_key (\<lambda>e. rank (fst e)) context_labels) [])"

definition WithLabel :: "string \<Rightarrow> string \<Rightarrow> Option" where
  "WithLabel key value = [(key, value)]"

definition LogContextMiddleware :: "((string \<rightharpoonup> json) \<Rightarrow> 'a) \<Rightarrow> Request \<Rightarrow> (string \<rightharpoonup> json) \<Rightarrow> 'a" where
  "LogContextMiddleware next r c =
     (let c1 = c(UserAgentKey \<mapsto> JString (rq_UserAgent r));
          c2 = c1(SourceIpKey \<mapsto> JString (rq_RemoteAddr r));
          c3 = c2(ProtocolKey \<mapsto> JString (rq_Proto r));
          c4 = c3(RequestUriKey \<mapsto> JString (rq_RequestURI r));
          c5 = c4(RequestMethodKey \<mapsto> JString (rq_Method r));
          h = Split (rq_Host r) (CHR '':'');
          c6 = c5(HostnameKey \<mapsto> JString (h ! 0));
          c7 = (if length h > 1 then c6(PortKey \<mapsto> JString (h ! 1)) else c6) in
      next c7)"

section \<open>Security events\<close>

fun append_options :: "Field list \<Rightarrow> Option list \<Rightarrow> Field list" where
  "append_options fs [] = fs"
| "append_options fs (opt # opts) = append_options (fs @ opt) opts"

definition SuccessfulLogin :: "string \<Rightarrow> Option list \<Rightarrow> zap_logger \<Rightarrow> zap_logger" where
  "SuccessfulLogin user options a =
     zap_log InfoLevel (''User '' @ user @ '' login successfully'') (append_options [(''event'', ''authn_login_success:'' @ user)] options) a"

definition FailedLogin :: "string \<Rightarrow> Option list \<Rightarrow> zap_logger \<Rightarrow> zap_logger" where
  "FailedLogin err options a =
     zap_log WarnLevel (''User login failed, '' @ err) (append_options [(''event'', ''authn_login_fail:'' @ err)] options) a"

definition AccountLockout :: "string \<Rightarrow> Option list \<Rightarrow> zap_logger \<Rightarrow> zap_logger" where
  "AccountLockout user options a =
     zap_log WarnLevel (''User '' @ user @ '' login locked because maxretries exceeded'') (append_options [(''event'', ''authn_login_lock:'' @ user @ '',maxretries'')] options) a"

definition PasswordChange :: "string \<Rightarrow> Option list \<Rightarrow> zap_logger \<Rightarrow> zap_logger" where
  "PasswordChange user options a =
     zap_log InfoLevel (''User '' @ user @ '' has successfully changed their password'') (append_options [(''event'', ''authn_password_change:'' @ user)] options) a"

definition PasswordChangeFail :: "string \<Rightarrow> Option list \<Rightarrow> zap_logger \<Rightarrow> zap_logger" where
  "PasswordChangeFail user options a =
     zap_log DPanicLevel (''User '' @ user @ '' failed to change their password'') (append_options [(''event'', ''authn_password_change_fail:'' @ user)] options) a"

definition TokenCreate :: "Option list \<Rightarrow> zap_logger \<Rightarrow> zap_logger" where
  "TokenCreate options a =
     zap_log InfoLevel (''A token has been created'') (append_options [(''event'', ''authn_token_created:'' @ APP_ID)] options) a"

definition TokenRevoke :: "Option list \<Rightarrow> zap_logger \<Rightarrow> zap_logger" where
  "TokenRevoke options a =
     zap_log InfoLevel (''A token has been revoked'') (append_options [(''event'', ''authn_token_revoked:'' @ APP_ID)] options) a"

definition TokenReuse :: "string \<Rightarrow> Option list \<Rightarrow> zap_logger \<Rightarrow> zap_logger" where
  "TokenReuse token options a =
     zap_log DPanicLevel (''Someone attempted to use token ID: '' @ token @ '' which was previously revoked'') (append_options [(''event'', ''authn_token_reuse:'' @ APP_ID @ '','' @ token)] options) a"

definition TokenDelete :: "string \<Rightarrow> Option list \<Rightarrow> zap_logger \<Rightarrow> zap_logger" where
  "TokenDelete user options a =
     zap_log InfoLevel (''Session was deleted for user '' @ user) (append_options [(''event'', ''authn_token_delete:'' @ user)] options) a"

definition AuthzFailure :: "string \<Rightarrow> string \<Rightarrow> Option list \<Rightarrow> zap_logger \<Rightarrow> zap_logger" where
  "AuthzFailure user resource options a =
     zap_log DPanicLevel (''User '' @ user @ '' attempted to access resource '' @ resource @ '' without entitlement'') (append_options [(''event'', ''authz_fail:'' @ user @ '','' @ resource)] options) a"

definition AuthzFailureNotEmployee :: "string \<Rightarrow> Option list \<Rightarrow> zap_logger \<Rightarrow> zap_logger" where
  "AuthzFailureNotEmployee user options a =
     zap_log DPanicLevel (''User '' @ user @ '' logged in, but they are not a canonical employee'') (append_options [(''event'', ''authz_fail:'' @ user @ '',not_employee'')] options) a"

definition AuthzFailureNoSession :: "string \<Rightarrow> Option list \<Rightarrow> zap_logger \<Rightarrow> zap_logger" where
  "AuthzFailureNoSession api options a =
     zap_log DPanicLevel (''User tried to access the '' @ api @ '' API without a session'') (append_options [(''event'', ''authz_fail:no_session'')] options) a"

definition AuthzFailureApplicationAccess :: "string \<Rightarrow> string \<Rightarrow> Option list \<Rightarrow> zap_logger \<Rightarrow> zap_logger" where
  "AuthzFailureApplicationAccess user clientID options a =
     zap_log WarnLevel (''User '' @ user @ '' tried to access application '' @ clientID) (append_options [(''event'', ''authz_fail:'' @ user @ '','' @ clientID)] options) a"

definition AuthzFailureInsufficientPermissions :: "string \<Rightarrow> string \<Rightarrow> string \<Rightarrow> Option list \<Rightarrow> zap_logger \<Rightarrow> zap_logger" where
  "AuthzFailureInsufficientPermissions user action api options a =
     zap_log WarnLevel (''User '' @ user @ '' tried to perform `'' @ action @ ''` on the `'' @ api @ ''` API without enough permissions'') (append_options [(''event'', ''authz_fail:'' @ user @ '','' @ api)] options) a"

definition AuthzFailureRoleAssignment :: "string \<Rightarrow> string \<Rightarrow> Option list \<Rightarrow> zap_logger \<Rightarrow> zap_logger" where
  "AuthzFailureRoleAssignment user roles options a =
     zap_log WarnLevel (''User '' @ user @ '' tried to assign the `'' @ roles @ ''` roles  without enough permissions'') (append_options [(''event'', ''authz_fail:'' @ user @ '','' @ roles)] options) a"

definition AuthzFailureIdentityAssignment :: "string \<Rightarrow> string \<Rightarrow> Option list \<Rightarrow> zap_logger \<Rightarrow> zap_logger" where
  "AuthzFailureIdentityAssignment user identities options a =
     zap_log WarnLevel (''User '' @ user @ '' tried to assign the `'' @ identities @ ''` identities  without enough permissions'') (append_options [(''event'', ''authz_fail:'' @ user @ '',identities'')] options) a"

definition AdminAction :: "string \<Rightarrow> string \<Rightarrow> string \<Rightarrow> string \<Rightarrow> Option list \<Rightarrow> zap_logger \<Rightarrow> zap_logger" where
  "AdminAction user action api resource options a =
     zap_log InfoLevel (''User '' @ user @ '' has '' @ action @ '' the `'' @ api @ ''` `'' @ resource @ ''`'') (append_options [(''event'', ''authz_admin:'' @ user @ '','' @ api @ '','' @ action)] options) a"

definition SystemStartup :: "Option list \<Rightarrow> zap_logger \<Rightarrow> zap_logger" where
  "SystemStartup options a =
     zap_log WarnLevel (''New instance spawned'') (append_options [(''event'', ''system_startup'')] options) a"

definition SystemShutdown :: "Option list \<Rightarrow> zap_logger \<Rightarrow> zap_logger" where
  "SystemShutdown options a =
     zap_log WarnLevel (''Instance stopped'') (append_options [(''event'', ''system_shutdown'')] options) a"

definition SystemRestart :: "Option list \<Rightarrow> zap_logger \<Rightarrow> zap_logger" where
  "SystemRestart options a =
     zap_log WarnLevel (''Instance restarted'') (append_options [(''event'', ''system_restart'')] options) a"

definition SystemCrash :: "Option list \<Rightarrow> zap_logger \<Rightarrow> zap_logger" where
  "SystemCrash options a =
     zap_log WarnLevel (''Instance crashed'') (append_options [(''event'', ''system_crash'')] options) a"

section \<open>The access log\<close>

record LogEntry =
  le_request :: Request
  le_buf :: string

definition NewLogEntry :: "string \<Rightarrow> Request \<Rightarrow> LogEntry" where
  "NewLogEntry reqID r =
     (let buf1 = (if reqID \<noteq> [] then ''['' @ reqID @ ''] '' else []);
          buf2 = buf1 @ rq_Method r @ '' '';
          scheme = (if rq_TLS r then ''https'' else ''http'');
          buf3 = buf2 @ scheme @ ''://'' @ rq_Host r @ rq_RequestURI r @ '' '' @ rq_Proto r @ '' '';
          buf4 = buf3 @ ''from '' @ rq_RemoteAddr r @ '' '' in
      \<lparr>le_request = r, le_buf = buf4\<rparr>)"

text \<open>The verb \<^verbatim>\<open>%03d\<close>; the texts of the header map and of the duration come from the \<open>fmt\<close> package.\<close>

definition pad3 :: "nat \<Rightarrow> string" where
  "pad3 n = (let d = decimal n in replicate (3 - length d) (CHR ''0'') @ d)"

definition LogEntry_Write :: "LogEntry \<Rightarrow> nat \<Rightarrow> nat \<Rightarrow> string \<Rightarrow> string \<Rightarrow> Logger \<Rightarrow> Logger" where
  "LogEntry_Write l status bytes header elapsed lg =
     (let buf = le_buf l @ header @ '' '' @ pad3 status @ '' '' @ decimal bytes @ ''B in '' @ elapsed in
      lg\<lparr>lg_service := zap_log DebugLevel buf [] (lg_service lg)\<rparr>)"

section \<open>Which events are written\<close>

text \<open>The calls of the security logger as data, and the severity each is meant to have.\<close>

datatype security_event =
    EvSuccessfulLogin string
  | EvFailedLogin string
  | EvAccountLockout string
  | EvPasswordChange string
  | EvPasswordChangeFail string
  | EvTokenCreate
  | EvTokenRevoke
  | EvTokenReuse string
  | EvTokenDelete string
  | EvAuthzFailure string string
  | EvAuthzFailureNotEmployee string
  | EvAuthzFailureNoSession string
  | EvAuthzFailureApplicationAccess string string
  | EvAuthzFailureInsufficientPermissions string string string
  | EvAuthzFailureRoleAssignment string string
  | EvAuthzFailureIdentityAssignment string string
  | EvAdminAction string string string string
  | EvSystemStartup
  | EvSystemShutdown
  | EvSystemRestart
  | EvSystemCrash

primrec emit :: "security_event \<Rightarrow> Option list \<Rightarrow> zap_logger \<Rightarrow> zap_logger" where
  "emit (EvSuccessfulLogin x) = SuccessfulLogin x"
| "emit (EvFailedLogin x) = FailedLogin x"
| "emit (EvAccountLockout x) = AccountLockout x"
| "emit (EvPasswordChange x) = PasswordChange x"
| "emit (EvPasswordChangeFail x) = PasswordChangeFail x"
| "emit EvTokenCreate = TokenCreate"
| "emit EvTokenRevoke = TokenRevoke"
| "emit (EvTokenReuse x) = TokenReuse x"
| "emit (EvTokenDelete x) = TokenDelete x"
| "emit (EvAuthzFailure x y) = AuthzFailure x y"
| "emit (EvAuthzFailureNotEmployee x) = AuthzFailureNotEmployee x"
| "emit (EvAuthzFailureNoSession x) = AuthzFailureNoSession x"
| "emit (EvAuthzFailureApplicationAccess x y) = AuthzFailureApplicationAccess x y"
| "emit (EvAuthzFailureInsufficientPermissions x y z) = AuthzFailureInsufficientPermissions x y z"
| "emit (EvAuthzFailureRoleAssignment x y) = AuthzFailureRoleAssignment x y"
| "emit (EvAuthzFailureIdentityAssignment x y) = AuthzFailureIdentityAssignment x y"
| "emit (EvAdminAction x y z u) = AdminAction x y z u"
| "emit EvSystemStartup = SystemStartup"
| "emit EvSystemShutdown = SystemShutdown"
| "emit EvSystemRestart = SystemRestart"
| "emit EvSystemCrash = SystemCrash"

definition severity :: "security_event \<Rightarrow> level" where
  "severity e =
     (case e of
        EvFailedLogin _ \<Rightarrow> WarnLevel
      | EvAccountLockout _ \<Rightarrow> WarnLevel
      | EvPasswordChangeFail _ \<Rightarrow> DPanicLevel
      | EvTokenReuse _ \<Rightarrow> DPanicLevel
      | EvAuthzFailure _ _ \<Rightarrow> DPanicLevel
      | EvAuthzFailureNotEmployee _ \<Rightarrow> DPanicLevel
      | EvAuthzFailureNoSession _ \<Rightarrow> DPanicLevel
      | EvAuthzFailureApplicationAccess _ _ \<Rightarrow> WarnLevel
      | EvAuthzFailureInsufficientPermissions _ _ _ \<Rightarrow> WarnLevel
      | EvAuthzFailureRoleAssignment _ _ \<Rightarrow> WarnLevel
      | EvAuthzFailureIdentityAssignment _ _ \<Rightarrow> WarnLevel
      | EvSystemStartup \<Rightarrow> WarnLevel
      | EvSystemShutdown \<Rightarrow> WarnLevel
      | EvSystemRestart \<Rightarrow> WarnLevel
      | EvSystemCrash \<Rightarrow> WarnLevel
      | _ \<Rightarrow> InfoLevel)"

lemmas event_defs = SuccessfulLogin_def FailedLogin_def AccountLockout_def PasswordChange_def PasswordChangeFail_def TokenCreate_def TokenRevoke_def TokenReuse_def TokenDelete_def AuthzFailure_def AuthzFailureNotEmployee_def AuthzFailureNoSession_def AuthzFailureApplicationAccess_def AuthzFailureInsufficientPermissions_def AuthzFailureRoleAssignment_def AuthzFailureIdentityAssignment_def AdminAction_def SystemStartup_def SystemShutdown_def SystemRestart_def SystemCrash_def

lemma append_options_concat [simp]: "append_options fs opts = fs @ concat opts"
  by (induction opts arbitrary: fs) simp_all

lemma emit_out:
  assumes "zl_level z = Some l"
  shows "\<exists>msg ev. emit e opts z =
    (if level_num l \<le> level_num (severity e)
     then z\<lparr>zl_out := zl_out z @ [\<lparr>ln_level = zl_encode z (severity e), ln_description = msg,
            ln_fields = zl_context z @ (''event'', ev) # concat opts\<rparr>]\<rparr>
     else z)"
  using assms by (cases e) (simp_all add: event_defs zap_log_def severity_def, blast+)

definition emit_all :: "(security_event \<times> Option list) list \<Rightarrow> zap_logger \<Rightarrow> zap_logger" where
  "emit_all es z = fold (\<lambda>e. emit (fst e) (snd e)) es z"

definition line_view :: "log_line \<Rightarrow> string \<times> Field list \<times> string \<times> Field list" where
  "line_view ln = (ln_level ln, take 2 (ln_fields ln), fst (ln_fields ln ! 2), drop 3 (ln_fields ln))"

lemma emit_all_view:
  assumes "zl_level z = Some l" and "zl_encode z = levelEncoder" and "zl_context z = [a, b]"
  shows "map line_view (zl_out (emit_all es z)) = map line_view (zl_out z) @
    map (\<lambda>e. (levelEncoder (severity (fst e)), [a, b], ''event'', concat (snd e)))
      (filter (\<lambda>e. level_num l \<le> level_num (severity (fst e))) es)"
  using assms
proof (induction es arbitrary: z)
  case Nil
  then show ?case by (simp add: emit_all_def)
next
  case (Cons e es)
  from emit_out [OF Cons.prems(1), of "fst e" "snd e"] obtain msg ev where
    step: "emit (fst e) (snd e) z =
    (if level_num l \<le> level_num (severity (fst e))
     then z\<lparr>zl_out := zl_out z @ [\<lparr>ln_level = zl_encode z (severity (fst e)), ln_description = msg,
            ln_fields = zl_context z @ (''event'', ev) # concat (snd e)\<rparr>]\<rparr>
     else z)" by blast
  have unroll: "emit_all (e # es) z = emit_all es (emit (fst e) (snd e) z)" by (simp add: emit_all_def)
  show ?case
  proof (cases "level_num l \<le> level_num (severity (fst e))")
    case True
    with Cons.IH [of "emit (fst e) (snd e) z"] Cons.prems show ?thesis
      by (simp add: unroll step line_view_def numeral_2_eq_2 numeral_3_eq_3)
  next
    case False
    with Cons.IH [of z] Cons.prems show ?thesis by (simp add: unroll step)
  qed
qed

text \<open>The security log is complete and labelled. Whatever sequence of events is reported, the log has one
  line for each event whose severity reaches the configured level, in order and with nothing in between; the line
  carries the application, the type, the event and then every field of the caller's options, and critical events are
  called \<open>CRITICAL\<close>.\<close>
theorem security_log_complete:
  "map line_view (zl_out (emit_all es (NewSecurityLogger l))) =
     map (\<lambda>e. (if severity (fst e) = DPanicLevel then ''CRITICAL'' else CapitalString (severity (fst e)),
               [(''appid'', ''identity_platform.hook_service''), (''type'', ''security'')], ''event'', concat (snd e)))
       (filter (\<lambda>e. level_num (security_level l) \<le> level_num (severity (fst e))) es)"
proof -
  have enc: "levelEncoder v = (if v = DPanicLevel then ''CRITICAL'' else CapitalString v)" for v
    by (cases v) (simp_all add: levelEncoder_def)
  have "map line_view (zl_out (emit_all es (NewSecurityLogger l))) =
      map (\<lambda>e. (levelEncoder (severity (fst e)), [(''appid'', APP_ID), (''type'', ''security'')], ''event'', concat (snd e)))
        (filter (\<lambda>e. level_num (security_level l) \<le> level_num (severity (fst e))) es)"
    using emit_all_view [of "NewSecurityLogger l" "security_level l" "(''appid'', APP_ID)" "(''type'', ''security'')" es]
    by (simp add: NewSecurityLogger_def)
  then show ?thesis by (simp add: enc APP_ID_def)
qed

text \<open>One name of a level does not fit both loggers. The two loggers give the same meaning to a level exactly
  when it is neither \<open>warn\<close> nor \<open>warning\<close>, in any case: the documented \<open>warn\<close> makes the service logger
  write from \<open>INFO\<close> on, and \<open>warning\<close> does the same to the security logger. And at the default level
  \<open>error\<close> neither the start nor the end of the service leaves a line in the security log.\<close>
theorem level_names_disagree:
  "(service_level l = security_level l \<longleftrightarrow> ToLower l \<notin> {''warn'', ''warning''})
   \<and> service_level ''warn'' = InfoLevel \<and> security_level ''warn'' = WarnLevel
   \<and> service_level ''warning'' = WarnLevel \<and> security_level ''warning'' = InfoLevel
   \<and> zl_out (SystemShutdown o2 (SystemStartup o1 (NewSecurityLogger ''error''))) = []"
proof -
  have low: "ToLower ''warn'' = ''warn''" "ToLower ''warning'' = ''warning''" "ToLower ''error'' = ''error''"
    by (simp_all add: ToLower_def)
  have "service_level l = security_level l \<longleftrightarrow> ToLower l \<notin> {''warn'', ''warning''}"
    by (auto simp: service_level_def security_level_def Let_def)
  moreover have "zl_out (SystemShutdown o2 (SystemStartup o1 (NewSecurityLogger ''error''))) = []"
    by (simp add: NewSecurityLogger_def security_level_def low SystemStartup_def SystemShutdown_def zap_log_def)
  ultimately show ?thesis by (simp add: service_level_def security_level_def low)
qed

section \<open>Fields of a request\<close>

lemma context_fields_strings:
  assumes "\<And>k. k \<in> fst ` set ls \<Longrightarrow> m k = map_option JString (sv k)"
  shows "context_fields m ls ret = Some (ret @ List.map_filter (\<lambda>(k, label). map_option (Pair label) (sv k)) ls)"
  using assms
proof (induction m ls ret rule: context_fields.induct)
  case (2 c key label ls ret)
  then have "c key = map_option JString (sv key)" by simp
  with 2 show ?case by (cases "sv key") (simp_all add: List.map_filter_simps)
qed (simp add: List.map_filter_simps)

lemma Split_length: "1 < length (Split s sep) \<longleftrightarrow> sep \<in> set s"
  by (induction s) (auto split: list.splits)

lemma mset_map_filter_sort: "mset (List.map_filter f (sort_key r xs)) = mset (List.map_filter f xs)"
  by (simp add: List.map_filter_def mset_filter)

text \<open>A handler behind the middleware and one that has the request log the same thing. For every order in
  which the table of keys is met, the fields read back from the context are those taken from the request itself,
  with the same multiplicities, unless an outer context already carries a port and the request's host has none.\<close>
theorem context_fields_are_request_fields:
  assumes port: "c PortKey = None \<or> CHR '':'' \<in> set (rq_Host r)"
  shows "\<exists>fs. LogContextMiddleware (\<lambda>c'. WithContext rank (Some c')) r c = Some fs \<and> mset fs = mset (WithRequest r)"
proof -
  let ?h = "Split (rq_Host r) (CHR '':'')"
  define sv where "sv = [UserAgentKey \<mapsto> rq_UserAgent r, SourceIpKey \<mapsto> rq_RemoteAddr r, ProtocolKey \<mapsto> rq_Proto r,
      RequestUriKey \<mapsto> rq_RequestURI r, RequestMethodKey \<mapsto> rq_Method r, HostnameKey \<mapsto> ?h ! 0]
      (PortKey := if length ?h > 1 then Some (?h ! 1) else None)"
  define m where "m = LogContextMiddleware id r c"
  have "\<forall>k \<in> set (map fst context_labels). m k = map_option JString (sv k)"
  proof (cases "length ?h > 1")
    case True
    then show ?thesis by (simp add: m_def sv_def LogContextMiddleware_def context_labels_def key_defs Let_def)
  next
    case False
    with port Split_length [of "rq_Host r" "CHR '':''"] have "c PortKey = None" by blast
    with False show ?thesis by (simp add: m_def sv_def LogContextMiddleware_def context_labels_def key_defs Let_def)
  qed
  then have "m k = map_option JString (sv k)" if "k \<in> fst ` set (sort_key (\<lambda>e. rank (fst e)) context_labels)" for k
    using that by auto
  note fs = context_fields_strings [of "sort_key (\<lambda>e. rank (fst e)) context_labels" m sv "[]", OF this]
  have "mset (List.map_filter (\<lambda>(k, label). map_option (Pair label) (sv k)) context_labels) = mset (WithRequest r)"
    by (simp add: sv_def context_labels_def key_defs WithRequest_def Let_def List.map_filter_simps)
  with fs have "\<exists>fs. WithContext rank (Some m) = Some fs \<and> mset fs = mset (WithRequest r)"
    by (simp add: WithContext_def mset_map_filter_sort)
  then show ?thesis by (simp add: m_def LogContextMiddleware_def Let_def)
qed

definition demo_http_request :: Request where
  "demo_http_request = \<lparr>rq_UserAgent = ''curl'', rq_RemoteAddr = ''10.0.0.1'', rq_Host = ''hook:8080'', rq_Proto = ''HTTP/1.1'',
     rq_RequestURI = ''/api/v0/status'', rq_Method = ''GET'', rq_TLS = False\<rparr>"

theorem context_fields_are_request_fields_witness:
  "\<exists>fs. LogContextMiddleware (\<lambda>c. WithContext length (Some c)) demo_http_request Map.empty = Some fs
     \<and> (''port'', ''8080'') \<in># mset fs"
proof -
  from context_fields_are_request_fields [of Map.empty demo_http_request length] obtain fs where
    "LogContextMiddleware (\<lambda>c. WithContext length (Some c)) demo_http_request Map.empty = Some fs"
    "mset fs = mset (WithRequest demo_http_request)" by auto
  moreover have "(''port'', ''8080'') \<in># mset (WithRequest demo_http_request)"
    by (simp add: WithRequest_def demo_http_request_def)
  ultimately show ?thesis by metis
qed

end
