(* ===== verification/Migrate.thy ===== *)
theory Migrate
  imports HookPrelude
begin

text \<open>
  The command \<open>migrate\<close> (\<^verbatim>\<open>cmd/migrate.go\<close>): validation of its arguments, the choice of the operation and
  the report of its outcome. The migrations themselves are carried out by goose on a connection opened by pgx; both
  are parameters: goose's operations act on a state of any type and answer with the JSON form of their results.
  The exit code of the process is what a caller of the command sees.
\<close>

section \<open>Numbers\<close>

text \<open>\<open>strconv.Atoi\<close> on a 64-bit platform: the value and the error, which come together also when the number
  is out of range.\<close>

definition is_digit :: "char \<Rightarrow> bool" where
  "is_digit c = (48 \<le> (of_char c :: nat) \<and> (of_char c :: nat) \<le> 57)"

definition digits_value :: "string \<Rightarrow> int" where
  "digits_value ds = foldl (\<lambda>n c. 10 * n + int (of_char c - 48)) 0 ds"

definition atoi_error :: "string \<Rightarrow> string \<Rightarrow> error" where
  "atoi_error s why = ErrorNew (''strconv.Atoi: parsing '' @ strconv_Quote s @ '': '' @ why)"

definition Atoi :: "string \<Rightarrow> int \<times> error option" where
  "Atoi s =
     (let neg = (s \<noteq> [] \<and> hd s = CHR ''-'');
          ds = (if s \<noteq> [] \<and> (hd s = CHR ''-'' \<or> hd s = CHR ''+'') then tl s else s) in
      if ds = [] \<or> \<not> list_all is_digit ds then (0, Some (atoi_error s ''invalid syntax''))
      else
        let n = digits_value ds in
        if neg then (if n > 2 ^ 63 then (- (2 ^ 63), Some (atoi_error s ''value out of range'')) else (- n, None))
        else (if n > 2 ^ 63 - 1 then (2 ^ 63 - 1, Some (atoi_error s ''value out of range'')) else (n, None)))"

section \<open>Arguments\<close>

text \<open>\<open>RangeArgs\<close> is cobra's check of the number of arguments; \<^verbatim>\<open>%q\<close> of a slice quotes its elements.\<close>

fun quote_all :: "string list \<Rightarrow> string" where
  "quote_all [] = []"
| "quote_all [a] = strconv_Quote a"
| "quote_all (a # as) = strconv_Quote a @ '' '' @ quote_all as"

definition customValidArgs :: "(nat \<Rightarrow> nat \<Rightarrow> string list \<Rightarrow> error option) \<Rightarrow> string list \<Rightarrow> error option" where
  "customValidArgs RangeArgs args =
     (if length args = 0 then None
      else
        (case RangeArgs 0 2 args of
           Some err \<Rightarrow> Some err
         | None \<Rightarrow>
             let first = args ! 0 in
             if first \<notin> {''up'', ''down'', ''status'', ''check''}
             then Some (ErrorNew (''invalid first argument: '' @ strconv_Quote first))
             else if length args = 2 then
               (if first \<noteq> ''down'' then Some (ErrorNew (''invalid argument combination: ['' @ quote_all args @ '']''))
                else
                  (case Atoi (args ! 1) of (version, err) \<Rightarrow>
                     if err \<noteq> None \<or> version < 0
                     then Some (ErrorNew (''invalid version number: '' @ strconv_Quote (args ! 1))) else None))
             else None))"

section \<open>Operations\<close>

record MigrationStatus =
  ms_Applied :: bool
  ms_AppliedAt :: string
  ms_Path :: string

record 'g goose =
  gp_Up :: "'g \<Rightarrow> json list option res \<times> 'g"
  gp_Down :: "'g \<Rightarrow> json res \<times> 'g"
  gp_DownTo :: "int \<Rightarrow> 'g \<Rightarrow> json list option res \<times> 'g"
  gp_Status :: "'g \<Rightarrow> MigrationStatus list res \<times> 'g"
  gp_HasPending :: "'g \<Rightarrow> bool res \<times> 'g"
  gp_GetDBVersion :: "'g \<Rightarrow> int \<times> error option"

text \<open>What a command writes: JSON documents (the encoder fails when the writer does), lines of the log, and text
  on the standard output. \<open>Encode\<close> is the encoder on the command's output.\<close>

datatype out_item = OutJSON json | OutLog string | OutText string

type_synonym 'g cmd_result = "(error option \<times> out_item list) \<times> 'g"

definition encode_json :: "(json \<Rightarrow> error option) \<Rightarrow> json \<Rightarrow> error option \<times> out_item list" where
  "encode_json Encode j = (case Encode j of None \<Rightarrow> (None, [OutJSON j]) | Some e \<Rightarrow> (Some e, []))"

definition applied_results :: "json list option \<Rightarrow> json" where
  "applied_results results = JObject [(''applied'', JArray (case results of None \<Rightarrow> [] | Some rs \<Rightarrow> rs))]"

definition runUp :: "(json \<Rightarrow> error option) \<Rightarrow> 'g goose \<Rightarrow> string \<Rightarrow> 'g \<Rightarrow> 'g cmd_result" where
  "runUp Encode provider format g =
     (case gp_Up provider g of
        (Inl err, g1) \<Rightarrow> ((Some err, []), g1)
      | (Inr results, g1) \<Rightarrow>
          (if format = ''json'' then encode_json Encode (applied_results results) else (None, []), g1))"

definition runDown :: "(json \<Rightarrow> error option) \<Rightarrow> 'g goose \<Rightarrow> int \<Rightarrow> string \<Rightarrow> 'g \<Rightarrow> 'g cmd_result" where
  "runDown Encode provider version format g =
     (let (results, g1) =
        (if version = -1 then
           (case gp_Down provider g of (Inl err, g1) \<Rightarrow> (Inl err, g1) | (Inr result, g1) \<Rightarrow> (Inr (Some [result]), g1))
         else gp_DownTo provider version g) in
      case results of
        Inl err \<Rightarrow> ((Some err, []), g1)
      | Inr rs \<Rightarrow> (if format = ''json'' then encode_json Encode (applied_results rs) else (None, []), g1))"

definition pad24 :: "string \<Rightarrow> string" where
  "pad24 s = s @ replicate (24 - length s) (CHR '' '')"

definition status_line :: "MigrationStatus \<Rightarrow> out_item" where
  "status_line s =
     OutLog (''    '' @ pad24 (if ms_Applied s then ms_AppliedAt s else ''Pending'') @ '' -- '' @ ms_Path s)"

definition runStatus ::
  "(MigrationStatus list \<Rightarrow> json) \<Rightarrow> (json \<Rightarrow> error option) \<Rightarrow> 'g goose \<Rightarrow> string \<Rightarrow> 'g \<Rightarrow> 'g cmd_result" where
  "runStatus statuses_json Encode provider format g =
     (case gp_Status provider g of
        (Inl err, g1) \<Rightarrow> ((Some err, []), g1)
      | (Inr statuses, g1) \<Rightarrow>
          if format = ''json'' then (encode_json Encode (statuses_json statuses), g1)
          else
            ((None, OutLog ''    Applied At                  Migration'' # OutLog ''    =======================================''
                    # map status_line statuses), g1))"

definition check_report :: "string \<Rightarrow> int \<Rightarrow> json" where
  "check_report status current = JObject [(''status'', JString status), (''version'', JNumber (show_int current))]"

definition runCheck :: "(json \<Rightarrow> error option) \<Rightarrow> 'g goose \<Rightarrow> string \<Rightarrow> 'g \<Rightarrow> 'g cmd_result" where
  "runCheck Encode provider format g =
     (case gp_HasPending provider g of
        (Inl err, g1) \<Rightarrow> ((Some (Errorf_w ''failed to check pending migrations'' err), []), g1)
      | (Inr hasPending, g1) \<Rightarrow>
          (case gp_GetDBVersion provider g1 of (current, err) \<Rightarrow>
             (if hasPending then
                (case err of
                   Some e \<Rightarrow> (Some (ErrorNew (''migrations are pending (failed to get current version: '' @ Error e @ '')'')), [])
                 | None \<Rightarrow>
                     if format = ''json'' then encode_json Encode (check_report ''pending'' current)
                     else (Some (ErrorNew (''migrations are pending: current version '' @ show_int current)), []))
              else if format = ''json'' then
                encode_json Encode (check_report (if err \<noteq> None then ''unknown'' else ''ok'') current)
              else
                (None, [OutText (if err \<noteq> None then ''Database is up to date''
                                 else ''Database is up to date (version '' @ show_int current @ '')'')]),
              g1)))"

section \<open>The command\<close>

text \<open>What pgx and goose contribute before the provider exists. The quiet logger that goose gets with the JSON
  format concerns goose only.\<close>

record 'g migrate_deps =
  md_ParseConfig :: "string \<Rightarrow> error option"
  md_Ping :: "error option"
  md_SetDialect :: "error option"
  md_NewProvider :: "'g goose res"
  md_Encode :: "json \<Rightarrow> error option"
  md_statuses_json :: "MigrationStatus list \<Rightarrow> json"

definition migrate :: "'g migrate_deps \<Rightarrow> string \<Rightarrow> string \<Rightarrow> string \<Rightarrow> int \<Rightarrow> 'g \<Rightarrow> 'g cmd_result" where
  "migrate d dsn command format version g =
     (case md_ParseConfig d dsn of
        Some err \<Rightarrow> ((Some (Errorf_v ''DSN validation failed, shutting down, err'' err), []), g)
      | None \<Rightarrow>
     (case md_Ping d of
        Some err \<Rightarrow> ((Some (Errorf_v ''DB connection failed, shutting down, err'' err), []), g)
      | None \<Rightarrow>
     (case md_SetDialect d of
        Some err \<Rightarrow> ((Some err, []), g)
      | None \<Rightarrow>
     (case md_NewProvider d of
        Inl err \<Rightarrow> ((Some (Errorf_w ''failed to create goose provider'' err), []), g)
      | Inr provider \<Rightarrow>
          if command = ''up'' then runUp (md_Encode d) provider format g
          else if command = ''down'' then runDown (md_Encode d) provider version format g
          else if command = ''status'' then runStatus (md_statuses_json d) (md_Encode d) provider format g
          else if command = ''check'' then runCheck (md_Encode d) provider format g
          else ((None, []), g)))))"

text \<open>The exit code, what was written, and goose's state.\<close>

definition runMigrate :: "'g migrate_deps \<Rightarrow> string list \<Rightarrow> string \<Rightarrow> string \<Rightarrow> 'g \<Rightarrow> (nat \<times> out_item list) \<times> 'g" where
  "runMigrate d args dsn format g =
     (let command = (if length args > 0 then args ! 0 else ''up'');
          version = (if length args > 1 then fst (Atoi (args ! 1)) else -1) in
      case migrate d dsn command format version g of
        ((Some err, out), g1) \<Rightarrow> ((1, out), g1)
      | ((None, out), g1) \<Rightarrow> ((0, out), g1))"

text \<open>The whole command: cobra runs it only when the arguments are accepted, and exits with 1 otherwise.\<close>

definition migrateCmd ::
  "(nat \<Rightarrow> nat \<Rightarrow> string list \<Rightarrow> error option) \<Rightarrow> 'g migrate_deps \<Rightarrow> string list \<Rightarrow> string \<Rightarrow> string \<Rightarrow> 'g \<Rightarrow> (nat \<times> out_item list) \<times> 'g" where
  "migrateCmd RangeArgs d args dsn format g =
     (if customValidArgs RangeArgs args \<noteq> None then ((1, []), g) else runMigrate d args dsn format g)"

section \<open>What the command does\<close>

lemma of_char_digit: "n < 10 \<Longrightarrow> (of_char (char_of (48 + n)) :: nat) = 48 + n"
  by (simp add: of_char_of)

lemma decimal_digits:
  "list_all is_digit (decimal n) \<and> decimal n \<noteq> [] \<and> digits_value (decimal n) = int n"
proof (induction n rule: decimal.induct)
  case (1 n)
  show ?case
  proof (cases "n < 10")
    case True
    then show ?thesis by (subst (1 2 3) decimal.simps) (simp add: is_digit_def digits_value_def of_char_digit)
  next
    case False
    with 1 have IH: "list_all is_digit (decimal (n div 10))" "digits_value (decimal (n div 10)) = int (n div 10)" by auto
    have d: "decimal n = decimal (n div 10) @ [char_of (48 + n mod 10)]" using False by (subst decimal.simps) simp
    have m: "(of_char (char_of (48 + n mod 10)) :: nat) = 48 + n mod 10" by (rule of_char_digit) simp
    have "digits_value (decimal n) = 10 * digits_value (decimal (n div 10)) + int (n mod 10)"
      unfolding d by (simp add: digits_value_def m)
    then have "digits_value (decimal n) = int n" using IH(2) by (simp only:) presburger
    moreover have "is_digit (char_of (48 + n mod 10))" unfolding is_digit_def m by simp
    ultimately show ?thesis using IH(1) d by simp
  qed
qed

lemma Atoi_decimal:
  assumes "int n < 2 ^ 63"
  shows "Atoi (decimal n) = (int n, None)"
proof -
  from decimal_digits [of n] have d: "list_all is_digit (decimal n)" "decimal n \<noteq> []" "digits_value (decimal n) = int n"
    by blast+
  then have "is_digit (hd (decimal n))" by (simp add: list_all_iff)
  then have "hd (decimal n) \<noteq> CHR ''-''" "hd (decimal n) \<noteq> CHR ''+''" by (auto simp: is_digit_def)
  with d assms show ?thesis by (simp add: Atoi_def)
qed

definition set_up :: "'g migrate_deps \<Rightarrow> string \<Rightarrow> 'g goose \<Rightarrow> bool" where
  "set_up d dsn p \<longleftrightarrow> md_ParseConfig d dsn = None \<and> md_Ping d = None \<and> md_SetDialect d = None \<and> md_NewProvider d = Inr p"

definition exit_of :: "'g cmd_result \<Rightarrow> (nat \<times> out_item list) \<times> 'g" where
  "exit_of r = ((if fst (fst r) = None then 0 else 1, snd (fst r)), snd r)"

lemma exit_of_case: "(case r of ((Some err, out), g1) \<Rightarrow> ((1, out), g1) | ((None, out), g1) \<Rightarrow> ((0, out), g1)) = exit_of r"
  by (cases r; cases "fst r"; cases "fst (fst r)") (simp_all add: exit_of_def)

lemma migrateCmd_set_up:
  assumes "set_up d dsn p" and "customValidArgs RangeArgs args = None"
  shows "migrateCmd RangeArgs d args dsn format g =
    (let command = (if length args > 0 then args ! 0 else ''up'');
         version = (if length args > 1 then fst (Atoi (args ! 1)) else -1) in
     exit_of
        (if command = ''up'' then runUp (md_Encode d) p format g
         else if command = ''down'' then runDown (md_Encode d) p version format g
         else if command = ''status'' then runStatus (md_statuses_json d) (md_Encode d) p format g
         else if command = ''check'' then runCheck (md_Encode d) p format g
         else ((None, []), g)))"
  using assms unfolding migrateCmd_def runMigrate_def exit_of_case Let_def
  by (simp add: migrate_def set_up_def)

lemma snd_exit_of [simp]: "snd (exit_of r) = snd r"
  by (simp add: exit_of_def)

lemma snd_run [simp]:
  "snd (runUp E p f g) = snd (gp_Up p g)"
  "snd (runDown E p v f g) = (if v = -1 then snd (gp_Down p g) else snd (gp_DownTo p v g))"
  "snd (runStatus S E p f g) = snd (gp_Status p g)"
  "snd (runCheck E p f g) = snd (gp_HasPending p g)"
  by (simp_all add: runUp_def runDown_def runStatus_def runCheck_def Let_def split: prod.splits sum.splits if_splits)

definition accepted_args :: "string list set" where
  "accepted_args = {[], [''up''], [''down''], [''status''], [''check'']} \<union> {[''down'', v] | v. snd (Atoi v) = None \<and> 0 \<le> fst (Atoi v)}"

lemma customValidArgs_accepted:
  assumes "\<forall>lo hi as. RangeArgs lo hi as = None \<longleftrightarrow> lo \<le> length as \<and> length as \<le> hi"
  shows "customValidArgs RangeArgs args = None \<longleftrightarrow> args \<in> accepted_args"
proof (cases args)
  case Nil
  then show ?thesis by (simp add: customValidArgs_def accepted_args_def)
next
  case (Cons a as)
  show ?thesis
  proof (cases as)
    case Nil
    with Cons assms show ?thesis by (auto simp: customValidArgs_def accepted_args_def split: option.splits)
  next
    case (Cons b bs)
    with \<open>args = a # as\<close> assms show ?thesis
      by (cases bs) (auto simp: customValidArgs_def accepted_args_def split: option.splits prod.splits)
  qed
qed

text \<open>The command does to the database what its arguments ask for, and nothing else. With a connection and
  migrations at hand, no argument and \<open>up\<close> migrate to the newest version, \<open>down\<close> reverts one migration,
  \<open>down\<close> with a version reverts to exactly that version (the internal \<open>-1\<close> for "one step" cannot be
  asked for), \<open>status\<close> and \<open>check\<close> only ask; every other list of arguments is refused with exit code 1
  before the database is touched.\<close>
theorem migrate_runs_what_was_asked:
  assumes range: "\<forall>lo hi as. RangeArgs lo hi as = None \<longleftrightarrow> lo \<le> length as \<and> length as \<le> hi"
    and ok: "set_up d dsn p" and n: "int n < 2 ^ 63"
  shows "snd (migrateCmd RangeArgs d [] dsn format g) = snd (gp_Up p g)
    \<and> snd (migrateCmd RangeArgs d [''up''] dsn format g) = snd (gp_Up p g)
    \<and> snd (migrateCmd RangeArgs d [''down''] dsn format g) = snd (gp_Down p g)
    \<and> snd (migrateCmd RangeArgs d [''down'', decimal n] dsn format g) = snd (gp_DownTo p (int n) g)
    \<and> snd (migrateCmd RangeArgs d [''status''] dsn format g) = snd (gp_Status p g)
    \<and> snd (migrateCmd RangeArgs d [''check''] dsn format g) = snd (gp_HasPending p g)
    \<and> (args \<notin> accepted_args \<longrightarrow> migrateCmd RangeArgs d args dsn format g = ((1, []), g))"
proof -
  note acc = customValidArgs_accepted [OF range]
  note run = migrateCmd_set_up [OF ok, of RangeArgs _ format g]
  have "[''down'', decimal n] \<in> accepted_args" using Atoi_decimal [OF n] by (simp add: accepted_args_def)
  then have down: "snd (migrateCmd RangeArgs d [''down'', decimal n] dsn format g) = snd (gp_DownTo p (int n) g)"
    using run [of "[''down'', decimal n]"] Atoi_decimal [OF n] by (simp add: acc Let_def)
  have simple: "[] \<in> accepted_args" "[''up''] \<in> accepted_args" "[''down''] \<in> accepted_args" "[''status''] \<in> accepted_args"
    "[''check''] \<in> accepted_args" by (simp_all add: accepted_args_def)
  have "migrateCmd RangeArgs d args dsn format g = ((1, []), g)" if "args \<notin> accepted_args"
  proof -
    from that acc have "customValidArgs RangeArgs args \<noteq> None" by blast
    then show ?thesis by (simp add: migrateCmd_def)
  qed
  with down simple show ?thesis by (simp add: run acc Let_def)
qed

lemma digits_of_42: "decimal 42 = ''42''"
  by code_simp

definition demo_goose :: "int goose" where
  "demo_goose =
     \<lparr>gp_Up = (\<lambda>g. (Inr None, 50)), gp_Down = (\<lambda>g. (Inr JNull, g - 1)), gp_DownTo = (\<lambda>v g. (Inr None, v)),
      gp_Status = (\<lambda>g. (Inr [], g)), gp_HasPending = (\<lambda>g. (Inr (g < 50), g)), gp_GetDBVersion = (\<lambda>g. (g, None))\<rparr>"

definition demo_deps :: "int migrate_deps" where
  "demo_deps =
     \<lparr>md_ParseConfig = (\<lambda>dsn. None), md_Ping = None, md_SetDialect = None, md_NewProvider = Inr demo_goose,
      md_Encode = (\<lambda>j. None), md_statuses_json = (\<lambda>ss. JArray [])\<rparr>"

definition demo_RangeArgs :: "nat \<Rightarrow> nat \<Rightarrow> string list \<Rightarrow> error option" where
  "demo_RangeArgs lo hi as = (if lo \<le> length as \<and> length as \<le> hi then None else Some (ErrorNew ''accepts between 0 and 2 arg(s)''))"

lemma demo_migrate:
  "set_up demo_deps dsn demo_goose" "\<forall>lo hi as. demo_RangeArgs lo hi as = None \<longleftrightarrow> lo \<le> length as \<and> length as \<le> hi"
  by (simp_all add: set_up_def demo_deps_def demo_RangeArgs_def)

theorem migrate_runs_what_was_asked_witness:
  "snd (migrateCmd demo_RangeArgs demo_deps [''down'', ''42''] [] ''text'' 50) = 42
   \<and> migrateCmd demo_RangeArgs demo_deps [''down'', ''-1''] [] ''text'' 50 = ((1, []), 50)"
proof -
  have "[''down'', ''-1''] \<notin> accepted_args"
    by (simp add: accepted_args_def Atoi_def is_digit_def digits_value_def)
  with migrate_runs_what_was_asked [OF demo_migrate(2,1), of 42 "[]" "''text''" 50 "[''down'', ''-1'']"]
  show ?thesis by (simp add: digits_of_42 demo_goose_def)
qed

text \<open>Whether pending migrations are an error depends on the output format. With migrations pending,
  \<open>migrate check\<close> exits with 1 in the text format and with 0 in the JSON format, where only the document says so;
  when none is pending it exits with 0 in both.\<close>
theorem pending_check_exit_code:
  assumes range: "\<forall>lo hi as. RangeArgs lo hi as = None \<longleftrightarrow> lo \<le> length as \<and> length as \<le> hi"
    and ok: "set_up d dsn p" and enc: "\<forall>j. md_Encode d j = None" and fmt: "format \<noteq> ''json''"
    and asked: "gp_HasPending p g = (Inr pending, g')" "gp_GetDBVersion p g' = (current, None)"
  shows "fst (fst (migrateCmd RangeArgs d [''check''] dsn format g)) = (if pending then 1 else 0)
    \<and> migrateCmd RangeArgs d [''check''] dsn ''json'' g =
        ((0, [OutJSON (check_report (if pending then ''pending'' else ''ok'') current)]), g')"
proof -
  have "[''check''] \<in> accepted_args" by (simp add: accepted_args_def)
  then have acc: "customValidArgs RangeArgs [''check''] = None" using customValidArgs_accepted [OF range] by blast
  from asked fmt enc show ?thesis
    by (cases pending) (simp_all add: migrateCmd_set_up [OF ok acc] runCheck_def exit_of_def encode_json_def)
qed

theorem pending_check_exit_code_witness:
  "fst (fst (migrateCmd demo_RangeArgs demo_deps [''check''] [] ''text'' 7)) = 1
   \<and> fst (fst (migrateCmd demo_RangeArgs demo_deps [''check''] [] ''json'' 7)) = 0"
proof -
  have enc: "\<forall>j. md_Encode demo_deps j = None" and text_format: "''text'' \<noteq> ''json''"
    and "gp_HasPending demo_goose 7 = (Inr True, 7)" "gp_GetDBVersion demo_goose 7 = (7, None)"
    by (simp_all add: demo_deps_def demo_goose_def)
  then have p: "gp_HasPending demo_goose 7 = (Inr True, 7)" "gp_GetDBVersion demo_goose 7 = (7, None)" by blast+
  from pending_check_exit_code [OF demo_migrate(2,1) enc text_format p, of "[]"] show ?thesis by simp
qed

end
