(* ===== verification/Serve.thy ===== *)
theory Serve
  imports Web Logging Migrate
begin

text \<open>
  The server process (\<^verbatim>\<open>cmd/serve.go\<close>), its configuration (\<^verbatim>\<open>internal/config/specs.go\<close>) and the command that
  writes the authorization model (\<^verbatim>\<open>cmd/createFgaModel.go\<close>). Start-up is a function of the environment and of the
  outcomes of the calls that leave the process; running is a step relation over the three tasks of the error group
  (HTTP server, gRPC server, signal handler), which finish in any order. The time limits of 15 seconds on a
  shutdown are one of the ways it ends.
\<close>

section \<open>Configuration\<close>

text \<open>Durations are in nanoseconds.\<close>

record EnvSpec =
  es_OtelGRPCEndpoint :: string
  es_OtelHTTPEndpoint :: string
  es_TracingEnabled :: bool
  es_LogLevel :: string
  es_Debug :: bool
  es_Port :: int
  es_GRPCPort :: int
  es_GRPCMaxConcurrentStreams :: int
  es_ApiToken :: string
  es_OpenfgaApiScheme :: string
  es_OpenfgaApiHost :: string
  es_OpenfgaApiToken :: string
  es_OpenfgaStoreId :: string
  es_OpenfgaModelId :: string
  es_SalesforceDomain :: string
  es_SalesforceConsumerKey :: string
  es_SalesforceConsumerSecret :: string
  es_AuthorizationEnabled :: bool
  es_OpenFGAWorkersTotal :: int
  es_AuthenticationEnabled :: bool
  es_AuthenticationIssuer :: string
  es_AuthenticationJwksURL :: string
  es_AuthenticationAllowedSubjects :: string
  es_AuthenticationRequiredScope :: string
  es_DSN :: string
  es_DBMaxConns :: int
  es_DBMinConns :: int
  es_DBMaxConnLifetime :: int
  es_DBMaxConnIdleTime :: int
  es_TenantServiceGRPCAddress :: string
  es_TenantServiceGRPCTimeout :: int
  es_TenantServiceTLSEnabled :: bool
  es_ReplicaDSN :: string
  es_ReplicaDBMaxConns :: int
  es_ReplicaDBMinConns :: int
  es_ReplicaDBMaxConnLifetime :: int
  es_ReplicaDBMaxConnIdleTime :: int
  es_MaxReplicaLagMs :: int
  es_ReplicaPoolSizeMultiplier :: float64
  es_StreamTimeout :: int
  es_HookMaxConcurrent :: int

text \<open>The environment in which only the required variable is set.\<close>

definition default_EnvSpec :: "string \<Rightarrow> EnvSpec" where
  "default_EnvSpec dsn =
     \<lparr>es_OtelGRPCEndpoint = [], es_OtelHTTPEndpoint = [], es_TracingEnabled = True, es_LogLevel = ''error'', es_Debug = False,
      es_Port = 8080, es_GRPCPort = 9090, es_GRPCMaxConcurrentStreams = 100, es_ApiToken = [],
      es_OpenfgaApiScheme = [], es_OpenfgaApiHost = [], es_OpenfgaApiToken = [], es_OpenfgaStoreId = [], es_OpenfgaModelId = [],
      es_SalesforceDomain = [], es_SalesforceConsumerKey = [], es_SalesforceConsumerSecret = [],
      es_AuthorizationEnabled = False, es_OpenFGAWorkersTotal = 150,
      es_AuthenticationEnabled = True, es_AuthenticationIssuer = [], es_AuthenticationJwksURL = [],
      es_AuthenticationAllowedSubjects = [], es_AuthenticationRequiredScope = [],
      es_DSN = dsn, es_DBMaxConns = 25, es_DBMinConns = 2, es_DBMaxConnLifetime = 3600000000000, es_DBMaxConnIdleTime = 1800000000000,
      es_TenantServiceGRPCAddress = [], es_TenantServiceGRPCTimeout = 5000000000, es_TenantServiceTLSEnabled = False,
      es_ReplicaDSN = [], es_ReplicaDBMaxConns = 25, es_ReplicaDBMinConns = 2,
      es_ReplicaDBMaxConnLifetime = 3600000000000, es_ReplicaDBMaxConnIdleTime = 1800000000000, es_MaxReplicaLagMs = 1000,
      es_ReplicaPoolSizeMultiplier = \<lparr>fl_positive = True, fl_scale = (\<lambda>n. n)\<rparr>, es_StreamTimeout = 30000000000, es_HookMaxConcurrent = 150\<rparr>"

definition serve_db_config :: "EnvSpec \<Rightarrow> db_Config" where
  "serve_db_config specs =
     \<lparr>dc_DSN = es_DSN specs, dc_MaxConns = es_DBMaxConns specs, dc_MinConns = es_DBMinConns specs,
      dc_MaxConnLifetime = es_DBMaxConnLifetime specs, dc_MaxConnIdleTime = es_DBMaxConnIdleTime specs,
      dc_TracingEnabled = es_TracingEnabled specs, dc_ReplicaDSN = es_ReplicaDSN specs,
      dc_ReplicaMaxConns = es_ReplicaDBMaxConns specs, dc_ReplicaMinConns = es_ReplicaDBMinConns specs,
      dc_ReplicaMaxConnLifetime = es_ReplicaDBMaxConnLifetime specs, dc_ReplicaMaxConnIdleTime = es_ReplicaDBMaxConnIdleTime specs,
      dc_MaxReplicaLagMs = es_MaxReplicaLagMs specs, dc_ReplicaPoolSizeMultiplier = es_ReplicaPoolSizeMultiplier specs\<rparr>"

section \<open>The authorization model\<close>

definition StoreName :: string where "StoreName = ''hook-service''"

text \<open>\<open>url_Parse\<close> gives scheme and host; \<open>SetStoreId\<close> is the SDK's, on the state of the connection. \<open>None\<close> is
  the panic of \<open>NewClient\<close>, or of the compiler of the embedded model.\<close>

definition parseURL :: "(string \<Rightarrow> (string \<times> string) res) \<Rightarrow> string \<Rightarrow> (string \<times> string) res" where
  "parseURL url_Parse s = (case url_Parse s of Inl err \<Rightarrow> Inl err | Inr u \<Rightarrow> Inr (fst u, snd u))"

definition createModel ::
  "(string \<Rightarrow> (string \<times> string) res) \<Rightarrow> (Config \<Rightarrow> 's sdk res) \<Rightarrow> (string \<Rightarrow> 's \<Rightarrow> 's) \<Rightarrow> AuthorizationModel option \<Rightarrow>
   string \<Rightarrow> string \<Rightarrow> string \<Rightarrow> bool \<Rightarrow> 's \<Rightarrow> (string \<times> string) res option \<times> 's" where
  "createModel url_Parse NewSdkClient SetStoreId model apiUrl apiToken storeId verbose s =
     (case parseURL url_Parse apiUrl of
        Inl err \<Rightarrow> (Some (Inl (Errorf_w ''failed to parse url'' err)), s)
      | Inr (scheme, host) \<Rightarrow>
          let cfg = \<lparr>cfg_ApiScheme = scheme, cfg_ApiHost = host, cfg_StoreID = storeId, cfg_ApiToken = apiToken,
                     cfg_AuthModelID = [], cfg_Debug = verbose\<rparr> in
          (case NewClient NewSdkClient (Some cfg) of
             None \<Rightarrow> (None, s)
           | Some fgaClient \<Rightarrow>
               let (store, s1) =
                 (if storeId = [] then
                    (case CreateStore fgaClient StoreName s of
                       (Inl err, s1) \<Rightarrow> (Inl (Errorf_w ''failed to create store'' err), s1)
                     | (Inr sid, s1) \<Rightarrow> (Inr sid, snd (SetStoreID (Some SetStoreId) sid s1)))
                  else (Inr storeId, s)) in
               (case store of
                  Inl err \<Rightarrow> (Some (Inl err), s1)
                | Inr sid \<Rightarrow>
                    (case model of
                       None \<Rightarrow> (None, s1)
                     | Some authzModel \<Rightarrow>
                         (case WriteModel fgaClient authzModel s1 of
                            (Inl err, s2) \<Rightarrow> (Some (Inl (Errorf_w ''failed to write model'' err)), s2)
                          | (Inr modelId, s2) \<Rightarrow> (Some (Inr (modelId, sid)), s2))))))"

text \<open>The command: its exit code and what it prints. Errors go to the standard error stream.\<close>

definition createFgaModelCmd ::
  "(string \<Rightarrow> (string \<times> string) res) \<Rightarrow> (Config \<Rightarrow> 's sdk res) \<Rightarrow> (string \<Rightarrow> 's \<Rightarrow> 's) \<Rightarrow> AuthorizationModel option \<Rightarrow>
   (json \<Rightarrow> error option) \<Rightarrow> string \<Rightarrow> string \<Rightarrow> string \<Rightarrow> string \<Rightarrow> bool \<Rightarrow> 's \<Rightarrow> (nat \<times> out_item list) option \<times> 's" where
  "createFgaModelCmd url_Parse NewSdkClient SetStoreId model Encode apiUrl apiToken storeId format verbose s =
     (case createModel url_Parse NewSdkClient SetStoreId model apiUrl apiToken storeId verbose s of
        (None, s1) \<Rightarrow> (None, s1)
      | (Some (Inl err), s1) \<Rightarrow> (Some (1, []), s1)
      | (Some (Inr (modelId, finalStoreId)), s1) \<Rightarrow>
          if format = ''json'' then
            (case encode_json Encode (JObject [(''store_id'', JString finalStoreId), (''model_id'', JString modelId)]) of
               (Some err, out) \<Rightarrow> (Some (1, out), s1)
             | (None, out) \<Rightarrow> (Some (0, out), s1))
          else
            (Some (0, OutText (''Created model: '' @ modelId @ [CHR 0x0A])
                      # (if storeId = [] then [OutText (''Created store: '' @ finalStoreId @ [CHR 0x0A])] else [])), s1))"

section \<open>Start-up\<close>

record ('s, 't, 'tok, 'p) serve_deps =
  sv_primary :: boot_calls
  sv_replica :: boot_calls
  sv_NewSdkClient :: "Config \<Rightarrow> 's sdk res"
  sv_dsl :: "'p dsl"
  sv_NewClient :: "string \<Rightarrow> dial_options \<Rightarrow> 't tenant_conn res"
  sv_oidc :: "'tok oidc"
  sv_listen :: "int \<Rightarrow> error option"

record ('s, 't, 'v) service =
  rs_db :: DBClient
  rs_authz :: "'s authz_client"
  rs_validator :: "'t validator"
  rs_verify :: "string \<Rightarrow> bool res"
  rs_pool :: "'v pool"
  rs_storage :: Storage

datatype 'a serve_start = ServePanics | ServeFatal | ServeError error | ServeRuns 'a

text \<open>The three components whose implementation depends on the configuration.\<close>

definition start_authorizer :: "('s, 't, 'tok, 'p) serve_deps \<Rightarrow> EnvSpec \<Rightarrow> 's \<Rightarrow> 's authz_client option \<times> 's" where
  "start_authorizer d specs s =
     (if es_AuthorizationEnabled specs then
        (case NewClient (sv_NewSdkClient d)
                (NewConfig (es_OpenfgaApiScheme specs) (es_OpenfgaApiHost specs) (es_OpenfgaStoreId specs)
                   (es_OpenfgaApiToken specs) (es_OpenfgaModelId specs) (es_Debug specs)) of
           None \<Rightarrow> (None, s)
         | Some ofga \<Rightarrow>
             (case ValidateModel (Client ofga) (v0_model (sv_dsl d)) s of
                (Some None, s1) \<Rightarrow> (Some (Client ofga), s1)
              | (_, s1) \<Rightarrow> (None, s1)))
      else (Some NoopClient, s))"

definition start_validator :: "('s, 't, 'tok, 'p) serve_deps \<Rightarrow> EnvSpec \<Rightarrow> 't validator res" where
  "start_validator d specs =
     (if es_TenantServiceGRPCAddress specs \<noteq> [] then
        (case NewGRPCConn (sv_NewClient d) (es_TenantServiceGRPCAddress specs) (es_TenantServiceTLSEnabled specs) of
           Inl err \<Rightarrow> Inl err
         | Inr conn \<Rightarrow> Inr (tenants_ValidateMembership (tenants_NewClient conn (es_TenantServiceGRPCTimeout specs))))
      else Inr NoopValidator)"

definition start_verifier :: "('s, 't, 'tok, 'p) serve_deps \<Rightarrow> EnvSpec \<Rightarrow> (string \<Rightarrow> bool res) res" where
  "start_verifier d specs =
     (if es_AuthenticationEnabled specs then
        (case NewJWTAuthenticator (sv_oidc d) (es_AuthenticationIssuer specs)
                (es_AuthenticationJwksURL specs) (allowed_subjects (es_AuthenticationAllowedSubjects specs))
                (es_AuthenticationRequiredScope specs) of
           Inl err \<Rightarrow> Inl (Errorf_v ''failed to setup JWT authenticator'' err)
         | Inr v \<Rightarrow> Inr (VerifyToken v))
      else Inr NoopVerifier)"

text \<open>What the process opens and closes. \<open>serve\<close> defers the clean-up of each part right after it has started it, and the
  deferred calls run, last one first, when \<open>serve\<close> returns or panics, but not when \<open>Fatalf\<close> exits.\<close>

datatype serve_op = DbOp db_op | OpensTenantConn | ClosesTenantConn | StartsPool | StopsPool | SyncsLogger

record serve_log =
  sl_trace :: "serve_op list"
  sl_deferred :: "serve_op list"

definition deferring :: "serve_op list \<Rightarrow> serve_op list \<Rightarrow> serve_log \<Rightarrow> serve_log" where
  "deferring ops clean l = \<lparr>sl_trace = sl_trace l @ ops, sl_deferred = clean @ sl_deferred l\<rparr>"

text \<open>\<open>serve\<close> up to the point where both servers run: how it has started, the state of OpenFGA, and the trace.\<close>

definition serve_boot ::
  "('s, 't, 'tok, 'p) serve_deps \<Rightarrow> EnvSpec res \<Rightarrow> 's \<Rightarrow> ('s, 't, 'v) service serve_start \<times> 's \<times> serve_log" where
  "serve_boot d environment s =
     (case environment of
        Inl err \<Rightarrow> (ServePanics, s, \<lparr>sl_trace = [], sl_deferred = []\<rparr>)
      | Inr specs \<Rightarrow>
     let l = \<lparr>sl_trace = [], sl_deferred = [SyncsLogger]\<rparr> in
     (case NewDBClient (serve_db_config specs) (sv_primary d) (sv_replica d) of
        (BootFatal, ops) \<Rightarrow> (ServeFatal, s, deferring (map DbOp ops) [] l)
      | (BootFail err, ops) \<Rightarrow> (ServeError (Errorf_v ''failed to create database client'' err), s, deferring (map DbOp ops) [] l)
      | (BootClient dbClient, ops) \<Rightarrow>
     let l1 = deferring (map DbOp ops) (map DbOp (DBClient_Close dbClient)) l in
     (case start_authorizer d specs s of
        (None, s1) \<Rightarrow> (ServePanics, s1, l1)
      | (Some authorizer, s1) \<Rightarrow>
     (case start_validator d specs of
        Inl err \<Rightarrow> (ServeError err, s1, l1)
      | Inr tenantValidator \<Rightarrow>
     let l2 = (if es_TenantServiceGRPCAddress specs \<noteq> [] then deferring [OpensTenantConn] [ClosesTenantConn] l1 else l1) in
     (case start_verifier d specs of
        Inl err \<Rightarrow> (ServeError err, s1, l2)
      | Inr jwtVerifier \<Rightarrow>
     (case NewWorkerPool (es_HookMaxConcurrent specs) of
        None \<Rightarrow> (ServePanics, s1, l2)
      | Some wpool \<Rightarrow>
     let l3 = deferring [StartsPool] [StopsPool] l2 in
     (case sv_listen d (es_GRPCPort specs) of
        Some err \<Rightarrow> (ServeError (Errorf_v (''failed to listen on gRPC port '' @ show_int (es_GRPCPort specs)) err), s1, l3)
      | None \<Rightarrow>
          (ServeRuns \<lparr>rs_db = dbClient, rs_authz = authorizer, rs_validator = tenantValidator, rs_verify = jwtVerifier,
                      rs_pool = wpool, rs_storage = SetStreamTimeout (es_StreamTimeout specs) NewStorage\<rparr>, s1, l3))))))))"

text \<open>What has been opened and closed when the process has ended.\<close>

definition serve_trace :: "'a serve_start \<Rightarrow> serve_log \<Rightarrow> serve_op list" where
  "serve_trace r l = (case r of ServeFatal \<Rightarrow> sl_trace l | _ \<Rightarrow> sl_trace l @ sl_deferred l)"

section \<open>Running and shutting down\<close>

datatype task = Active | Returned

record group_state =
  sd_http :: task
  sd_grpc :: task
  sd_signal :: task
  sd_err :: "error option"
  sd_cancelled :: bool

definition group_start :: group_state where
  "group_start = \<lparr>sd_http = Active, sd_grpc = Active, sd_signal = Active, sd_err = None, sd_cancelled = False\<rparr>"

text \<open>A task of the error group returns: the first error is kept and cancels the context.\<close>

definition group_return :: "error option \<Rightarrow> group_state \<Rightarrow> group_state" where
  "group_return r st =
     (case r of
        None \<Rightarrow> st
      | Some e \<Rightarrow> if sd_err st = None then st\<lparr>sd_err := Some e, sd_cancelled := True\<rparr> else st)"

text \<open>What happens to the tasks: a server's \<open>ListenAndServe\<close> or \<open>Serve\<close> returns; its task sees the cancelled context and
  shuts it down (with the error of \<open>Shutdown\<close>, or whether \<open>GracefulStop\<close> was in time); a signal arrives; the signal
  handler sees the cancelled context.\<close>

datatype serve_event =
    HttpEnds "error option"
  | HttpShutdown "error option"
  | GrpcEnds "error option"
  | GrpcShutdown bool
  | SignalArrives
  | SignalCancelled

definition http_serve_error :: "error option \<Rightarrow> error option" where
  "http_serve_error r =
     (case r of Some e \<Rightarrow> if errors_Is e http_ErrServerClosed then None else Some (Errorf_w ''HTTP server error'' e) | None \<Rightarrow> None)"

definition grpc_serve_error :: "error option \<Rightarrow> error option" where
  "grpc_serve_error r =
     (case r of Some e \<Rightarrow> if errors_Is e grpc_ErrServerStopped then None else Some (Errorf_w ''gRPC server error'' e) | None \<Rightarrow> None)"

inductive serve_step :: "group_state \<Rightarrow> serve_event \<Rightarrow> group_state \<Rightarrow> bool" where
  http_ends: "sd_http st = Active \<Longrightarrow>
    serve_step st (HttpEnds r) (group_return (http_serve_error r) (st\<lparr>sd_http := Returned\<rparr>))"
| http_shutdown: "sd_http st = Active \<Longrightarrow> sd_cancelled st \<Longrightarrow>
    serve_step st (HttpShutdown r) (group_return (map_option (Errorf_w ''HTTP server shutdown error'') r) (st\<lparr>sd_http := Returned\<rparr>))"
| grpc_ends: "sd_grpc st = Active \<Longrightarrow>
    serve_step st (GrpcEnds r) (group_return (grpc_serve_error r) (st\<lparr>sd_grpc := Returned\<rparr>))"
| grpc_shutdown: "sd_grpc st = Active \<Longrightarrow> sd_cancelled st \<Longrightarrow>
    serve_step st (GrpcShutdown graceful) (st\<lparr>sd_grpc := Returned\<rparr>)"
| signal_arrives: "sd_signal st = Active \<Longrightarrow>
    serve_step st SignalArrives (group_return (Some (Sentinel cmd_errShutdownSignal)) (st\<lparr>sd_signal := Returned\<rparr>))"
| signal_cancelled: "sd_signal st = Active \<Longrightarrow> sd_cancelled st \<Longrightarrow>
    serve_step st SignalCancelled (group_return (Some (Sentinel context_Canceled)) (st\<lparr>sd_signal := Returned\<rparr>))"

inductive serve_run :: "group_state \<Rightarrow> serve_event list \<Rightarrow> group_state \<Rightarrow> bool" where
  run_nil: "serve_run st [] st"
| run_cons: "serve_step st ev st1 \<Longrightarrow> serve_run st1 evs st2 \<Longrightarrow> serve_run st (ev # evs) st2"

inductive_cases serve_stepE: "serve_step st ev st'"
inductive_cases serve_run_ConsE: "serve_run st (ev # evs) st'"
inductive_simps serve_run_Nil [simp]: "serve_run st [] st'"

text \<open>The HTTP task reports the start to the security log before it serves. \<open>eg.Wait\<close> returns when all tasks
  have; then \<open>serve\<close> reports the shutdown and returns nothing, or returns the error. The result, with the logger.\<close>

definition serve_started :: "Logger \<Rightarrow> Logger" where
  "serve_started lg = lg\<lparr>lg_security := SystemStartup [] (lg_security lg)\<rparr>"

definition serve_shutdown :: "Logger \<Rightarrow> Logger" where
  "serve_shutdown lg = lg\<lparr>lg_security := SystemShutdown [] (lg_security lg)\<rparr>"

definition serve_end :: "Logger \<Rightarrow> group_state \<Rightarrow> (error option \<times> Logger) option" where
  "serve_end lg st =
     (if sd_http st = Returned \<and> sd_grpc st = Returned \<and> sd_signal st = Returned then
        Some (case sd_err st of
                None \<Rightarrow> (None, serve_shutdown (serve_started lg))
              | Some e \<Rightarrow> if errors_Is e cmd_errShutdownSignal then (None, serve_shutdown (serve_started lg))
                         else (Some e, serve_started lg))
      else None)"

text \<open>The exit code of the process.\<close>

definition serve_main :: "error option \<Rightarrow> nat" where
  "serve_main err = (if err \<noteq> None then 1 else 0)"

section \<open>Shutdown\<close>

lemma group_return_fields [simp]:
  "sd_http (group_return r st) = sd_http st" "sd_grpc (group_return r st) = sd_grpc st" "sd_signal (group_return r st) = sd_signal st"
  by (simp_all add: group_return_def split: option.splits)

lemma group_return_err:
  "sd_err (group_return r st) = (if sd_err st = None then r else sd_err st)"
  "sd_cancelled (group_return r st) = (sd_cancelled st \<or> sd_err st = None \<and> r \<noteq> None)"
  by (auto simp: group_return_def split: option.splits)

definition still_running :: "group_state \<Rightarrow> nat" where
  "still_running st =
     (if sd_http st = Active then 1 else 0) + (if sd_grpc st = Active then 1 else 0) + (if sd_signal st = Active then 1 else 0)"

text \<open>Every step ends one task, keeps the first error and never revokes the cancellation, which is what an
  error means.\<close>

lemma serve_step_facts:
  assumes "serve_step st ev st'"
  shows "still_running st' + 1 = still_running st \<and> (sd_err st \<noteq> None \<longrightarrow> sd_err st' = sd_err st)
    \<and> ((sd_cancelled st \<longleftrightarrow> sd_err st \<noteq> None) \<longrightarrow> (sd_cancelled st' \<longleftrightarrow> sd_err st' \<noteq> None))"
  using assms by (induction rule: serve_step.induct) (auto simp: still_running_def group_return_err)

lemma serve_run_facts:
  assumes "serve_run st evs st'"
  shows "still_running st' + length evs = still_running st \<and> (sd_err st \<noteq> None \<longrightarrow> sd_err st' = sd_err st)
    \<and> ((sd_cancelled st \<longleftrightarrow> sd_err st \<noteq> None) \<longrightarrow> (sd_cancelled st' \<longleftrightarrow> sd_err st' \<noteq> None))"
  using assms
proof induction
  case (run_cons st ev st1 evs st2)
  from serve_step_facts [OF run_cons(1)] run_cons.IH show ?case by auto
qed simp

lemma cancelled_progress:
  assumes "sd_cancelled st" "serve_end lg st = None"
  shows "\<exists>ev st'. serve_step st ev st' \<and> ev \<in> {HttpShutdown None, GrpcShutdown True, SignalCancelled}"
proof -
  from assms(2) have "sd_http st = Active \<or> sd_grpc st = Active \<or> sd_signal st = Active"
    by (auto simp: serve_end_def split: if_splits intro: task.exhaust)
  with assms(1) serve_step.http_shutdown [of st None] serve_step.grpc_shutdown [of st True] serve_step.signal_cancelled [of st]
  show ?thesis by blast
qed


lemma demo_shutdown:
  "\<exists>st. serve_run group_start [SignalArrives, HttpShutdown (Some (ErrorNew ''timeout'')), GrpcShutdown False] st
     \<and> sd_http st = Returned \<and> sd_grpc st = Returned \<and> sd_signal st = Returned"
proof -
  let ?a = "group_return (Some (Sentinel cmd_errShutdownSignal)) (group_start\<lparr>sd_signal := Returned\<rparr>)"
  let ?b = "group_return (map_option (Errorf_w ''HTTP server shutdown error'') (Some (ErrorNew ''timeout''))) (?a\<lparr>sd_http := Returned\<rparr>)"
  have "serve_step group_start SignalArrives ?a" by (rule signal_arrives) (simp add: group_start_def)
  moreover have "serve_step ?a (HttpShutdown (Some (ErrorNew ''timeout''))) ?b"
    by (rule http_shutdown) (simp_all add: group_start_def group_return_err)
  moreover have "serve_step ?b (GrpcShutdown False) (?b\<lparr>sd_grpc := Returned\<rparr>)"
    by (rule grpc_shutdown) (simp_all add: group_start_def group_return_err)
  ultimately have "serve_run group_start [SignalArrives, HttpShutdown (Some (ErrorNew ''timeout'')), GrpcShutdown False] (?b\<lparr>sd_grpc := Returned\<rparr>)"
    by (blast intro: serve_run.intros)
  moreover have "sd_http (?b\<lparr>sd_grpc := Returned\<rparr>) = Returned" "sd_signal (?b\<lparr>sd_grpc := Returned\<rparr>) = Returned"
    by (simp_all add: group_start_def)
  moreover have "sd_grpc (?b\<lparr>sd_grpc := Returned\<rparr>) = Returned" by simp
  ultimately show ?thesis by blast
qed


section \<open>Start-up\<close>

lemma start_verifier_spec:
  assumes "start_verifier d specs = Inr verify"
  shows "if es_AuthenticationEnabled specs
     then es_AuthenticationIssuer specs \<noteq> [] \<and> (\<exists>v. verify = VerifyToken v \<and> jv_Claims v = oi_Claims (sv_oidc d)
            \<and> jv_allowedSubjects v = allowed_subjects (es_AuthenticationAllowedSubjects specs)
            \<and> jv_requiredScope v = es_AuthenticationRequiredScope specs)
     else verify = NoopVerifier"
proof (cases "es_AuthenticationEnabled specs")
  case True
  with assms obtain v where v: "NewJWTAuthenticator (sv_oidc d) (es_AuthenticationIssuer specs)
      (es_AuthenticationJwksURL specs) (allowed_subjects (es_AuthenticationAllowedSubjects specs))
      (es_AuthenticationRequiredScope specs) = Inr v" "verify = VerifyToken v"
    by (auto simp: start_verifier_def split: sum.splits)
  from NewJWTAuthenticator_fields [OF v(1)] v(2) True show ?thesis by auto
qed (use assms in \<open>simp add: start_verifier_def\<close>)

lemma start_authorizer_spec:
  assumes "start_authorizer d specs s = (Some c, s1)"
  shows "if es_AuthorizationEnabled specs
     then [] \<notin> {es_OpenfgaApiScheme specs, es_OpenfgaApiHost specs, es_OpenfgaStoreId specs, es_OpenfgaApiToken specs, es_OpenfgaModelId specs}
            \<and> (\<exists>sdk. c = Client sdk)
     else c = NoopClient"
  using assms by (auto simp: start_authorizer_def NewConfig_def NewClient_def split: if_splits option.splits prod.splits)




text \<open>An OpenFGA that keeps the last model, and a process whose calls all succeed.\<close>

definition model_sdk :: "AuthorizationModel option sdk" where
  "model_sdk = \<lparr>sdk_CreateStore = (\<lambda>name s. (Inr name, s)),
     sdk_ReadAuthorizationModel = (\<lambda>s. (case s of None \<Rightarrow> Inl (ErrorNew ''no model'') | Some m \<Rightarrow> Inr m, s)),
     sdk_WriteAuthorizationModel = (\<lambda>m s. (Inr ''model'', Some m)),
     sdk_GetAuthorizationModelId = (\<lambda>s. Inr ''model''),
     sdk_Write = (\<lambda>ws ds s. (None, s)),
     sdk_Check = (\<lambda>q cs s. (Inr (Some False), s)),
     sdk_BatchCheck = (\<lambda>ts m s. (Inr [], s)),
     sdk_Read = (\<lambda>f tok s. (Inr ([], []), s)),
     sdk_ListObjects = (\<lambda>u r t s. (Inr [], s)),
     sdk_ListUsers = (\<lambda>ob r u s. (Inr [], s))\<rparr>"

definition demo_model :: AuthorizationModel where
  "demo_model = \<lparr>am_SchemaVersion = ''1.1'', am_TypeDefinitions = JNull, am_Conditions = JNull\<rparr>"

definition demo_serve_deps :: "(AuthorizationModel option, unit, unit, unit) serve_deps" where
  "demo_serve_deps = (let up = \<lparr>bc_parse = None, bc_pool = (\<lambda>cfg. None), bc_stats = None, bc_ping = None\<rparr> in
     \<lparr>sv_primary = up, sv_replica = up, sv_NewSdkClient = (\<lambda>cfg. Inr model_sdk),
      sv_dsl = \<lparr>ds_TransformDSLToProto = (\<lambda>t. Inr ()), ds_Marshal = (\<lambda>p. Inr []), ds_Unmarshal = (\<lambda>b. Inr demo_model)\<rparr>,
      sv_NewClient = (\<lambda>addr opts. Inl (ErrorNew ''no tenant service'')),
      sv_oidc = \<lparr>oi_NewProvider = (\<lambda>issuer. Inr (\<lambda>cfg raw. Inr ())), oi_NewVerifier = (\<lambda>issuer url cfg raw. Inr ()),
        oi_Claims = (\<lambda>t. Inl (ErrorNew ''no claims'')), oi_Issuer = (\<lambda>t. ''https://idp'')\<rparr>,
      sv_listen = (\<lambda>port. None)\<rparr>)"

definition demo_specs :: EnvSpec where
  "demo_specs = (default_EnvSpec ''postgres://db'')\<lparr>es_AuthenticationIssuer := ''https://idp'', es_AuthenticationAllowedSubjects := ''svc''\<rparr>"



end
