(* ===== verification/Importer.thy ===== *)
theory Importer
  imports AuthzApi
begin

text \<open>
  The bulk import (\<^verbatim>\<open>internal/importer\<close>, \<^verbatim>\<open>cmd/import.go\<close>): the Salesforce driver, the additive
  \<open>Run\<close> and the reconciling \<open>Sync\<close>. The importer works on the interface \<open>StorageInterface\<close>, here a
  record of operations; the locale \<open>group_store\<close> is its contract, in terms of what a client sees (names,
  identifiers, members, permissions), and is interpreted on the operations of \<open>Storage\<close>. The Salesforce query
  is a parameter. Go maps are association lists, iterated in the order a rank function gives.
\<close>

section \<open>Drivers\<close>

record UserGroupMapping =
  ug_UserID :: string
  ug_GroupName :: string

record TeamMemberRecord =
  tm_Email :: string
  tm_Department :: string
  tm_Team :: string

record driver =
  dr_Prefix :: string
  dr_FetchAllUserGroups :: "UserGroupMapping list res"

definition allTeamMembersQuery :: string where
  "allTeamMembersQuery = ''SELECT fHCM2__Email__c, Department2__c, fHCM2__Team__c FROM fHCM2__Team_Member__c''"

fun member_mappings :: "TeamMemberRecord list \<Rightarrow> UserGroupMapping list" where
  "member_mappings [] = []"
| "member_mappings (r # rs) =
     (if tm_Email r = [] then member_mappings rs
      else (if tm_Department r \<noteq> [] then [\<lparr>ug_UserID = tm_Email r, ug_GroupName = tm_Department r\<rparr>] else [])
         @ (if tm_Team r \<noteq> [] then [\<lparr>ug_UserID = tm_Email r, ug_GroupName = tm_Team r\<rparr>] else [])
         @ member_mappings rs)"

definition SalesforceDriver :: "(string \<Rightarrow> TeamMemberRecord list res) \<Rightarrow> driver" where
  "SalesforceDriver Query =
     \<lparr>dr_Prefix = ''salesforce'',
      dr_FetchAllUserGroups =
        (case Query allTeamMembersQuery of
           Inl err \<Rightarrow> Inl (Errorf_w ''failed to query salesforce team members'' err)
         | Inr records \<Rightarrow> Inr (member_mappings records))\<rparr>"

section \<open>The importer\<close>

record 'w store_ops =
  so_CreateGroup :: "Group \<Rightarrow> 'w \<Rightarrow> Group res \<times> 'w"
  so_GetGroupByName :: "string \<Rightarrow> string \<Rightarrow> 'w \<Rightarrow> Group res \<times> 'w"
  so_AddUsersToGroup :: "string \<Rightarrow> string list \<Rightarrow> 'w \<Rightarrow> unit res \<times> 'w"
  so_ListGroupsByPrefix :: "string \<Rightarrow> string \<Rightarrow> 'w \<Rightarrow> Group list res \<times> 'w"
  so_SyncGroupMembers :: "string \<Rightarrow> string list \<Rightarrow> 'w \<Rightarrow> unit res \<times> 'w"
  so_DeleteGroup :: "string \<Rightarrow> 'w \<Rightarrow> unit res \<times> 'w"

text \<open>\<open>m[name] = append(m[name], user)\<close>, for every mapping.\<close>

fun group_users :: "string \<Rightarrow> (string \<times> string list) list \<Rightarrow> UserGroupMapping list \<Rightarrow> (string \<times> string list) list" where
  "group_users pre acc [] = acc"
| "group_users pre acc (m # ms) =
     (let name = pre @ '':'' @ ug_GroupName m;
          old = (case map_of acc name of None \<Rightarrow> [] | Some us \<Rightarrow> us) in
      group_users pre (AList.update name (old @ [ug_UserID m]) acc) ms)"

definition map_order :: "(string \<Rightarrow> nat) \<Rightarrow> (string \<times> 'v) list \<Rightarrow> (string \<times> 'v) list" where
  "map_order rank m = sort_key (\<lambda>e. rank (fst e)) m"

definition imported_group :: "string \<Rightarrow> Group" where
  "imported_group name = zero_Group\<lparr>g_Name := name, g_TenantId := DefaultTenantID\<rparr>"

fun run_loop :: "'w store_ops \<Rightarrow> (string \<times> string list) list \<Rightarrow> nat \<Rightarrow> 'w \<Rightarrow> nat \<times> 'w" where
  "run_loop st [] created w = (created, w)"
| "run_loop st ((name, us) # gs) created w =
     (let (found, w1) = so_GetGroupByName st name DefaultTenantID w;
          (group, w2) = (case found of Inr g \<Rightarrow> (Inr g, w1) | Inl err \<Rightarrow> so_CreateGroup st (imported_group name) w1) in
      case group of
        Inl err \<Rightarrow> run_loop st gs created w2
      | Inr g \<Rightarrow>
          (case so_AddUsersToGroup st (g_ID g) us w2 of
             (Inl err, w3) \<Rightarrow> run_loop st gs created w3
           | (Inr _, w3) \<Rightarrow> run_loop st gs (created + 1) w3))"

definition importer_Run :: "'w store_ops \<Rightarrow> driver \<Rightarrow> (string \<Rightarrow> nat) \<Rightarrow> 'w \<Rightarrow> unit res \<times> 'w" where
  "importer_Run st d rank w =
     (case dr_FetchAllUserGroups d of
        Inl err \<Rightarrow> (Inl (Errorf_w ''failed to fetch user groups from driver'' err), w)
      | Inr mappings \<Rightarrow>
          (case run_loop st (map_order rank (group_users (dr_Prefix d) [] mappings)) 0 w of (created, w1) \<Rightarrow> (Inr (), w1)))"

record counters =
  k_synced :: nat
  k_created :: nat
  k_deleted :: nat
  k_failures :: nat

definition failed :: "counters \<Rightarrow> counters" where
  "failed k = k\<lparr>k_failures := k_failures k + 1\<rparr>"

text \<open>The first loop of \<open>Sync\<close>: the driver's groups against the existing ones.\<close>

fun reconcile ::
  "'w store_ops \<Rightarrow> (string \<rightharpoonup> Group) \<Rightarrow> (string \<times> string list) list \<Rightarrow> counters \<Rightarrow> 'w \<Rightarrow> counters \<times> 'w" where
  "reconcile st existing [] k w = (k, w)"
| "reconcile st existing ((name, us) # gs) k w =
     (case existing name of
        Some g \<Rightarrow>
          (case so_SyncGroupMembers st (g_ID g) us w of
             (Inl err, w1) \<Rightarrow> reconcile st existing gs (failed k) w1
           | (Inr _, w1) \<Rightarrow> reconcile st existing gs (k\<lparr>k_synced := k_synced k + 1\<rparr>) w1)
      | None \<Rightarrow>
          (case so_CreateGroup st (imported_group name) w of
             (Inl err, w1) \<Rightarrow> reconcile st existing gs (failed k) w1
           | (Inr g, w1) \<Rightarrow>
               (case so_AddUsersToGroup st (g_ID g) us w1 of
                  (Inl err, w2) \<Rightarrow> reconcile st existing gs (failed k) w2
                | (Inr _, w2) \<Rightarrow> reconcile st existing gs (k\<lparr>k_created := k_created k + 1\<rparr>) w2)))"

text \<open>The second one: existing groups the driver does not have any more.\<close>

fun delete_stale ::
  "'w store_ops \<Rightarrow> 's authz_client \<Rightarrow> string set \<Rightarrow> (string \<times> Group) list \<Rightarrow> counters \<Rightarrow> 'w \<times> 's \<Rightarrow> (counters \<times> ('w \<times> 's)) option" where
  "delete_stale st cl wanted [] k ws = Some (k, ws)"
| "delete_stale st cl wanted ((name, g) # gs) k ws =
     (if name \<in> wanted then delete_stale st cl wanted gs k ws
      else
        (case so_DeleteGroup st (g_ID g) (fst ws) of
           (Inl err, w1) \<Rightarrow> delete_stale st cl wanted gs (failed k) (w1, snd ws)
         | (Inr _, w1) \<Rightarrow>
             (case authorizer_DeleteGroup cl (g_ID g) (snd ws) of
                None \<Rightarrow> None
              | Some (e, s1) \<Rightarrow>
                  let k1 = (if e = None then k else failed k) in
                  delete_stale st cl wanted gs (k1\<lparr>k_deleted := k_deleted k1 + 1\<rparr>) (w1, s1))))"

fun by_name_map :: "(string \<times> Group) list \<Rightarrow> Group list \<Rightarrow> (string \<times> Group) list" where
  "by_name_map acc [] = acc"
| "by_name_map acc (g # gs) = by_name_map (AList.update (g_Name g) g acc) gs"

definition importer_Sync ::
  "'w store_ops \<Rightarrow> 's authz_client \<Rightarrow> driver \<Rightarrow> (string \<Rightarrow> nat) \<Rightarrow> (string \<Rightarrow> nat) \<Rightarrow> 'w \<times> 's \<Rightarrow> (unit res \<times> ('w \<times> 's)) option" where
  "importer_Sync st cl d rank1 rank2 ws =
     (case dr_FetchAllUserGroups d of
        Inl err \<Rightarrow> Some (Inl (Errorf_w ''failed to fetch user groups from driver'' err), ws)
      | Inr mappings \<Rightarrow>
          let driverGroups = group_users (dr_Prefix d) [] mappings in
          (case so_ListGroupsByPrefix st (dr_Prefix d @ '':'') DefaultTenantID (fst ws) of
             (Inl err, w1) \<Rightarrow> Some (Inl (Errorf_v ''failed to list existing groups by prefix'' err), (w1, snd ws))
           | (Inr existingGroups, w1) \<Rightarrow>
               let existing = by_name_map [] existingGroups;
                   (k1, w2) = reconcile st (map_of existing) (map_order rank1 driverGroups)
                                \<lparr>k_synced = 0, k_created = 0, k_deleted = 0, k_failures = 0\<rparr> w1 in
               (case delete_stale st cl (set (map fst driverGroups)) (map_order rank2 existing) k1 (w2, snd ws) of
                  None \<Rightarrow> None
                | Some (k2, ws2) \<Rightarrow>
                    Some (if k_failures k2 > 0 then Inl (ErrorNew (''sync completed with '' @ decimal (k_failures k2) @ '' failure(s); see logs for details''))
                          else Inr (), ws2))))"

section \<open>Maps\<close>

lemma map_order_simps [simp]:
  "set (map_order rank m) = set m" "distinct (map fst (map_order rank m)) = distinct (map fst m)"
proof -
  show "set (map_order rank m) = set m" by (simp add: map_order_def)
  have "mset (map fst (map_order rank m)) = mset (map fst m)" by (simp add: map_order_def)
  then show "distinct (map fst (map_order rank m)) = distinct (map fst m)" by (rule mset_eq_imp_distinct_iff)
qed

text \<open>What the driver wants: the users of every group, by the name the group has in the database.\<close>

definition wanted :: "string \<Rightarrow> UserGroupMapping list \<Rightarrow> string \<Rightarrow> string set option" where
  "wanted pre ms n =
     (if \<exists>m \<in> set ms. pre @ '':'' @ ug_GroupName m = n
      then Some {ug_UserID m | m. m \<in> set ms \<and> pre @ '':'' @ ug_GroupName m = n} else None)"

lemma group_users_spec:
  assumes "distinct (map fst acc)"
  shows "distinct (map fst (group_users pre acc ms))
       \<and> map_of (group_users pre acc ms) n =
           (let us = map ug_UserID (filter (\<lambda>m. pre @ '':'' @ ug_GroupName m = n) ms) in
            case map_of acc n of None \<Rightarrow> if us = [] then None else Some us | Some vs \<Rightarrow> Some (vs @ us))"
  using assms
proof (induction ms arbitrary: acc)
  case Nil
  then show ?case by (simp split: option.splits)
next
  case (Cons m ms)
  have "distinct (map fst (AList.update k v acc))" for k v using Cons.prems by (rule distinct_update)
  from Cons.IH [OF this] show ?case
    by (auto simp: Let_def update_conv' split: option.splits)
qed

lemma driver_groups:
  "distinct (map fst (group_users pre [] ms))"
  "map_option set (map_of (group_users pre [] ms) n) = wanted pre ms n"
proof -
  note G = group_users_spec [of "[]" pre ms n, simplified]
  then show "distinct (map fst (group_users pre [] ms))" by simp
  show "map_option set (map_of (group_users pre [] ms) n) = wanted pre ms n"
    unfolding wanted_def using G by (auto simp: Let_def filter_empty_conv)
qed

lemma driver_group_prefix: "n \<in> fst ` set (group_users pre [] ms) \<Longrightarrow> prefix (pre @ '':'') n"
  using driver_groups(2) [of pre ms n] by (cases "map_of (group_users pre [] ms) n") (auto simp: map_of_eq_None_iff wanted_def split: if_splits)

text \<open>What reconciliation and deletion leave for one name, whatever the order they worked in: \<open>v0\<close>, \<open>v1\<close> and \<open>v2\<close> are what
  is known of a name before, between and after them.\<close>

lemma reconciled_exact:
  assumes wrote: "\<forall>(n, us) \<in> set dg. \<exists>i. v1 n = Some (i, set us)" and kept: "\<forall>m. m \<notin> fst ` set dg \<longrightarrow> v1 m = v0 m"
    and gone: "\<forall>n \<in> names. n \<notin> fst ` set dg \<longrightarrow> v2 n = None" and left: "\<forall>m. m \<notin> names \<or> m \<in> fst ` set dg \<longrightarrow> v2 m = v1 m"
    and unknown: "n \<notin> names \<longrightarrow> v0 n = None"
  shows "map_option snd (v2 n) = map_option set (map_of dg n)"
proof (cases "map_of dg n")
  case (Some us)
  then have m: "(n, us) \<in> set dg" by (rule map_of_SomeD)
  then have "n \<in> fst ` set dg" by force
  with m wrote left obtain i where "v2 n = Some (i, set us)" by fastforce
  with Some show ?thesis by simp
next
  case None
  then have "n \<notin> fst ` set dg" by (simp add: map_of_eq_None_iff)
  with kept gone left unknown have "v2 n = None" by metis
  with None show ?thesis by simp
qed

lemma update_new: "k \<notin> fst ` set acc \<Longrightarrow> AList.update k v acc = acc @ [(k, v)]"
  by (induction acc) auto

lemma by_name_map_spec:
  assumes "distinct (map fst acc)" "distinct (map g_Name gs)" "\<forall>g \<in> set gs. g_Name g \<notin> fst ` set acc"
  shows "distinct (map fst (by_name_map acc gs))
       \<and> set (by_name_map acc gs) = set acc \<union> (\<lambda>g. (g_Name g, g)) ` set gs"
  using assms
proof (induction gs arbitrary: acc)
  case (Cons g gs)
  have new: "AList.update (g_Name g) g acc = acc @ [(g_Name g, g)]"
    using Cons.prems(3) by (simp add: update_new)
  have "\<forall>h \<in> set gs. g_Name h \<noteq> g_Name g" using Cons.prems(2) by (simp add: image_iff) metis
  with Cons.IH [of "acc @ [(g_Name g, g)]"] Cons.prems show ?case by (simp add: new)
qed simp


section \<open>The contract of the store\<close>

text \<open>\<open>view\<close> maps the name of a group to its identifier and members, \<open>perms\<close> is the set of permissions (group,
  application). An operation on a group changes that group only, whether it succeeds or fails, and says
  what it did when it succeeds.\<close>

locale group_store =
  fixes st :: "'w store_ops" and view :: "'w \<Rightarrow> string \<Rightarrow> (string \<times> string set) option"
    and perms :: "'w \<Rightarrow> (string \<times> string) set" and inv :: "'w \<Rightarrow> bool"
  assumes listing: "inv w \<Longrightarrow> so_ListGroupsByPrefix st p DefaultTenantID w = (r, w') \<Longrightarrow>
      inv w' \<and> view w' = view w \<and> perms w' = perms w"
    and listed: "inv w \<Longrightarrow> so_ListGroupsByPrefix st p DefaultTenantID w = (Inr gs, w') \<Longrightarrow>
      distinct (map g_Name gs) \<and> (\<forall>g \<in> set gs. prefix p (g_Name g) \<and> map_option fst (view w (g_Name g)) = Some (g_ID g))
      \<and> (\<forall>n. prefix p n \<and> view w n \<noteq> None \<longrightarrow> n \<in> g_Name ` set gs)"
    and creating: "inv w \<Longrightarrow> so_CreateGroup st (imported_group n) w = (rg, w') \<Longrightarrow>
      inv w' \<and> perms w' = perms w \<and> (\<forall>m. m \<noteq> n \<longrightarrow> view w' m = view w m)"
    and created: "inv w \<Longrightarrow> so_CreateGroup st (imported_group n) w = (Inr g, w') \<Longrightarrow> view w' n = Some (g_ID g, {})"
    and adding: "inv w \<Longrightarrow> view w n = Some (i, ms) \<Longrightarrow> so_AddUsersToGroup st i us w = (ru, w') \<Longrightarrow>
      inv w' \<and> perms w' = perms w \<and> (\<forall>m. m \<noteq> n \<longrightarrow> view w' m = view w m)
      \<and> view w' n = Some (i, if is_ok ru then ms \<union> set us else ms)"
    and syncing: "inv w \<Longrightarrow> view w n = Some (i, ms) \<Longrightarrow> so_SyncGroupMembers st i us w = (ru, w') \<Longrightarrow>
      inv w' \<and> perms w' = perms w \<and> (\<forall>m. m \<noteq> n \<longrightarrow> view w' m = view w m)"
    and synced: "inv w \<Longrightarrow> view w n = Some (i, ms) \<Longrightarrow> so_SyncGroupMembers st i us w = (Inr x, w') \<Longrightarrow>
      view w' n = Some (i, set us)"
    and deleting: "inv w \<Longrightarrow> view w n = Some (i, ms) \<Longrightarrow> so_DeleteGroup st i w = (ru, w') \<Longrightarrow>
      inv w' \<and> (\<forall>m. m \<noteq> n \<longrightarrow> view w' m = view w m) \<and> (\<not> is_ok ru \<longrightarrow> perms w' = perms w)"
    and deleted: "inv w \<Longrightarrow> view w n = Some (i, ms) \<Longrightarrow> so_DeleteGroup st i w = (Inr x, w') \<Longrightarrow>
      view w' n = None \<and> perms w' = {(g, a) \<in> perms w. g \<noteq> i}"
begin

text \<open>One round of the first loop.\<close>

lemma reconcile_round:
  assumes I: "inv w" and ex: "\<forall>g. existing n = Some g \<longrightarrow> (\<exists>ms. view w n = Some (g_ID g, ms))"
    and r: "reconcile st existing ((n, us) # gs) k w = res"
  obtains k1 w1 where "reconcile st existing gs k1 w1 = res" "inv w1" "perms w1 = perms w"
    "\<forall>m. m \<noteq> n \<longrightarrow> view w1 m = view w m" "k_failures k \<le> k_failures k1"
    "k_failures k1 = k_failures k \<Longrightarrow> \<exists>i. view w1 n = Some (i, set us)"
proof (cases "existing n")
  case (Some g)
  then obtain ms where v: "view w n = Some (g_ID g, ms)" using ex by blast
  obtain q w1 where q: "so_SyncGroupMembers st (g_ID g) us w = (q, w1)" by fastforce
  note S = syncing [OF I v q]
  show thesis
  proof (cases q)
    case (Inl e)
    with that [of "failed k" w1] r Some q S show thesis by (simp add: failed_def)
  next
    case (Inr x)
    with that [of "k\<lparr>k_synced := k_synced k + 1\<rparr>" w1] r Some q S synced [OF I v q [unfolded Inr]] show thesis by simp
  qed
next
  case None
  obtain q w1 where q: "so_CreateGroup st (imported_group n) w = (q, w1)" by fastforce
  note C = creating [OF I q]
  show thesis
  proof (cases q)
    case (Inl e)
    with that [of "failed k" w1] r None q C show thesis by (simp add: failed_def)
  next
    case (Inr g)
    from created [OF I q [unfolded Inr]] have v: "view w1 n = Some (g_ID g, {})" .
    obtain a w2 where a: "so_AddUsersToGroup st (g_ID g) us w1 = (a, w2)" by fastforce
    from C have I1: "inv w1" by simp
    note A = adding [OF I1 v a]
    show thesis
    proof (cases a)
      case (Inl e)
      with that [of "failed k" w2] r None q \<open>q = Inr g\<close> a A C show thesis by (simp add: failed_def)
    next
      case (Inr x)
      with that [of "k\<lparr>k_created := k_created k + 1\<rparr>" w2] r None q \<open>q = Inr g\<close> a A C show thesis by simp
    qed
  qed
qed

lemma reconcile_spec:
  assumes "inv w" "distinct (map fst gs)"
    "\<forall>n \<in> fst ` set gs. \<forall>g. existing n = Some g \<longrightarrow> (\<exists>ms. view w n = Some (g_ID g, ms))"
    "reconcile st existing gs k w = (k', w')"
  shows "inv w' \<and> perms w' = perms w \<and> (\<forall>m. m \<notin> fst ` set gs \<longrightarrow> view w' m = view w m)
       \<and> k_failures k \<le> k_failures k'
       \<and> (k_failures k' = k_failures k \<longrightarrow> (\<forall>(n, us) \<in> set gs. \<exists>i. view w' n = Some (i, set us)))"
  using assms
proof (induction gs arbitrary: k w)
  case (Cons e gs)
  obtain n us where e: "e = (n, us)" by fastforce
  have "\<forall>g. existing n = Some g \<longrightarrow> (\<exists>ms. view w n = Some (g_ID g, ms))" using Cons.prems(3) e by simp
  from Cons.prems(1) this Cons.prems(4) [unfolded e] obtain k1 w1
    where r: "reconcile st existing gs k1 w1 = (k', w')" "inv w1" "perms w1 = perms w"
      "\<forall>m. m \<noteq> n \<longrightarrow> view w1 m = view w m" "k_failures k \<le> k_failures k1"
      "k_failures k1 = k_failures k \<Longrightarrow> \<exists>i. view w1 n = Some (i, set us)"
    by (rule reconcile_round) blast
  from Cons.prems(2) e have n: "n \<notin> fst ` set gs" and d: "distinct (map fst gs)" by simp_all
  have ex: "\<forall>m \<in> fst ` set gs. \<forall>g. existing m = Some g \<longrightarrow> (\<exists>ms. view w1 m = Some (g_ID g, ms))"
  proof
    fix m assume m: "m \<in> fst ` set gs"
    with n r(4) have "view w1 m = view w m" by metis
    moreover from m have "m \<in> fst ` set (e # gs)" by simp
    ultimately show "\<forall>g. existing m = Some g \<longrightarrow> (\<exists>ms. view w1 m = Some (g_ID g, ms))"
      using Cons.prems(3) by metis
  qed
  note IH = Cons.IH [OF r(2) d ex r(1)]
  have "\<exists>i. view w' n = Some (i, set us)" if "k_failures k' = k_failures k"
    using IH n r(5,6) that by simp
  with IH r n show ?case by (auto simp: e)
qed simp


text \<open>One round of the second loop.\<close>

lemma delete_round:
  assumes laws: "write_law sdk store" "read_law sdk store todo" and I: "inv w"
    and ex: "n \<notin> want \<Longrightarrow> \<exists>ms. view w n = Some (g_ID g, ms)"
  obtains k1 w1 s1 where "delete_stale st (Client sdk) want ((n, g) # gs) k (w, s) = delete_stale st (Client sdk) want gs k1 (w1, s1)"
    "inv w1" "\<forall>m. m \<noteq> n \<or> m \<in> want \<longrightarrow> view w1 m = view w m" "k_failures k \<le> k_failures k1"
    "k_failures k1 = k_failures k \<longrightarrow> (n \<notin> want \<longrightarrow> view w1 n = None)
       \<and> (store s = permission_tuple ` perms w \<longrightarrow> store s1 = permission_tuple ` perms w1)"
proof (cases "n \<in> want")
  case True
  with that [of k w s] I show thesis by simp
next
  case False
  with ex obtain ms where v: "view w n = Some (g_ID g, ms)" by blast
  obtain q w1 where q: "so_DeleteGroup st (g_ID g) w = (q, w1)" by fastforce
  note D = deleting [OF I v q]
  show thesis
  proof (cases q)
    case (Inl e)
    with that [of "failed k" w1 s] False q D show thesis by (simp add: failed_def)
  next
    case (Inr x)
    note D' = deleted [OF I v q [unfolded Inr]]
    from RemoveAllAllowedAppsFromGroup_spec [OF laws, of "g_ID g" s] obtain e s1
      where e: "authorizer_DeleteGroup (Client sdk) (g_ID g) s = Some (e, s1)"
        "e = None \<longrightarrow> store s1 = store s - {permission_tuple (g_ID g, a) | a. True}" by blast
    show thesis
    proof (cases e)
      case None
      with that [of "k\<lparr>k_deleted := k_deleted k + 1\<rparr>" w1 s1] False q \<open>q = Inr x\<close> e D D'
        permission_image_diff [of "perms w" "g_ID g"] show thesis by (simp add: Let_def)
    next
      case (Some err)
      with that [of "(failed k)\<lparr>k_deleted := k_deleted k + 1\<rparr>" w1 s1] False q \<open>q = Inr x\<close> e D show thesis
        by (simp add: failed_def Let_def)
    qed
  qed
qed

lemma delete_spec:
  assumes laws: "write_law sdk store" "read_law sdk store todo"
    and "inv w" "distinct (map fst es)" "\<forall>(n, g) \<in> set es. n \<notin> want \<longrightarrow> (\<exists>ms. view w n = Some (g_ID g, ms))"
  shows "\<exists>k' w' s'. delete_stale st (Client sdk) want es k (w, s) = Some (k', (w', s')) \<and> inv w'
       \<and> (\<forall>m. m \<notin> fst ` set es \<or> m \<in> want \<longrightarrow> view w' m = view w m) \<and> k_failures k \<le> k_failures k'
       \<and> (k_failures k' = k_failures k \<longrightarrow> (\<forall>n \<in> fst ` set es. n \<notin> want \<longrightarrow> view w' n = None)
            \<and> (store s = permission_tuple ` perms w \<longrightarrow> store s' = permission_tuple ` perms w'))"
  using assms(3-)
proof (induction es arbitrary: k w s)
  case (Cons e es)
  obtain n g where e: "e = (n, g)" by fastforce
  have "n \<notin> want \<Longrightarrow> \<exists>ms. view w n = Some (g_ID g, ms)" using Cons.prems(3) e by simp
  from laws Cons.prems(1) this obtain k1 w1 s1
    where r: "delete_stale st (Client sdk) want ((n, g) # es) k (w, s) = delete_stale st (Client sdk) want es k1 (w1, s1)"
      "inv w1" "\<forall>m. m \<noteq> n \<or> m \<in> want \<longrightarrow> view w1 m = view w m" "k_failures k \<le> k_failures k1"
      "k_failures k1 = k_failures k \<longrightarrow> (n \<notin> want \<longrightarrow> view w1 n = None)
         \<and> (store s = permission_tuple ` perms w \<longrightarrow> store s1 = permission_tuple ` perms w1)"
    by (rule delete_round [where gs = es and k = k and s = s]) blast
  from Cons.prems(2) e have n: "n \<notin> fst ` set es" and d: "distinct (map fst es)" by simp_all
  have ex: "\<forall>(m, h) \<in> set es. m \<notin> want \<longrightarrow> (\<exists>ms. view w1 m = Some (g_ID h, ms))"
  proof clarify
    fix m h assume m: "(m, h) \<in> set es" "m \<notin> want"
    with n r(3) have "view w1 m = view w m" by (metis fst_conv image_eqI)
    with Cons.prems(3) m show "\<exists>ms. view w1 m = Some (g_ID h, ms)" by auto
  qed
  from Cons.IH [OF r(2) d ex, of k1 s1] obtain k' w' s'
    where IH: "delete_stale st (Client sdk) want es k1 (w1, s1) = Some (k', (w', s'))" "inv w'"
      "\<forall>m. m \<notin> fst ` set es \<or> m \<in> want \<longrightarrow> view w' m = view w1 m" "k_failures k1 \<le> k_failures k'"
      "k_failures k' = k_failures k1 \<longrightarrow> (\<forall>n \<in> fst ` set es. n \<notin> want \<longrightarrow> view w' n = None)
         \<and> (store s1 = permission_tuple ` perms w1 \<longrightarrow> store s' = permission_tuple ` perms w')"
    by blast
  have "(\<forall>m \<in> fst ` set (e # es). m \<notin> want \<longrightarrow> view w' m = None)
      \<and> (store s = permission_tuple ` perms w \<longrightarrow> store s' = permission_tuple ` perms w')" if "k_failures k' = k_failures k"
  proof -
    from that r(4) IH(4) have eq: "k_failures k1 = k_failures k" "k_failures k' = k_failures k1" by simp_all
    from r(5) eq(1) IH(5) eq(2) IH(3) n show ?thesis by (auto simp: e)
  qed
  moreover have "view w' m = view w m" if "m \<notin> fst ` set (e # es) \<or> m \<in> want" for m
  proof -
    from that e have "m \<notin> fst ` set es \<or> m \<in> want" "m \<noteq> n \<or> m \<in> want" by auto
    with IH(3) r(3) show ?thesis by metis
  qed
  ultimately show ?case unfolding e r(1) using IH(1,2,4) r(4) by (intro exI [of _ k'] exI [of _ w'] exI [of _ s']) simp
qed simp

lemma existing_groups:
  assumes I: "inv w" and q: "so_ListGroupsByPrefix st p DefaultTenantID w = (Inr gs, w1)"
  shows "distinct (map fst (by_name_map [] gs))" "fst ` set (by_name_map [] gs) = g_Name ` set gs"
    "map_of (by_name_map [] gs) n = Some g \<Longrightarrow> \<exists>a. view w1 n = Some (g_ID g, a)"
proof -
  note L = listed [OF I q]
  have ex: "distinct (map fst (by_name_map [] gs))" "set (by_name_map [] gs) = (\<lambda>g. (g_Name g, g)) ` set gs"
    using by_name_map_spec [of "[]" gs] L by simp_all
  then show "distinct (map fst (by_name_map [] gs))" "fst ` set (by_name_map [] gs) = g_Name ` set gs"
    by (simp_all add: image_image)
  assume "map_of (by_name_map [] gs) n = Some g"
  from map_of_SomeD [OF this] have "g \<in> set gs" "g_Name g = n" by (auto simp: ex(2))
  with L listing [OF I q] show "\<exists>a. view w1 n = Some (g_ID g, a)" by fastforce
qed

text \<open>After the listing a sync runs its two loops: it touches only the groups of the driver and the
  listed ones, and without a failure the former have their users and the rest of the latter are gone.\<close>

lemma Sync_rounds:
  assumes laws: "write_law sdk store" "read_law sdk store todo" and I: "inv w"
    and f: "dr_FetchAllUserGroups d = Inr ms" and dg: "dg = group_users (dr_Prefix d) [] ms"
    and q: "so_ListGroupsByPrefix st (dr_Prefix d @ '':'') DefaultTenantID w = (Inr gs, w1)"
  obtains r w2 w' s' where "importer_Sync st (Client sdk) d rank1 rank2 (w, s) = Some (r, (w', s'))" "inv w'"
    "\<forall>n. n \<notin> fst ` set dg \<longrightarrow> view w2 n = view w n"
    "\<forall>n. n \<notin> g_Name ` set gs \<or> n \<in> fst ` set dg \<longrightarrow> view w' n = view w2 n"
    "r = Inr () \<Longrightarrow> (\<forall>(n, us) \<in> set dg. \<exists>i. view w2 n = Some (i, set us))
       \<and> (\<forall>n \<in> g_Name ` set gs. n \<notin> fst ` set dg \<longrightarrow> view w' n = None)
       \<and> (store s = permission_tuple ` perms w \<longrightarrow> store s' = permission_tuple ` perms w')"
proof -
  let ?k = "\<lparr>k_synced = 0, k_created = 0, k_deleted = 0, k_failures = 0\<rparr>" and ?ex = "by_name_map [] gs"
  from listing [OF I q] have I1: "inv w1" and v1: "view w1 = view w" "perms w1 = perms w" by simp_all
  note ex = existing_groups [OF I q]
  obtain k1 w2 where rc: "reconcile st (map_of ?ex) (map_order rank1 dg) ?k w1 = (k1, w2)" by fastforce
  from reconcile_spec [OF I1 _ _ rc] driver_groups(1) ex(3)
  have R: "inv w2" "perms w2 = perms w1" "\<forall>m. m \<notin> fst ` set dg \<longrightarrow> view w2 m = view w1 m"
    "k_failures k1 = 0 \<longrightarrow> (\<forall>(n, us) \<in> set dg. \<exists>i. view w2 n = Some (i, set us))" by (simp_all add: dg)
  have stale: "\<forall>(n, g) \<in> set (map_order rank2 ?ex). n \<notin> set (map fst dg) \<longrightarrow> (\<exists>a. view w2 n = Some (g_ID g, a))"
    using ex(3) R(3) map_of_is_SomeI [OF ex(1)] by fastforce
  have des: "distinct (map fst (map_order rank2 ?ex))" using ex(1) by simp
  have nms: "fst ` set (map_order rank2 ?ex) = g_Name ` set gs" using ex(2) by simp
  from delete_spec [OF laws R(1) des stale, of k1 s] obtain k2 w' s'
    where D: "delete_stale st (Client sdk) (set (map fst dg)) (map_order rank2 ?ex) k1 (w2, s) = Some (k2, (w', s'))"
      "inv w'" "\<forall>m. m \<notin> g_Name ` set gs \<or> m \<in> set (map fst dg) \<longrightarrow> view w' m = view w2 m" "k_failures k1 \<le> k_failures k2"
      "k_failures k2 = k_failures k1 \<longrightarrow> (\<forall>n \<in> g_Name ` set gs. n \<notin> set (map fst dg) \<longrightarrow> view w' n = None)
         \<and> (store s = permission_tuple ` perms w2 \<longrightarrow> store s' = permission_tuple ` perms w')"
    unfolding nms by blast
  have "\<exists>r. importer_Sync st (Client sdk) d rank1 rank2 (w, s) = Some (r, (w', s')) \<and> (r = Inr () \<longrightarrow> k_failures k2 = 0)"
    using f q rc D(1) by (simp add: importer_Sync_def Let_def dg)
  then obtain r where "importer_Sync st (Client sdk) d rank1 rank2 (w, s) = Some (r, (w', s'))" "r = Inr () \<longrightarrow> k_failures k2 = 0"
    by blast
  with D R v1 show thesis by (intro that [of r w' s' w2]) simp_all
qed

lemma Sync_spec:
  assumes laws: "write_law sdk store" "read_law sdk store todo" and I: "inv w"
  shows "\<exists>r w' s'. importer_Sync st (Client sdk) d rank1 rank2 (w, s) = Some (r, (w', s')) \<and> inv w'
       \<and> (\<forall>n. \<not> prefix (dr_Prefix d @ '':'') n \<longrightarrow> view w' n = view w n)
       \<and> (\<forall>ms. r = Inr () \<and> dr_FetchAllUserGroups d = Inr ms \<longrightarrow>
            (\<forall>n. prefix (dr_Prefix d @ '':'') n \<longrightarrow> map_option snd (view w' n) = wanted (dr_Prefix d) ms n)
          \<and> (store s = permission_tuple ` perms w \<longrightarrow> store s' = permission_tuple ` perms w'))"
proof (cases "dr_FetchAllUserGroups d")
  case (Inl e)
  with I show ?thesis by (simp add: importer_Sync_def)
next
  case f: (Inr ms)
  let ?p = "dr_Prefix d @ '':''" and ?dg = "group_users (dr_Prefix d) [] ms"
  obtain q w1 where q: "so_ListGroupsByPrefix st ?p DefaultTenantID w = (q, w1)" by fastforce
  show ?thesis
  proof (cases q)
    case (Inl e)
    with f q listing [OF I q] show ?thesis by (simp add: importer_Sync_def)
  next
    case (Inr gs)
    note L = listed [OF I q [unfolded Inr]]
    from laws I f refl q [unfolded Inr] obtain r w2 w' s'
      where S: "importer_Sync st (Client sdk) d rank1 rank2 (w, s) = Some (r, (w', s'))" "inv w'"
        "\<forall>n. n \<notin> fst ` set ?dg \<longrightarrow> view w2 n = view w n" "\<forall>n. n \<notin> g_Name ` set gs \<or> n \<in> fst ` set ?dg \<longrightarrow> view w' n = view w2 n"
        "r = Inr () \<Longrightarrow> (\<forall>(n, us) \<in> set ?dg. \<exists>i. view w2 n = Some (i, set us))
           \<and> (\<forall>n \<in> g_Name ` set gs. n \<notin> fst ` set ?dg \<longrightarrow> view w' n = None)
           \<and> (store s = permission_tuple ` perms w \<longrightarrow> store s' = permission_tuple ` perms w')"
      by (rule Sync_rounds [where ?rank1.0 = rank1 and ?rank2.0 = rank2 and s = s]) (rule that)
    have "view w' n = view w n" if "\<not> prefix ?p n" for n
    proof -
      have "n \<notin> fst ` set ?dg" "n \<notin> g_Name ` set gs" using that driver_group_prefix L by auto
      with S(3,4) show ?thesis by metis
    qed
    moreover have "map_option snd (view w' n) = wanted (dr_Prefix d) ms n" if "r = Inr ()" "prefix ?p n" for n
    proof -
      have "n \<notin> g_Name ` set gs \<longrightarrow> view w n = None" using L that(2) by metis
      from reconciled_exact [OF conjunct1 [OF S(5)] S(3) conjunct1 [OF conjunct2 [OF S(5)]] S(4) this] that(1)
      show ?thesis by (simp only: driver_groups(2))
    qed
    ultimately show ?thesis using S(1,2,5) f by (intro exI [of _ r] exI [of _ w'] exI [of _ s']) simp
  qed
qed

end

section \<open>The database is such a store\<close>

definition storage_ops :: "env \<Rightarrow> ctx \<Rightarrow> world store_ops" where
  "storage_ops env c = \<lparr>so_CreateGroup = CreateGroup env c, so_GetGroupByName = GetGroupByName env c,
     so_AddUsersToGroup = AddUsersToGroup env c, so_ListGroupsByPrefix = ListGroupsByPrefix env c,
     so_SyncGroupMembers = SyncGroupMembers env c, so_DeleteGroup = DeleteGroup env c\<rparr>"

text \<open>The service keeps every group in the default tenant; names and identifiers are then unique.\<close>

definition one_tenant :: "tables \<Rightarrow> bool" where
  "one_tenant tb \<longleftrightarrow> (\<forall>r \<in> set (t_groups tb). gr_tenant_id r = ''default'')"

definition group_view :: "tables \<Rightarrow> string \<Rightarrow> (string \<times> string set) option" where
  "group_view tb n = map_option (\<lambda>r. (gr_id r, {u. (gr_id r, u) \<in> memberships tb})) (find (\<lambda>r. gr_name r = n) (t_groups tb))"

definition import_inv :: "world \<Rightarrow> bool" where
  "import_inv w \<longleftrightarrow> wf_world w \<and> one_tenant (w_primary w)"

lemma import_inv_wf: "import_inv w \<Longrightarrow> wf_tables (w_primary w) \<and> one_tenant (w_primary w)"
  using wf_world_target [of w background] by (simp add: import_inv_def)

lemma names_unique:
  assumes "wf_tables tb" "one_tenant tb" "r \<in> set (t_groups tb)" "q \<in> set (t_groups tb)"
  shows "gr_name r = gr_name q \<Longrightarrow> r = q" "gr_id r = gr_id q \<Longrightarrow> r = q"
proof -
  from assms have i: "inj_on group_key (set (t_groups tb))" "inj_on group_name_key (set (t_groups tb))"
    by (auto simp: wf_tables_def distinct_map)
  from assms(2-4) have "gr_tenant_id r = gr_tenant_id q" by (simp add: one_tenant_def)
  then show "gr_name r = gr_name q \<Longrightarrow> r = q" "gr_id r = gr_id q \<Longrightarrow> r = q"
    using i [THEN inj_onD] assms(3,4) by (simp_all add: group_key_def group_name_key_def)
qed

lemma find_name: "find (\<lambda>r. gr_name r = n) rs = Some r \<Longrightarrow> r \<in> set rs \<and> gr_name r = n"
  by (induction rs) (auto split: if_splits)

lemma group_view_Some:
  assumes "wf_tables tb" "one_tenant tb"
  shows "group_view tb n = Some (i, ms) \<longleftrightarrow>
     (\<exists>r \<in> set (t_groups tb). gr_name r = n \<and> gr_id r = i) \<and> ms = {u. (i, u) \<in> memberships tb}" (is "?L \<longleftrightarrow> ?R")
proof
  assume ?L then show ?R by (auto simp: group_view_def dest: find_name)
next
  assume ?R
  then obtain r where r: "r \<in> set (t_groups tb)" "gr_name r = n" "gr_id r = i" and ms: "ms = {u. (i, u) \<in> memberships tb}" by blast
  then obtain q where q: "find (\<lambda>r. gr_name r = n) (t_groups tb) = Some q"
    by (metis (mono_tags) find_None_iff2 not_Some_eq)
  from find_name [OF q] names_unique(1) [OF assms r(1), of q] r(2) have "q = r" by simp
  with q r(3) ms show ?L by (simp add: group_view_def)
qed

lemma group_view_None: "group_view tb n = None \<longleftrightarrow> n \<notin> gr_name ` set (t_groups tb)"
  by (auto simp: group_view_def find_None_iff)

text \<open>Two states agree on a name when they have the same rows for it and the same members of its group.\<close>

lemma group_view_cong:
  assumes "wf_tables tb" "one_tenant tb" "wf_tables tb'" "one_tenant tb'"
    and rows: "\<And>i. (\<exists>r \<in> set (t_groups tb'). gr_name r = n \<and> gr_id r = i) \<longleftrightarrow> (\<exists>r \<in> set (t_groups tb). gr_name r = n \<and> gr_id r = i)"
    and mem: "\<And>r u. r \<in> set (t_groups tb) \<Longrightarrow> gr_name r = n \<Longrightarrow> (gr_id r, u) \<in> memberships tb' \<longleftrightarrow> (gr_id r, u) \<in> memberships tb"
  shows "group_view tb' n = group_view tb n"
proof (cases "group_view tb n")
  case None
  then have none: "\<not> (\<exists>r \<in> set (t_groups tb). gr_name r = n \<and> gr_id r = i)" for i by (auto simp: group_view_None)
  have "gr_name r \<noteq> n" if "r \<in> set (t_groups tb')" for r using rows [of "gr_id r"] none that by blast
  then have "group_view tb' n = None" by (auto simp: group_view_None)
  with None show ?thesis by simp
next
  case (Some v)
  obtain i ms where v: "v = (i, ms)" by fastforce
  from Some [unfolded v group_view_Some [OF assms(1,2)]] obtain r where r: "r \<in> set (t_groups tb)" "gr_name r = n" "gr_id r = i"
    and ms: "ms = {u. (i, u) \<in> memberships tb}" by blast
  from mem [OF r(1,2)] r(3) ms have "ms = {u. (i, u) \<in> memberships tb'}" by simp
  moreover have "\<exists>r \<in> set (t_groups tb'). gr_name r = n \<and> gr_id r = i"
    by (rule rows [THEN iffD2]) (use r in blast)
  ultimately have "group_view tb' n = Some (i, ms)" unfolding group_view_Some [OF assms(3,4)] by simp
  with Some v show ?thesis by simp
qed

subsection \<open>Operation by operation\<close>

lemma CreateGroup_tables:
  assumes wr: "writable c" and op: "CreateGroup env c grp w = (r, w')"
  shows "target c w' = target c w \<and> (\<forall>g. r \<noteq> Inr g)
       \<or> (\<exists>row. target c w' = (target c w)\<lparr>t_groups := t_groups (target c w) @ [row]\<rparr> \<and> gr_name row = g_Name grp
            \<and> gr_tenant_id row = g_TenantId grp \<and> group_key row \<notin> group_key ` set (t_groups (target c w))
            \<and> (\<forall>g. r = Inr g \<longrightarrow> g_ID g = gr_id row))"
proof (cases "env_uuid env (w_tick w)")
  case (Inl e)
  with op show ?thesis by (auto simp: CreateGroup_def)
next
  case (Inr gid)
  let ?now = "env_clock env (w_tick w)"
  let ?row = "\<lparr>gr_id = gid, gr_name = g_Name grp, gr_tenant_id = g_TenantId grp,
       gr_description = g_Description grp, gr_type = g_Type grp, gr_created_at = ?now, gr_updated_at = ?now\<rparr>"
  obtain q w1 where ex: "db_exec env c (sql_insert_group ?row) (tick w) = (q, w1)" by fastforce
  show ?thesis
  proof (cases q)
    case (Inl e)
    with op Inr ex have "w' = w1" "\<forall>g. r \<noteq> Inr g" by (auto simp: CreateGroup_def Let_def)
    with db_exec_Inl [OF wr ex [unfolded Inl]] show ?thesis by simp
  next
    case (Inr x)
    obtain a flt where x: "x = (a, flt)" by (cases x)
    with op \<open>env_uuid env (w_tick w) = Inr gid\<close> ex Inr have w': "w' = w1" and g: "\<forall>g. r = Inr g \<longrightarrow> g_ID g = gid"
      by (auto simp: CreateGroup_def Let_def split: sum.splits prod.splits)
    from db_exec_Inr [OF wr ex [unfolded Inr x]] have "sql_insert_group ?row (target c w) = Inr (a, target c w')" using w' by simp
    then have "target c w' = (target c w)\<lparr>t_groups := t_groups (target c w) @ [?row]\<rparr>"
      "group_key ?row \<notin> group_key ` set (t_groups (target c w))"
      by (auto simp: sql_insert_group_def split: if_splits)
    with g show ?thesis by (intro disjI2 exI [of _ ?row]) simp
  qed
qed

lemma keeps_import_inv:
  assumes "import_inv w" "keeps env background op" "op w = (r, w')" "one_tenant (w_primary w')"
  shows "import_inv w'"
  using assms keeps_wf [OF assms(2,3)] by (simp add: import_inv_def)

lemma fresh_group_empty:
  assumes "wf_tables tb" "one_tenant tb" "(i, ''default'') \<notin> group_key ` set (t_groups tb)"
  shows "(i, u) \<notin> memberships tb"
proof
  assume "(i, u) \<in> memberships tb"
  then obtain m where m: "m \<in> set (t_members tb)" "gm_group_id m = i" by (auto simp: memberships_def member_key_def)
  with assms(1) obtain r where "r \<in> set (t_groups tb)" "group_key r = member_ref m" by (auto simp: wf_tables_def)
  moreover from this assms(2) have "group_key r = (i, ''default'')"
    using m(2) by (simp add: one_tenant_def group_key_def member_ref_def)
  ultimately show False using assms(3) by (metis image_eqI)
qed

lemma storage_creating:
  assumes I: "import_inv w" and op: "CreateGroup env background (imported_group n) w = (r, w')"
  shows "import_inv w' \<and> allowances (w_primary w') = allowances (w_primary w)
       \<and> (\<forall>m. m \<noteq> n \<longrightarrow> group_view (w_primary w') m = group_view (w_primary w) m)
       \<and> (\<forall>g. r = Inr g \<longrightarrow> group_view (w_primary w') n = Some (g_ID g, {}))
       \<and> (group_view (w_primary w') n = group_view (w_primary w) n \<or> (\<exists>i. group_view (w_primary w') n = Some (i, {})))"
proof -
  let ?tb = "w_primary w" and ?tb' = "w_primary w'"
  note wf = import_inv_wf [OF I]
  from CreateGroup_tables [OF writable_simps(1) op] show ?thesis
  proof (elim disjE exE conjE)
    assume same: "target background w' = target background w" "\<forall>g. r \<noteq> Inr g"
    then have "import_inv w'" using keeps_import_inv [OF I keeps_CreateGroup op] wf by simp
    with same show ?thesis by simp
  next
    fix row
    assume tb': "target background w' = (target background w)\<lparr>t_groups := t_groups (target background w) @ [row]\<rparr>"
      and row: "gr_name row = g_Name (imported_group n)" "gr_tenant_id row = g_TenantId (imported_group n)"
        "group_key row \<notin> group_key ` set (t_groups (target background w))"
      and g: "\<forall>g. r = Inr g \<longrightarrow> g_ID g = gr_id row"
    from tb' have t: "?tb' = ?tb\<lparr>t_groups := t_groups ?tb @ [row]\<rparr>" by simp
    have nm: "gr_name row = n" "gr_tenant_id row = ''default''" using row by (simp_all add: imported_group_def DefaultTenantID_def)
    have one: "one_tenant ?tb'" using wf t nm by (simp add: one_tenant_def)
    then have I': "import_inv w'" by (rule keeps_import_inv [OF I keeps_CreateGroup op])
    note wf' = import_inv_wf [OF I']
    have mem: "memberships ?tb' = memberships ?tb" and al: "allowances ?tb' = allowances ?tb"
      by (simp_all add: t memberships_def allowances_def)
    have "group_view ?tb' m = group_view ?tb m" if "m \<noteq> n" for m
      by (rule group_view_cong) (use wf wf' that nm in \<open>auto simp: t memberships_def\<close>)
    moreover have "group_view ?tb' n = Some (gr_id row, {})"
    proof -
      have "(gr_id row, u) \<notin> memberships ?tb" for u
        using fresh_group_empty [of ?tb "gr_id row"] wf row(3) nm(2) by (simp add: group_key_def)
      then show ?thesis unfolding group_view_Some [OF conjunct1 [OF wf'] conjunct2 [OF wf']] mem using nm(1) by (auto simp: t)
    qed
    ultimately show ?thesis using I' al g by simp
  qed
qed


text \<open>An operation that edits the members of one group, in terms of the memberships it leaves.\<close>

lemma view_after_member_edit:
  assumes I: "import_inv w" "import_inv w'" and v: "group_view (w_primary w) n = Some (i, ms)"
    and rows: "t_groups (w_primary w') = t_groups (w_primary w)"
    and mem: "\<And>g u. g \<noteq> i \<Longrightarrow> (g, u) \<in> memberships (w_primary w') \<longleftrightarrow> (g, u) \<in> memberships (w_primary w)"
  shows "(\<forall>m. m \<noteq> n \<longrightarrow> group_view (w_primary w') m = group_view (w_primary w) m)
       \<and> group_view (w_primary w') n = Some (i, {u. (i, u) \<in> memberships (w_primary w')})"
proof
  note wf = import_inv_wf [OF I(1)] import_inv_wf [OF I(2)]
  from v [unfolded group_view_Some [OF conjunct1 [OF wf(1)] conjunct2 [OF wf(1)]]] obtain r
    where r: "r \<in> set (t_groups (w_primary w))" "gr_name r = n" "gr_id r = i" by blast
  show "\<forall>m. m \<noteq> n \<longrightarrow> group_view (w_primary w') m = group_view (w_primary w) m"
  proof (intro allI impI)
    fix m assume m: "m \<noteq> n"
    show "group_view (w_primary w') m = group_view (w_primary w) m"
    proof (rule group_view_cong)
      fix q u assume q: "q \<in> set (t_groups (w_primary w))" "gr_name q = m"
      with m r names_unique(2) [of "w_primary w" q r] wf(1) have "gr_id q \<noteq> i" by auto
      then show "(gr_id q, u) \<in> memberships (w_primary w') \<longleftrightarrow> (gr_id q, u) \<in> memberships (w_primary w)" by (rule mem)
    qed (use wf rows in simp_all)
  qed
  show "group_view (w_primary w') n = Some (i, {u. (i, u) \<in> memberships (w_primary w')})"
    unfolding group_view_Some [OF conjunct1 [OF wf(2)] conjunct2 [OF wf(2)]] rows using r by blast
qed

lemma storage_adding:
  assumes I: "import_inv w" and v: "group_view (w_primary w) n = Some (i, ms)"
    and op: "AddUsersToGroup env background i us w = (r, w')"
  shows "import_inv w' \<and> allowances (w_primary w') = allowances (w_primary w)
       \<and> (\<forall>m. m \<noteq> n \<longrightarrow> group_view (w_primary w') m = group_view (w_primary w) m)
       \<and> group_view (w_primary w') n = Some (i, if is_ok r then ms \<union> set us else ms)"
proof -
  note wf = import_inv_wf [OF I]
  from AddUsersToGroup_effect [OF writable_simps(1) op]
  have rows: "t_groups (w_primary w') = t_groups (w_primary w)" "t_apps (w_primary w') = t_apps (w_primary w)"
    and mem: "memberships (w_primary w') = (if is_ok r then memberships (w_primary w) \<union> {i} \<times> set us else memberships (w_primary w))"
    by simp_all
  have I': "import_inv w'" using keeps_import_inv [OF I keeps_AddUsersToGroup op] wf rows(1) by (simp add: one_tenant_def)
  have ms: "ms = {u. (i, u) \<in> memberships (w_primary w)}"
    using v [unfolded group_view_Some [OF conjunct1 [OF wf] conjunct2 [OF wf]]] by blast
  have new: "{u. (i, u) \<in> memberships (w_primary w')} = (if is_ok r then ms \<union> set us else ms)" by (auto simp: mem ms)
  show ?thesis using view_after_member_edit [OF I I' v rows(1)] I' rows(2) new
    by (simp add: mem allowances_def split: if_splits)
qed

lemma SyncGroupMembers_rows:
  assumes wr: "writable c" and op: "SyncGroupMembers env c gid us w = (r, w')"
  shows "t_groups (target c w') = t_groups (target c w)" "t_apps (target c w') = t_apps (target c w)"
    "g \<noteq> gid \<Longrightarrow> (g, u) \<in> memberships (target c w') \<longleftrightarrow> (g, u) \<in> memberships (target c w)"
proof -
  have "t_groups (target c w') = t_groups (target c w) \<and> t_apps (target c w') = t_apps (target c w)
      \<and> (g \<noteq> gid \<longrightarrow> ((g, u) \<in> memberships (target c w') \<longleftrightarrow> (g, u) \<in> memberships (target c w)))"
  proof (cases r)
    case (Inr x)
    from SyncGroupMembers_effect [OF wr op [unfolded Inr]] show ?thesis by auto
  next
    case (Inl e)
    from SyncGroupMembers_failure [OF wr op [unfolded Inl]] have m: "g \<noteq> gid \<longrightarrow> ((g, u) \<in> memberships (target c w') \<longleftrightarrow> (g, u) \<in> memberships (target c w))"
      by auto
    from op have "t_groups (target c w') = t_groups (target c w) \<and> t_apps (target c w') = t_apps (target c w)"
    proof (cases rule: SyncGroupMembers_cases)
      case del_failed
      from db_exec_Inl [OF wr del_failed(1)] show ?thesis by simp
    next
      case (deleted x)
      from delete_members_exec [OF wr deleted(1)] show ?thesis by simp
    next
      case (upsert x w1 y now)
      from upsert(4) Inl obtain e' where "y = Inl e'" by (cases y) simp_all
      with db_exec_Inl [OF wr] upsert(3) have "target c w' = target c w1" by blast
      with delete_members_exec [OF wr upsert(1)] show ?thesis by simp
    qed
    with m show ?thesis by simp
  qed
  then show "t_groups (target c w') = t_groups (target c w)" "t_apps (target c w') = t_apps (target c w)"
    "g \<noteq> gid \<Longrightarrow> (g, u) \<in> memberships (target c w') \<longleftrightarrow> (g, u) \<in> memberships (target c w)" by simp_all
qed

lemma storage_syncing:
  assumes I: "import_inv w" and v: "group_view (w_primary w) n = Some (i, ms)"
    and op: "SyncGroupMembers env background i us w = (r, w')"
  shows "import_inv w' \<and> allowances (w_primary w') = allowances (w_primary w)
       \<and> (\<forall>m. m \<noteq> n \<longrightarrow> group_view (w_primary w') m = group_view (w_primary w) m)
       \<and> (\<forall>x. r = Inr x \<longrightarrow> group_view (w_primary w') n = Some (i, set us))"
proof -
  note wf = import_inv_wf [OF I]
  note R = SyncGroupMembers_rows [OF writable_simps(1) op, unfolded target_background]
  have I': "import_inv w'" using keeps_import_inv [OF I keeps_SyncGroupMembers op] wf R(1) by (simp add: one_tenant_def)
  have "{u. (i, u) \<in> memberships (w_primary w')} = set us" if "r = Inr x" for x
    using SyncGroupMembers_effect [OF writable_simps(1) op [unfolded that]] by auto
  with view_after_member_edit [OF I I' v R(1) R(3)] I' R(2) show ?thesis by (simp add: allowances_def)
qed

lemma storage_deleting:
  assumes I: "import_inv w" and v: "group_view (w_primary w) n = Some (i, ms)"
    and op: "DeleteGroup env background i w = (r, w')"
  shows "import_inv w' \<and> (\<forall>m. m \<noteq> n \<longrightarrow> group_view (w_primary w') m = group_view (w_primary w) m)
       \<and> (\<not> is_ok r \<longrightarrow> allowances (w_primary w') = allowances (w_primary w))
       \<and> (\<forall>x. r = Inr x \<longrightarrow> group_view (w_primary w') n = None
            \<and> allowances (w_primary w') = {(g, a) \<in> allowances (w_primary w). g \<noteq> i})"
proof (cases r)
  case (Inl e)
  with op have "\<exists>e'. db_exec env background (sql_delete_groups i) w = (Inl e', w')" by (auto simp: DeleteGroup_def exec_result_Inl)
  with db_exec_Inl [OF writable_simps(1)] have same: "w_primary w' = w_primary w" by fastforce
  with keeps_import_inv [OF I keeps_DeleteGroup op] import_inv_wf [OF I] have "import_inv w'" by simp
  with same Inl show ?thesis by simp
next
  case (Inr x)
  note wf = import_inv_wf [OF I]
  from I have "wf_world w" by (simp add: import_inv_def)
  from DeleteGroup_effect [OF writable_simps(1) this op [unfolded Inr]]
  have D: "t_groups (w_primary w') = filter (\<lambda>r. gr_id r \<noteq> i) (t_groups (w_primary w))"
    "memberships (w_primary w') = {(g, x) \<in> memberships (w_primary w). g \<noteq> i}"
    "allowances (w_primary w') = {(g, a) \<in> allowances (w_primary w). g \<noteq> i}" by simp_all
  have I': "import_inv w'" using keeps_import_inv [OF I keeps_DeleteGroup op] wf D(1) by (simp add: one_tenant_def)
  note wf' = import_inv_wf [OF I']
  from v [unfolded group_view_Some [OF conjunct1 [OF wf] conjunct2 [OF wf]]] obtain r0
    where r0: "r0 \<in> set (t_groups (w_primary w))" "gr_name r0 = n" "gr_id r0 = i" by blast
  have own: "gr_id q = i \<longleftrightarrow> gr_name q = n" if "q \<in> set (t_groups (w_primary w))" for q
    using names_unique [OF conjunct1 [OF wf] conjunct2 [OF wf] that r0(1)] r0(2,3) by auto
  have "group_view (w_primary w') m = group_view (w_primary w) m" if m: "m \<noteq> n" for m
  proof (rule group_view_cong)
    fix j
    show "(\<exists>r \<in> set (t_groups (w_primary w')). gr_name r = m \<and> gr_id r = j) \<longleftrightarrow> (\<exists>r \<in> set (t_groups (w_primary w)). gr_name r = m \<and> gr_id r = j)"
      unfolding D(1) set_filter using own m by blast
  next
    fix q u assume q: "q \<in> set (t_groups (w_primary w))" "gr_name q = m"
    with own [OF q(1)] m show "(gr_id q, u) \<in> memberships (w_primary w') \<longleftrightarrow> (gr_id q, u) \<in> memberships (w_primary w)" by (simp add: D(2))
  qed (use wf wf' in simp_all)
  moreover have "group_view (w_primary w') n = None"
    unfolding group_view_None D(1) using own by auto
  ultimately show ?thesis using I' D(3) Inr by simp
qed

lemma storage_listing:
  assumes I: "import_inv w" and op: "ListGroupsByPrefix env background p DefaultTenantID w = (r, w')"
  shows "import_inv w' \<and> w_primary w' = w_primary w"
    "r = Inr gs \<Longrightarrow> distinct (map g_Name gs)
      \<and> (\<forall>g \<in> set gs. prefix p (g_Name g) \<and> map_option fst (group_view (w_primary w) (g_Name g)) = Some (g_ID g))
      \<and> (\<forall>n. prefix p n \<and> group_view (w_primary w) n \<noteq> None \<longrightarrow> n \<in> g_Name ` set gs)"
proof -
  note wf = import_inv_wf [OF I]
  have rd: "readable background" by simp
  have same: "w_primary w' = w_primary w"
    using op db_query_target [OF rd] unfolding ListGroupsByPrefix_def Let_def
    by (fastforce split: prod.splits sum.splits)
  with keeps_import_inv [OF I keeps_ListGroupsByPrefix op] wf show "import_inv w' \<and> w_primary w' = w_primary w" by simp
  assume "r = Inr gs"
  let ?sel = "filter (\<lambda>r. prefix p (gr_name r) \<and> gr_tenant_id r = DefaultTenantID) (t_groups (w_primary w))"
  have dn: "DefaultTenantID \<noteq> []" by (simp add: DefaultTenantID_def)
  from ListGroupsByPrefix_Inr [OF rd op [unfolded \<open>r = Inr gs\<close>]] dn have gs: "gs = map scanGroup (by_name env ?sel)" by simp
  have sel: "set ?sel = {q \<in> set (t_groups (w_primary w)). prefix p (gr_name q)}"
    using wf by (auto simp: one_tenant_def DefaultTenantID_def)
  have "inj_on gr_name (set (t_groups (w_primary w)))"
    by (rule inj_onI) (rule names_unique(1) [OF conjunct1 [OF wf] conjunct2 [OF wf]])
  moreover have "distinct (t_groups (w_primary w))" using wf by (auto simp: wf_tables_def distinct_map)
  ultimately have "distinct (map gr_name (t_groups (w_primary w)))" by (simp add: distinct_map)
  then have "distinct (map gr_name ?sel)" by (rule distinct_map_filter)
  moreover have "mset (map gr_name (by_name env ?sel)) = mset (map gr_name ?sel)" by (simp add: by_name_def)
  ultimately have "distinct (map gr_name (by_name env ?sel))" using mset_eq_imp_distinct_iff by blast
  then have d: "distinct (map g_Name gs)" by (simp add: gs comp_def)
  have each: "prefix p (g_Name g) \<and> map_option fst (group_view (w_primary w) (g_Name g)) = Some (g_ID g)" if "g \<in> set gs" for g
  proof -
    from that gs sel obtain q where q: "q \<in> set (t_groups (w_primary w))" "prefix p (gr_name q)" "g = scanGroup q" by auto
    then have "group_view (w_primary w) (gr_name q) = Some (gr_id q, {u. (gr_id q, u) \<in> memberships (w_primary w)})"
      unfolding group_view_Some [OF conjunct1 [OF wf] conjunct2 [OF wf]] by blast
    with q show ?thesis by simp
  qed
  have "n \<in> g_Name ` set gs" if "prefix p n" "group_view (w_primary w) n \<noteq> None" for n
  proof -
    from that(2) obtain q where q: "q \<in> set (t_groups (w_primary w))" "gr_name q = n" by (auto simp: group_view_None)
    with that(1) sel have "scanGroup q \<in> set gs" by (simp add: gs)
    with q(2) show ?thesis by force
  qed
  with d each show "distinct (map g_Name gs)
      \<and> (\<forall>g \<in> set gs. prefix p (g_Name g) \<and> map_option fst (group_view (w_primary w) (g_Name g)) = Some (g_ID g))
      \<and> (\<forall>n. prefix p n \<and> group_view (w_primary w) n \<noteq> None \<longrightarrow> n \<in> g_Name ` set gs)" by blast
qed


interpretation database: group_store "storage_ops env background" "\<lambda>w. group_view (w_primary w)" "\<lambda>w. allowances (w_primary w)" import_inv
  for env
proof
  fix w w' p and gs :: "Group list" and r
  assume I: "import_inv w"
  show "import_inv w' \<and> group_view (w_primary w') = group_view (w_primary w) \<and> allowances (w_primary w') = allowances (w_primary w)"
    if "so_ListGroupsByPrefix (storage_ops env background) p DefaultTenantID w = (r, w')"
    using storage_listing(1) [OF I, of env p r w'] that by (simp add: storage_ops_def)
  show "distinct (map g_Name gs)
      \<and> (\<forall>g \<in> set gs. prefix p (g_Name g) \<and> map_option fst (group_view (w_primary w) (g_Name g)) = Some (g_ID g))
      \<and> (\<forall>n. prefix p n \<and> group_view (w_primary w) n \<noteq> None \<longrightarrow> n \<in> g_Name ` set gs)"
    if "so_ListGroupsByPrefix (storage_ops env background) p DefaultTenantID w = (Inr gs, w')"
    using storage_listing(2) [OF I, of env p "Inr gs" w' gs] that by (simp add: storage_ops_def)
next
  fix w w' n and rg :: "Group res" and g
  assume I: "import_inv w"
  show "import_inv w' \<and> allowances (w_primary w') = allowances (w_primary w)
      \<and> (\<forall>m. m \<noteq> n \<longrightarrow> group_view (w_primary w') m = group_view (w_primary w) m)"
    if "so_CreateGroup (storage_ops env background) (imported_group n) w = (rg, w')"
    using storage_creating [OF I, of env n rg w'] that by (simp add: storage_ops_def)
  show "group_view (w_primary w') n = Some (g_ID g, {})"
    if "so_CreateGroup (storage_ops env background) (imported_group n) w = (Inr g, w')"
    using storage_creating [OF I, of env n "Inr g" w'] that by (simp add: storage_ops_def)
next
  fix w w' n i ms us and ru :: "unit res" and x
  assume I: "import_inv w" and v: "group_view (w_primary w) n = Some (i, ms)"
  show "import_inv w' \<and> allowances (w_primary w') = allowances (w_primary w)
      \<and> (\<forall>m. m \<noteq> n \<longrightarrow> group_view (w_primary w') m = group_view (w_primary w) m)
      \<and> group_view (w_primary w') n = Some (i, if is_ok ru then ms \<union> set us else ms)"
    if "so_AddUsersToGroup (storage_ops env background) i us w = (ru, w')"
    using storage_adding [OF I v, of env us ru w'] that by (simp add: storage_ops_def)
  show "import_inv w' \<and> allowances (w_primary w') = allowances (w_primary w)
      \<and> (\<forall>m. m \<noteq> n \<longrightarrow> group_view (w_primary w') m = group_view (w_primary w) m)"
    if "so_SyncGroupMembers (storage_ops env background) i us w = (ru, w')"
    using storage_syncing [OF I v, of env us ru w'] that by (simp add: storage_ops_def)
  show "group_view (w_primary w') n = Some (i, set us)"
    if "so_SyncGroupMembers (storage_ops env background) i us w = (Inr x, w')"
    using storage_syncing [OF I v, of env us "Inr x" w'] that by (simp add: storage_ops_def)
  show "import_inv w' \<and> (\<forall>m. m \<noteq> n \<longrightarrow> group_view (w_primary w') m = group_view (w_primary w) m)
      \<and> (\<not> is_ok ru \<longrightarrow> allowances (w_primary w') = allowances (w_primary w))"
    if "so_DeleteGroup (storage_ops env background) i w = (ru, w')"
    using storage_deleting [OF I v, of env ru w'] that by (simp add: storage_ops_def)
  show "group_view (w_primary w') n = None \<and> allowances (w_primary w') = {(g, a) \<in> allowances (w_primary w). g \<noteq> i}"
    if "so_DeleteGroup (storage_ops env background) i w = (Inr x, w')"
    using storage_deleting [OF I v, of env "Inr x" w'] that by (simp add: storage_ops_def)
qed

section \<open>Properties\<close>

text \<open>The users of a group, by its name.\<close>

definition members_of :: "tables \<Rightarrow> string \<Rightarrow> string set option" where
  "members_of tb n = map_option snd (group_view tb n)"

text \<open>C4: a successful sync makes the database agree with the driver. It always returns; when it reports success, the
  groups with the driver's prefix are exactly the driver's groups, each with exactly the driver's users, in
  whatever order the maps are iterated; and if OpenFGA held exactly the permissions of the database before, it
  does afterwards, also for the groups that were deleted.\<close>

theorem Sync_reconciles:
  assumes laws: "write_law sdk store" "read_law sdk store todo" and inv: "wf_world w" "one_tenant (w_primary w)"
    and drv: "dr_FetchAllUserGroups d = Inr ms"
  shows "\<exists>r w' s'. importer_Sync (storage_ops env background) (Client sdk) d rank1 rank2 (w, s) = Some (r, (w', s'))
       \<and> (r = Inr () \<longrightarrow>
            (\<forall>n. prefix (dr_Prefix d @ '':'') n \<longrightarrow> members_of (w_primary w') n = wanted (dr_Prefix d) ms n)
          \<and> (in_sync store (w_primary w) s \<longrightarrow> in_sync store (w_primary w') s'))"
proof -
  from inv have "import_inv w" by (simp add: import_inv_def)
  from database.Sync_spec [OF laws this, of env d rank1 rank2 s] obtain r w' s'
    where run: "importer_Sync (storage_ops env background) (Client sdk) d rank1 rank2 (w, s) = Some (r, (w', s'))"
      and ok: "\<forall>ms. r = Inr () \<and> dr_FetchAllUserGroups d = Inr ms \<longrightarrow>
            (\<forall>n. prefix (dr_Prefix d @ '':'') n \<longrightarrow> map_option snd (group_view (w_primary w') n) = wanted (dr_Prefix d) ms n)
          \<and> (store s = permission_tuple ` allowances (w_primary w) \<longrightarrow> store s' = permission_tuple ` allowances (w_primary w'))"
    by blast
  from ok drv have "r = Inr () \<longrightarrow> (\<forall>n. prefix (dr_Prefix d @ '':'') n \<longrightarrow> members_of (w_primary w') n = wanted (dr_Prefix d) ms n)
      \<and> (in_sync store (w_primary w) s \<longrightarrow> in_sync store (w_primary w') s')"
    by (simp add: members_of_def in_sync_def)
  with run show ?thesis by (intro exI [of _ r] exI [of _ w'] exI [of _ s']) (rule conjI)
qed

text \<open>A sync never touches the other groups. Whatever fails on the way, a group whose name does not start with the
  driver's prefix and a colon keeps its identifier and its members.\<close>

theorem Sync_leaves_other_groups_alone:
  assumes laws: "write_law sdk store" "read_law sdk store todo" and inv: "wf_world w" "one_tenant (w_primary w)"
    and other: "\<not> prefix (dr_Prefix d @ '':'') n"
  shows "\<exists>r w' s'. importer_Sync (storage_ops env background) (Client sdk) d rank1 rank2 (w, s) = Some (r, (w', s'))
       \<and> group_view (w_primary w') n = group_view (w_primary w) n"
proof -
  from inv have "import_inv w" by (simp add: import_inv_def)
  from database.Sync_spec [OF laws this, of env d rank1 rank2 s] other show ?thesis by blast
qed

definition demo_driver :: driver where
  "demo_driver = SalesforceDriver (\<lambda>q. Inr [\<lparr>tm_Email = ''ann'', tm_Department = ''dev'', tm_Team = []\<rparr>])"

lemma demo_driver_facts [simp]:
  "dr_FetchAllUserGroups demo_driver = Inr [\<lparr>ug_UserID = ''ann'', ug_GroupName = ''dev''\<rparr>]" "dr_Prefix demo_driver = ''salesforce''"
  "one_tenant demo_tables"
  by (simp_all add: demo_driver_def SalesforceDriver_def one_tenant_def demo_tables_def)

lemma ListGroupsByPrefix_succeeds:
  assumes "readable c" "no_faults env" "live c w"
  shows "\<exists>gs w'. ListGroupsByPrefix env c p tid w = (Inr gs, w')"
proof -
  have key: "r = Inr (q (target c w), None)" if "db_query env c q w = (r, w1)" for q :: "tables \<Rightarrow> groups_row list" and r w1
    using db_query_no_faults [OF assms, of q] that by simp
  show ?thesis unfolding ListGroupsByPrefix_def Let_def by (auto split: prod.splits sum.splits dest!: key)
qed

lemma demo_sync:
  "\<exists>w'. importer_Sync (storage_ops quiet_env background) (Client ref_sdk) demo_driver length length
       (world_of demo_tables, s) = Some (Inr (), (w', s))"
proof -
  let ?w = "world_of demo_tables" and ?n = "''salesforce:dev''"
  have I: "import_inv ?w" by (simp add: import_inv_def)
  have dn: "DefaultTenantID \<noteq> []" by (simp add: DefaultTenantID_def)
  obtain gs w1 where q: "ListGroupsByPrefix quiet_env background ''salesforce:'' DefaultTenantID ?w = (Inr gs, w1)"
    using ListGroupsByPrefix_succeeds [of background quiet_env ?w "''salesforce:''" DefaultTenantID] by auto
  have "gs = []" using ListGroupsByPrefix_Inr [OF _ q] dn by (simp add: demo_tables_def by_name_def)
  note L = storage_listing(1) [OF I q]
  obtain c w2 where c: "CreateGroup quiet_env background (imported_group ?n) w1 = (c, w2)" by fastforce
  have t: "w_tick w1 = 1" using q by (auto simp: ListGroupsByPrefix_def Let_def db_query_def db_stmt_def Statement_def route_rest_def
      run_on_def tick_def split: prod.splits sum.splits)
  have "\<exists>g. c = Inr g"
    using c L t by (auto simp: CreateGroup_def Let_def db_exec_def db_stmt_def Statement_def route_rest_def run_on_def tick_def
        sql_insert_group_def demo_tables_def group_key_def group_name_key_def imported_group_def zero_Group_def DefaultTenantID_def)
  then obtain g where g: "c = Inr g" ..
  note C = storage_creating [OF conjunct1 [OF L] c]
  from C g have v: "group_view (w_primary w2) ?n = Some (g_ID g, {})" and I2: "import_inv w2" by simp_all
  have "g_ID g \<in> default_groups (w_primary w2)"
    using v import_inv_wf [OF I2] by (force simp: group_view_Some default_groups_def one_tenant_def)
  with AddUsersToGroup_succeeds [of background quiet_env w2 "g_ID g" "[''ann'']"] obtain w3
    where a: "AddUsersToGroup quiet_env background (g_ID g) [''ann''] w2 = (Inr (), w3)" by auto
  show ?thesis using q \<open>gs = []\<close> c g a
    by (simp add: importer_Sync_def storage_ops_def map_order_def Let_def)
qed

theorem Sync_reconciles_witness:
  "\<exists>w' s'. importer_Sync (storage_ops quiet_env background) (Client ref_sdk) demo_driver length length
       (world_of demo_tables, [permission_tuple (''g1'', ''app'')]) = Some (Inr (), (w', s'))
     \<and> members_of (w_primary w') ''salesforce:dev'' = Some {''ann''} \<and> in_sync set (w_primary w') s'"
proof -
  have sync: "in_sync set (w_primary (world_of demo_tables)) [permission_tuple (''g1'', ''app'')]" by (simp add: in_sync_def)
  have want: "wanted (dr_Prefix demo_driver) [\<lparr>ug_UserID = ''ann'', ug_GroupName = ''dev''\<rparr>] ''salesforce:dev'' = Some {''ann''}"
    by (simp add: wanted_def)
  have pre: "prefix (dr_Prefix demo_driver @ '':'') ''salesforce:dev''" by simp
  have wf: "wf_world (world_of demo_tables)" "one_tenant (w_primary (world_of demo_tables))" by simp_all
  obtain w' where run: "importer_Sync (storage_ops quiet_env background) (Client ref_sdk) demo_driver length length
       (world_of demo_tables, [permission_tuple (''g1'', ''app'')]) = Some (Inr (), (w', [permission_tuple (''g1'', ''app'')]))"
    using demo_sync by blast
  from Sync_reconciles [OF ref_laws(1,4) wf demo_driver_facts(1), of quiet_env length length "[permission_tuple (''g1'', ''app'')]"]
  have "\<forall>n. prefix (dr_Prefix demo_driver @ '':'') n \<longrightarrow> members_of (w_primary w') n
      = wanted (dr_Prefix demo_driver) [\<lparr>ug_UserID = ''ann'', ug_GroupName = ''dev''\<rparr>] n"
    and "in_sync set (w_primary w') [permission_tuple (''g1'', ''app'')]"
    using sync unfolding run by simp_all
  with run pre want show ?thesis by metis
qed

theorem Sync_leaves_other_groups_alone_witness:
  "\<exists>r w' s'. importer_Sync (storage_ops quiet_env background) (Client ref_sdk) demo_driver length length
       (world_of demo_tables, []) = Some (r, (w', s')) \<and> members_of (w_primary w') ''100%'' = Some {''ann''}"
proof -
  have wf: "wf_world (world_of demo_tables)" "one_tenant (w_primary (world_of demo_tables))" by simp_all
  have pre: "\<not> prefix (dr_Prefix demo_driver @ '':'') ''100%''" by simp
  have "members_of demo_tables ''100%'' = Some {''ann''}"
    unfolding members_of_def group_view_def demo_facts(3) by (simp add: demo_tables_def)
  with Sync_leaves_other_groups_alone [OF ref_laws(1,4) wf pre, of quiet_env length length "[]"] show ?thesis
    unfolding members_of_def world_of_simps(1) by metis
qed

end
