(* ===== verification/Cli.thy ===== *)
theory Cli
  imports Importer Migrate
begin

text \<open>
  The administration commands (\<^verbatim>\<open>cmd/users.go\<close>, \<^verbatim>\<open>cmd/groups_cmd.go\<close>, \<^verbatim>\<open>cmd/import.go\<close>): they open the
  database of the flag \<open>--dsn\<close>, call one method of the storage layer (or run the importer) outside any transaction,
  and report in text or JSON. A command is a function of the flags and the state of the database; its result
  is the error it returns and what it wrote, or the end of the process in \<open>logger.Fatalf\<close>. Flags are parsed by
  cobra, the JSON writer and the form of a time stamp are parameters.
\<close>

section \<open>Storage of a command\<close>

datatype 'a started = Fatal | Fails error | Started 'a

text \<open>The configuration has a DSN and the sizes of the pool only; everything else has Go's zero value: no tracing, no replica,
  no bound on its lag, no lifetime of a connection.\<close>

definition command_db_config :: "string \<Rightarrow> db_Config" where
  "command_db_config dsn =
     \<lparr>dc_DSN = dsn, dc_MaxConns = 10, dc_MinConns = 1, dc_MaxConnLifetime = 0, dc_MaxConnIdleTime = 0, dc_TracingEnabled = False,
      dc_ReplicaDSN = [], dc_ReplicaMaxConns = 0, dc_ReplicaMinConns = 0, dc_ReplicaMaxConnLifetime = 0,
      dc_ReplicaMaxConnIdleTime = 0, dc_MaxReplicaLagMs = 0,
      dc_ReplicaPoolSizeMultiplier = \<lparr>fl_positive = False, fl_scale = (\<lambda>n. 0)\<rparr>\<rparr>"

definition newStorageFromCmd :: "boot_calls \<Rightarrow> string \<Rightarrow> world \<Rightarrow> world started" where
  "newStorageFromCmd calls dsn w =
     (if dsn = [] then Fails (ErrorNew ''--dsn is required'')
      else
        (case fst (NewDBClient (command_db_config dsn) calls calls) of
           BootFatal \<Rightarrow> Fatal
         | BootFail err \<Rightarrow> Fails (Errorf_v ''failed to connect to database'' err)
         | BootClient dbClient \<Rightarrow> Started (w\<lparr>w_db := dbClient\<rparr>)))"

record cli =
  cl_calls :: boot_calls
  cl_dsn :: string
  cl_format :: string
  cl_Encode :: "json \<Rightarrow> error option"
  cl_show_time :: "nat \<Rightarrow> string"

type_synonym cli_result = "(error option \<times> out_item list) option \<times> world"

definition with_storage :: "cli \<Rightarrow> (world \<Rightarrow> (error option \<times> out_item list) \<times> world) \<Rightarrow> world \<Rightarrow> cli_result" where
  "with_storage cl body w =
     (case newStorageFromCmd (cl_calls cl) (cl_dsn cl) w of
        Fatal \<Rightarrow> (None, w)
      | Fails err \<Rightarrow> (Some (Some err, []), w)
      | Started w0 \<Rightarrow> (case body w0 of (r, w1) \<Rightarrow> (Some r, w1)))"

definition newline :: string where "newline = [CHR 0x0A]"

text \<open>What a command prints when it has succeeded.\<close>

definition report :: "cli \<Rightarrow> json \<Rightarrow> out_item list \<Rightarrow> error option \<times> out_item list" where
  "report cl j text = (if cl_format cl = ''json'' then encode_json (cl_Encode cl) j else (None, text))"

section \<open>Users\<close>

definition runUsersDelete :: "cli \<Rightarrow> env \<Rightarrow> string \<Rightarrow> world \<Rightarrow> cli_result" where
  "runUsersDelete cl env userID =
     with_storage cl (\<lambda>w.
       case RemoveUserFromAllGroups env background userID w of
         (Inl err, w1) \<Rightarrow> ((Some (Errorf_v (''failed to delete user '' @ strconv_Quote userID) err), []), w1)
       | (Inr _, w1) \<Rightarrow>
           (report cl (JObject [(''status'', JString ''deleted''), (''user_id'', JString userID)])
              [OutText (''Deleted user '' @ userID @ '' from all groups'' @ newline)], w1))"

definition group_json :: "(nat \<Rightarrow> string) \<Rightarrow> Group \<Rightarrow> json" where
  "group_json show_time g =
     JObject [(''id'', JString (g_ID g)), (''name'', JString (g_Name g)), (''tenant'', JString (g_TenantId g)),
       (''description'', JString (g_Description g)), (''type'', GroupType_MarshalJSON (g_Type g)),
       (''created_at'', JString (show_time (g_CreatedAt g))), (''updated_at'', JString (show_time (g_UpdatedAt g)))]"

definition runUsersListGroups :: "cli \<Rightarrow> env \<Rightarrow> string \<Rightarrow> world \<Rightarrow> cli_result" where
  "runUsersListGroups cl env userID =
     with_storage cl (\<lambda>w.
       case GetGroupsForUser env background userID w of
         (Inl err, w1) \<Rightarrow> ((Some (Errorf_v (''failed to list groups for user '' @ strconv_Quote userID) err), []), w1)
       | (Inr groups, w1) \<Rightarrow>
           (report cl (JArray (map (group_json (cl_show_time cl)) groups))
              (map (\<lambda>g. OutText (g_Name g @ newline)) groups), w1))"

definition runUsersSetGroups :: "cli \<Rightarrow> env \<Rightarrow> string list \<Rightarrow> string \<Rightarrow> world \<Rightarrow> cli_result" where
  "runUsersSetGroups cl env groupIDs userID =
     with_storage cl (\<lambda>w.
       case UpdateGroupsForUser env background userID groupIDs w of
         (Inl err, w1) \<Rightarrow> ((Some (Errorf_v (''failed to set groups for user '' @ strconv_Quote userID) err), []), w1)
       | (Inr _, w1) \<Rightarrow>
           (report cl (JObject [(''groups'', JArray (map JString groupIDs)), (''user_id'', JString userID)])
              [OutText (''Updated groups for user '' @ userID @ newline)], w1))"

section \<open>Groups\<close>

definition runGroupsAddUsers :: "cli \<Rightarrow> env \<Rightarrow> string list \<Rightarrow> string \<Rightarrow> world \<Rightarrow> cli_result" where
  "runGroupsAddUsers cl env userIDs groupID =
     with_storage cl (\<lambda>w.
       case AddUsersToGroup env background groupID userIDs w of
         (Inl err, w1) \<Rightarrow> ((Some (Errorf_v (''failed to add users to group '' @ strconv_Quote groupID) err), []), w1)
       | (Inr _, w1) \<Rightarrow>
           (report cl (JObject [(''group_id'', JString groupID), (''users_added'', JNumber (decimal (length userIDs)))])
              [OutText (''Added '' @ decimal (length userIDs) @ '' users to group '' @ groupID @ newline)], w1))"

definition runGroupsRemoveUsers :: "cli \<Rightarrow> env \<Rightarrow> string list \<Rightarrow> string \<Rightarrow> world \<Rightarrow> cli_result" where
  "runGroupsRemoveUsers cl env userIDs groupID =
     with_storage cl (\<lambda>w.
       case RemoveUsersFromGroup env background groupID userIDs w of
         (Inl err, w1) \<Rightarrow> ((Some (Errorf_v (''failed to remove users from group '' @ strconv_Quote groupID) err), []), w1)
       | (Inr _, w1) \<Rightarrow>
           (report cl (JObject [(''group_id'', JString groupID), (''users_removed'', JNumber (decimal (length userIDs)))])
              [OutText (''Removed '' @ decimal (length userIDs) @ '' users from group '' @ groupID @ newline)], w1))"

definition runGroupsListUsers :: "cli \<Rightarrow> env \<Rightarrow> string \<Rightarrow> world \<Rightarrow> cli_result" where
  "runGroupsListUsers cl env groupID =
     with_storage cl (\<lambda>w.
       case ListUsersInGroup env background groupID w of
         (Inl err, w1) \<Rightarrow> ((Some (Errorf_v (''failed to list users in group '' @ strconv_Quote groupID) err), []), w1)
       | (Inr userIDs, w1) \<Rightarrow>
           (report cl (JArray (map JString userIDs)) (map (\<lambda>uid. OutText (uid @ newline)) userIDs), w1))"

text \<open>The exit code of a command: 1 for an error, printed by the \<open>Run\<close> closure, and for \<open>Fatalf\<close>.\<close>

definition exit_code :: "cli_result \<Rightarrow> nat" where
  "exit_code r = (case fst r of Some (None, out) \<Rightarrow> 0 | _ \<Rightarrow> 1)"

section \<open>Import\<close>

record import_flags =
  if_driver :: string
  if_dsn :: string
  if_domain :: string
  if_consumer_key :: string
  if_consumer_secret :: string
  if_sync :: bool
  if_openfga_host :: string
  if_openfga_store_id :: string
  if_openfga_token :: string
  if_openfga_model_id :: string

text \<open>\<open>None\<close> is the panic of \<open>openfga.NewClient\<close>.\<close>

definition buildAuthorizer :: "(Config \<Rightarrow> 's sdk res) \<Rightarrow> import_flags \<Rightarrow> 's authz_client option" where
  "buildAuthorizer NewSdkClient fl =
     (if if_openfga_host fl = [] then Some NoopClient
      else map_option Client (NewClient NewSdkClient
             (NewConfig [] (if_openfga_host fl) (if_openfga_store_id fl) (if_openfga_token fl) (if_openfga_model_id fl) False)))"

text \<open>\<open>Init\<close> is the constructor of the Salesforce library; \<open>salesforce.NewClient\<close> panics (\<open>Inr None\<close>) when
  it fails.\<close>

text \<open>The Salesforce library logs in with the credentials \<open>Init\<close> is given (domain, consumer key, consumer secret); a
  client is its \<open>Query\<close>. \<open>None\<close> is the panic of \<open>NewClient\<close>.\<close>

definition NewSalesforceClient :: "(string \<Rightarrow> string \<Rightarrow> string \<Rightarrow> 'q res) \<Rightarrow> string \<Rightarrow> string \<Rightarrow> string \<Rightarrow> 'q res" where
  "NewSalesforceClient Init domain consumerKey consumerSecret = Init domain consumerKey consumerSecret"

definition salesforce_NewClient :: "(string \<Rightarrow> string \<Rightarrow> string \<Rightarrow> 'q res) \<Rightarrow> string \<Rightarrow> string \<Rightarrow> string \<Rightarrow> 'q option" where
  "salesforce_NewClient Init domain consumerKey consumerSecret =
     (case NewSalesforceClient Init domain consumerKey consumerSecret of
        Inl err \<Rightarrow> None | Inr salesforceClient \<Rightarrow> Some salesforceClient)"

definition buildSalesforceDriver ::
  "(string \<Rightarrow> string \<Rightarrow> string \<Rightarrow> (string \<Rightarrow> TeamMemberRecord list res) res) \<Rightarrow> import_flags \<Rightarrow> driver option res" where
  "buildSalesforceDriver Init fl =
     (if if_domain fl = [] \<or> if_consumer_key fl = [] \<or> if_consumer_secret fl = []
      then Inl (ErrorNew ''salesforce driver requires --domain, --consumer-key, and --consumer-secret flags'')
      else (case salesforce_NewClient Init (if_domain fl) (if_consumer_key fl) (if_consumer_secret fl) of
              None \<Rightarrow> Inr None | Some sfClient \<Rightarrow> Inr (Some (SalesforceDriver sfClient))))"

datatype import_end = ImpFatal | ImpPanic | ImpHangs | ImpDone "error option"

definition error_of :: "unit res \<Rightarrow> error option" where
  "error_of r = (case r of Inl e \<Rightarrow> Some e | Inr _ \<Rightarrow> None)"

definition runImport ::
  "boot_calls \<Rightarrow> (string \<Rightarrow> string \<Rightarrow> string \<Rightarrow> (string \<Rightarrow> TeamMemberRecord list res) res) \<Rightarrow> (Config \<Rightarrow> 's sdk res) \<Rightarrow> env \<Rightarrow>
   (string \<Rightarrow> nat) \<Rightarrow> (string \<Rightarrow> nat) \<Rightarrow> import_flags \<Rightarrow> world \<times> 's \<Rightarrow> import_end \<times> (world \<times> 's)" where
  "runImport calls Init NewSdkClient env rank1 rank2 fl ws =
     (case fst (NewDBClient (command_db_config (if_dsn fl)) calls calls) of
        BootFatal \<Rightarrow> (ImpFatal, ws)
      | BootFail err \<Rightarrow> (ImpDone (Some (Errorf_v ''failed to connect to database'' err)), ws)
      | BootClient dbClient \<Rightarrow>
          let w0 = (fst ws)\<lparr>w_db := dbClient\<rparr>; s = storage_ops env background in
          if if_driver fl \<noteq> ''salesforce'' then
            (ImpDone (Some (ErrorNew (''unsupported driver: '' @ strconv_Quote (if_driver fl) @ '' (supported: salesforce)''))),
             (w0, snd ws))
          else
            (case buildSalesforceDriver Init fl of
               Inl err \<Rightarrow> (ImpDone (Some err), (w0, snd ws))
             | Inr None \<Rightarrow> (ImpPanic, (w0, snd ws))
             | Inr (Some importDriver) \<Rightarrow>
                 (case buildAuthorizer NewSdkClient fl of
                    None \<Rightarrow> (ImpPanic, (w0, snd ws))
                  | Some authz \<Rightarrow>
                      if if_sync fl then
                        (case importer_Sync s authz importDriver rank1 rank2 (w0, snd ws) of
                           None \<Rightarrow> (ImpHangs, (w0, snd ws))
                         | Some (r, ws1) \<Rightarrow> (ImpDone (error_of r), ws1))
                      else
                        (case importer_Run s importDriver rank1 w0 of
                           (r, w1) \<Rightarrow> (ImpDone (error_of r), (w1, snd ws))))))"

section \<open>What the commands do\<close>

lemma with_storage_cases:
  assumes "with_storage cl body w = (r, w')"
  obtains (not_started) "w' = w" "exit_code (r, w') = 1"
  | (started) d r0 where "body (w\<lparr>w_db := d\<rparr>) = (r0, w')" "r = Some r0"
  using assms
  by (auto simp: with_storage_def newStorageFromCmd_def exit_code_def
      split: started.splits boot.splits prod.splits if_splits)

lemma exit_code_Some [simp]:
  "exit_code (Some (Some e, out), w) = 1" "exit_code (Some (None, out), w) = 0"
  by (simp_all add: exit_code_def)

definition same_groups_and_permissions :: "tables \<Rightarrow> tables \<Rightarrow> bool" where
  "same_groups_and_permissions tb tb' \<longleftrightarrow> t_groups tb' = t_groups tb \<and> t_apps tb' = t_apps tb"

text \<open>A command that calls one operation on memberships and prints: what the operation does is what the command does.\<close>

lemma membership_command:
  assumes cmd: "with_storage cl (\<lambda>w. case op w of (Inl err, w1) \<Rightarrow> ((Some (f err), []), w1)
      | (Inr a, w1) \<Rightarrow> (report cl (j a) (out a), w1)) w = (r, w')"
    and effect: "\<And>w q w1. op w = (q, w1) \<Longrightarrow> same_groups_and_permissions (w_primary w) (w_primary w1)
      \<and> (is_ok q \<longrightarrow> memberships (w_primary w1) = F (memberships (w_primary w)))"
  shows "(exit_code (r, w') = 0 \<longrightarrow> memberships (w_primary w') = F (memberships (w_primary w)))
    \<and> same_groups_and_permissions (w_primary w) (w_primary w')"
  using cmd
proof (cases rule: with_storage_cases)
  case not_started
  then show ?thesis by (simp add: same_groups_and_permissions_def)
next
  case (started d r0)
  obtain q w1 where q: "op (w\<lparr>w_db := d\<rparr>) = (q, w1)" by fastforce
  from effect [OF q] started q show ?thesis by (cases q) auto
qed

lemma UpdateGroupsForUser_groups:
  assumes "UpdateGroupsForUser env background u gids w = (q, w1)"
  shows "same_groups_and_permissions (w_primary w) (w_primary w1)"
  using assms
proof (cases rule: UpdateGroupsForUser_cases)
  case del_failed
  from db_exec_Inl [OF _ del_failed(1)] show ?thesis by (simp add: same_groups_and_permissions_def)
next
  case (deleted x)
  from delete_members_exec [OF _ deleted(1)] show ?thesis by (simp add: same_groups_and_permissions_def)
next
  case (upsert x w2 y now)
  note D = delete_members_exec [OF _ upsert(1)]
  show ?thesis
  proof (cases y)
    case (Inl e)
    from db_exec_Inl [OF _ upsert(3) [unfolded Inl]] D show ?thesis by (simp add: same_groups_and_permissions_def)
  next
    case (Inr z)
    from upsert_members_exec [OF _ upsert(3) [unfolded Inr]] D show ?thesis by (simp add: same_groups_and_permissions_def)
  qed
qed

lemma UpdateGroupsForUser_membership:
  assumes "UpdateGroupsForUser env background u gids w = (q, w1)"
  shows "same_groups_and_permissions (w_primary w) (w_primary w1)
    \<and> (is_ok q \<longrightarrow> memberships (w_primary w1) = {(g, x) \<in> memberships (w_primary w). x \<noteq> u} \<union> set gids \<times> {u})"
proof (cases q)
  case (Inr v)
  with assms UpdateGroupsForUser_effect [of background env u gids w v w1] show ?thesis
    by (simp add: same_groups_and_permissions_def)
qed (use UpdateGroupsForUser_groups [OF assms] in simp)

lemma RemoveUserFromAllGroups_membership:
  assumes "RemoveUserFromAllGroups env background u w = (q, w1)"
  shows "same_groups_and_permissions (w_primary w) (w_primary w1)
    \<and> (is_ok q \<longrightarrow> memberships (w_primary w1) = {(g, x) \<in> memberships (w_primary w). x \<noteq> u})"
  using RemoveUserFromAllGroups_effect [OF _ assms] by (simp add: same_groups_and_permissions_def)

lemma AddUsersToGroup_membership:
  assumes "AddUsersToGroup env background gid us w = (q, w1)"
  shows "same_groups_and_permissions (w_primary w) (w_primary w1)
    \<and> (is_ok q \<longrightarrow> memberships (w_primary w1) = memberships (w_primary w) \<union> {gid} \<times> set us)"
  using AddUsersToGroup_effect [OF _ assms] by (simp add: same_groups_and_permissions_def)

lemma RemoveUsersFromGroup_membership:
  assumes "RemoveUsersFromGroup env background gid us w = (q, w1)"
  shows "same_groups_and_permissions (w_primary w) (w_primary w1)
    \<and> (is_ok q \<longrightarrow> memberships (w_primary w1) = memberships (w_primary w) - {gid} \<times> set us)"
  using RemoveUsersFromGroup_effect [OF _ assms] by (simp add: same_groups_and_permissions_def)

text \<open>What each command promises: when it exits with 0, the memberships are those its name says; whatever it exits with, it
  changes no group and no permission.\<close>

lemma runUsersDelete_effect:
  assumes "runUsersDelete cl env u w = (r, w')"
  shows "(exit_code (r, w') = 0 \<longrightarrow> memberships (w_primary w') = {(g, x) \<in> memberships (w_primary w). x \<noteq> u})
    \<and> same_groups_and_permissions (w_primary w) (w_primary w')"
  by (rule membership_command [OF assms [unfolded runUsersDelete_def], where F = "\<lambda>M. {(g, x) \<in> M. x \<noteq> u}",
        OF RemoveUserFromAllGroups_membership])

lemma runUsersSetGroups_effect:
  assumes "runUsersSetGroups cl env gids u w = (r, w')"
  shows "(exit_code (r, w') = 0 \<longrightarrow> memberships (w_primary w') = {(g, x) \<in> memberships (w_primary w). x \<noteq> u} \<union> set gids \<times> {u})
    \<and> same_groups_and_permissions (w_primary w) (w_primary w')"
  by (rule membership_command [OF assms [unfolded runUsersSetGroups_def], where F = "\<lambda>M. {(g, x) \<in> M. x \<noteq> u} \<union> set gids \<times> {u}",
        OF UpdateGroupsForUser_membership])

lemma runGroupsAddUsers_effect:
  assumes "runGroupsAddUsers cl env us gid w = (r, w')"
  shows "(exit_code (r, w') = 0 \<longrightarrow> memberships (w_primary w') = memberships (w_primary w) \<union> {gid} \<times> set us)
    \<and> same_groups_and_permissions (w_primary w) (w_primary w')"
  by (rule membership_command [OF assms [unfolded runGroupsAddUsers_def], where F = "\<lambda>M. M \<union> {gid} \<times> set us",
        OF AddUsersToGroup_membership])

lemma runGroupsRemoveUsers_effect:
  assumes "runGroupsRemoveUsers cl env us gid w = (r, w')"
  shows "(exit_code (r, w') = 0 \<longrightarrow> memberships (w_primary w') = memberships (w_primary w) - {gid} \<times> set us)
    \<and> same_groups_and_permissions (w_primary w) (w_primary w')"
  by (rule membership_command [OF assms [unfolded runGroupsRemoveUsers_def], where F = "\<lambda>M. M - {gid} \<times> set us",
        OF RemoveUsersFromGroup_membership])

text \<open>The commands that list something change nothing.\<close>

lemma runUsersListGroups_effect:
  assumes "runUsersListGroups cl env u w = (r, w')"
  shows "w_primary w' = w_primary w"
  using assms unfolding runUsersListGroups_def
proof (cases rule: with_storage_cases)
  case (started d r0)
  then show ?thesis
    by (auto simp: GetGroupsForUser_def split: prod.splits sum.splits dest: db_query_tables)
qed simp

lemma runGroupsListUsers_effect:
  assumes "runGroupsListUsers cl env gid w = (r, w')"
  shows "w_primary w' = w_primary w"
  using assms unfolding runGroupsListUsers_def
proof (cases rule: with_storage_cases)
  case (started d r0)
  then show ?thesis
    by (auto simp: ListUsersInGroup_def split: prod.splits sum.splits dest: db_query_tables)
qed simp

lemma UpdateGroupsForUser_missing_group:
  assumes wr: "writable c" "no_faults env" "live c w"
    and g: "gid \<in> set gids" "gid \<notin> default_groups (target c w)" "(gid, u) \<notin> memberships (target c w)"
  shows "\<exists>e w'. UpdateGroupsForUser env c u gids w = (Inl e, w')
    \<and> memberships (target c w') = {(h, x) \<in> memberships (target c w). x = u \<longrightarrow> h \<in> set gids}"
proof -
  obtain r w' where op: "UpdateGroupsForUser env c u gids w = (r, w')" by fastforce
  from op show ?thesis
  proof (cases rule: UpdateGroupsForUser_cases)
    case del_failed
    with delete_members_not_Inl [OF wr] show ?thesis by blast
  next
    case (deleted x)
    with g(1) show ?thesis by simp
  next
    case (upsert x w1 y now)
    let ?rows = "map (\<lambda>g. member_row now g u) (unique_keys env w gids)"
    note D = delete_members_exec [OF wr(1) upsert(1)]
    have M: "memberships (target c w1) = {(h, x) \<in> memberships (target c w). x = u \<longrightarrow> h \<in> set gids}"
      using D(1) upsert(2) by (auto simp: memberships_def member_key_def)
    have "distinct (map member_key ?rows)" by (simp add: comp_def distinct_map inj_on_def)
    moreover have "member_row now gid u \<in> set (fresh_members ?rows (target c w1))"
      using g(1,3) M by (auto simp: fresh_members_def memberships_def)
    moreover have "member_ref (member_row now gid u) \<notin> set (map group_key (t_groups (target c w1)))"
      using g(2) D(2) by (simp add: default_groups_key)
    ultimately have "sql_upsert_members ?rows (target c w1) = Inl foreign_key_violation" by (rule upsert_members_fk)
    with db_exec_no_faults [OF wr(1,2) db_exec_live [OF wr(1) upsert(1) wr(3)] upsert(3)]
    have y: "y = Inl foreign_key_violation" by simp
    from db_exec_Inl [OF wr(1) upsert(3) [unfolded y]] M op upsert(4) y show ?thesis by auto
  qed
qed

definition demo_cli :: cli where
  "demo_cli = \<lparr>cl_calls = \<lparr>bc_parse = None, bc_pool = (\<lambda>cfg. None), bc_stats = None, bc_ping = None\<rparr>, cl_dsn = ''postgres://db'',
     cl_format = ''text'', cl_Encode = (\<lambda>j. None), cl_show_time = (\<lambda>t. ''now'')\<rparr>"

lemma demo_cli_started:
  "newStorageFromCmd (cl_calls demo_cli) (cl_dsn demo_cli) w = Started (w\<lparr>w_db := new_client False 0\<rparr>)"
  "cl_format demo_cli \<noteq> ''json''"
  by (simp_all add: newStorageFromCmd_def NewDBClient_def start_replica_def command_db_config_def demo_cli_def)

lemma demo_set_groups:
  assumes "runUsersSetGroups demo_cli quiet_env [''g2''] ''ann'' (world_of demo_tables) = (r, w')"
  shows "exit_code (r, w') = 0"
proof -
  let ?begun = "(world_of demo_tables)\<lparr>w_db := new_client False 0\<rparr>"
  have "set [''g2''] \<subseteq> default_groups (target background ?begun)" by (simp add: demo_facts)
  from UpdateGroupsForUser_succeeds [OF writable_simps(1) quiet_env_simps(1) live_background this, of "''ann''"] obtain w1
    where "UpdateGroupsForUser quiet_env background ''ann'' [''g2''] ?begun = (Inr (), w1)" by blast
  with assms demo_cli_started show ?thesis by (auto simp: runUsersSetGroups_def with_storage_def report_def)
qed

text \<open>C39: \<open>users set-groups\<close> is not all or nothing. Given a group that does not exist, the command exits with 1,
  but outside a transaction the statement that removed the user's other memberships stands: only the ones the
  command was to keep are left.\<close>
theorem set_groups_loses_memberships:
  assumes up: "newStorageFromCmd (cl_calls cl) (cl_dsn cl) w = Started w0" and db: "no_faults env" "wf_world w"
    and gone: "gid \<in> set gids" "\<not> group_exists gid (w_primary w)"
  shows "\<exists>r w'. runUsersSetGroups cl env gids u w = (r, w') \<and> exit_code (r, w') = 1
    \<and> memberships (w_primary w') = {(g, x) \<in> memberships (w_primary w). x = u \<longrightarrow> g \<in> set gids}"
proof -
  obtain d where w0: "w0 = w\<lparr>w_db := d\<rparr>"
    using up by (auto simp: newStorageFromCmd_def split: if_splits boot.splits)
  from db(2) have wf: "wf_tables (w_primary w)" by (simp add: wf_world_def)
  obtain q w' where op: "UpdateGroupsForUser env background u gids w0 = (q, w')" by fastforce
  from missing_group_no_members [OF wf gone(2)] have none: "gid \<notin> default_groups (target background w0)"
      "(gid, u) \<notin> memberships (target background w0)" by (simp_all add: w0)
  from UpdateGroupsForUser_missing_group [OF writable_simps(1) db(1) live_background gone(1) none] op
  have q: "isl q" and m: "memberships (w_primary w') = {(g, x) \<in> memberships (w_primary w). x = u \<longrightarrow> g \<in> set gids}"
    by (auto simp: w0)
  from q obtain e where "q = Inl e" by (cases q) auto
  with op up m show ?thesis by (auto simp: runUsersSetGroups_def with_storage_def)
qed

theorem set_groups_loses_memberships_witness:
  "\<exists>r w'. runUsersSetGroups demo_cli quiet_env [''g3''] ''ann'' (world_of demo_tables) = (r, w')
     \<and> exit_code (r, w') = 1 \<and> memberships (w_primary w') = {}"
proof -
  have g3: "''g3'' \<in> set [''g3'']" "\<not> group_exists ''g3'' (w_primary (world_of demo_tables))"
    by (simp_all add: group_exists_def demo_tables_def)
  have wf: "wf_world (world_of demo_tables)" by simp
  have "{(g, x) \<in> memberships (w_primary (world_of demo_tables)). x = ''ann'' \<longrightarrow> g \<in> set [''g3'']} = {}" by auto
  with set_groups_loses_memberships [OF demo_cli_started(1) quiet_env_simps(1) wf g3, of "''ann''"] show ?thesis by (simp only:)
qed

text \<open>An import that is told where OpenFGA is cannot run. \<open>buildAuthorizer\<close> passes an empty scheme, which
  the configuration does not accept, so \<open>NewClient\<close> is called without a configuration and panics: with
  \<open>--openfga-host\<close> the command never imports or reconciles anything, whatever the other flags are.\<close>
theorem import_with_openfga_panics:
  assumes host: "if_openfga_host fl \<noteq> []"
    and run: "runImport calls Init NewSdkClient env rank1 rank2 fl (w, s) = (end_state, (w', s'))"
  shows "w_primary w' = w_primary w \<and> s' = s \<and> end_state \<noteq> ImpDone None
    \<and> (bc_parse calls = None \<and> bc_pool calls (primary_pool_config (command_db_config (if_dsn fl))) = None \<and> bc_ping calls = None \<and> if_driver fl = ''salesforce''
         \<and> if_domain fl \<noteq> [] \<and> if_consumer_key fl \<noteq> [] \<and> if_consumer_secret fl \<noteq> [] \<longrightarrow> end_state = ImpPanic)"
proof -
  have "buildAuthorizer NewSdkClient fl = None"
    using host by (simp add: buildAuthorizer_def NewConfig_def NewClient_def)
  with run show ?thesis
    by (auto simp: runImport_def NewDBClient_def command_db_config_def buildSalesforceDriver_def Let_def
        split: boot.splits if_splits sum.splits option.splits prod.splits)
qed

definition demo_import :: import_flags where
  "demo_import = \<lparr>if_driver = ''salesforce'', if_dsn = ''postgres://db'', if_domain = ''d'', if_consumer_key = ''k'',
     if_consumer_secret = ''s'', if_sync = True, if_openfga_host = ''openfga'', if_openfga_store_id = ''store'',
     if_openfga_token = ''token'', if_openfga_model_id = ''model''\<rparr>"

theorem import_with_openfga_panics_witness:
  "\<exists>w' s'. runImport (cl_calls demo_cli) (\<lambda>d k s. Inr (\<lambda>q. Inr [])) (\<lambda>cfg. Inr ref_sdk) quiet_env length length demo_import
     (world_of demo_tables, []) = (ImpPanic, (w', s')) \<and> w_primary w' = demo_tables"
proof -
  obtain e w' s' where run: "runImport (cl_calls demo_cli) (\<lambda>d k s. Inr (\<lambda>q. Inr [])) (\<lambda>cfg. Inr ref_sdk) quiet_env length length demo_import
     (world_of demo_tables, []) = (e, (w', s'))" by (metis prod.exhaust)
  have "if_openfga_host demo_import \<noteq> []" by (simp add: demo_import_def)
  from import_with_openfga_panics [OF this run] run show ?thesis by (simp add: demo_cli_def demo_import_def)
qed

end
