(* ===== verification/Lifecycle.thy ===== *)
theory Lifecycle
  imports Serve Cli
begin

text \<open>
  What the processes open and close: the connection pools and handles of the database client
  (\<^verbatim>\<open>internal/db/storage.go\<close>, \<open>NewDBClient\<close> and \<open>Close\<close>), the connection to the tenant service, the worker pool and
  the deferred calls of \<^verbatim>\<open>cmd/serve.go\<close> and of the commands. A trace of these events is replayed on a stack: a
  resource is released only as the last one acquired, so what depends on a resource is gone before it.
\<close>

section \<open>Replay of a trace\<close>

datatype resource = RPool db_role | RDB db_role | RLagMonitor | RTenantConn | RWorkers

primrec db_acquires :: "db_op \<Rightarrow> resource option" where
  "db_acquires (OpensPool r c) = Some (RPool r)"
| "db_acquires (OpensDB r) = Some (RDB r)"
| "db_acquires StartsLagMonitor = Some RLagMonitor"
| "db_acquires CancelsLagMonitor = None"
| "db_acquires (ClosesDB r) = None"
| "db_acquires (ClosesPool r) = None"

primrec db_releases :: "db_op \<Rightarrow> resource option" where
  "db_releases (OpensPool r c) = None"
| "db_releases (OpensDB r) = None"
| "db_releases StartsLagMonitor = None"
| "db_releases CancelsLagMonitor = Some RLagMonitor"
| "db_releases (ClosesDB r) = Some (RDB r)"
| "db_releases (ClosesPool r) = Some (RPool r)"

primrec acquires :: "serve_op \<Rightarrow> resource option" where
  "acquires (DbOp a) = db_acquires a"
| "acquires OpensTenantConn = Some RTenantConn"
| "acquires ClosesTenantConn = None"
| "acquires StartsPool = Some RWorkers"
| "acquires StopsPool = None"
| "acquires SyncsLogger = None"

primrec releases :: "serve_op \<Rightarrow> resource option" where
  "releases (DbOp a) = db_releases a"
| "releases OpensTenantConn = None"
| "releases ClosesTenantConn = Some RTenantConn"
| "releases StartsPool = None"
| "releases StopsPool = Some RWorkers"
| "releases SyncsLogger = None"

text \<open>\<open>None\<close>: a resource is acquired while it is held, or released when it is not the last one acquired.\<close>

fun replay :: "serve_op list \<Rightarrow> resource list \<Rightarrow> resource list option" where
  "replay [] held = Some held"
| "replay (a # as) held =
     (case acquires a of
        Some r \<Rightarrow> if r \<in> set held then None else replay as (r # held)
      | None \<Rightarrow>
          (case releases a of
             None \<Rightarrow> replay as held
           | Some r \<Rightarrow> (case held of h # rest \<Rightarrow> if h = r then replay as rest else None | [] \<Rightarrow> None)))"

lemma replay_append: "replay (as @ bs) held = (case replay as held of None \<Rightarrow> None | Some h \<Rightarrow> replay bs h)"
  by (induction as held rule: replay.induct) (auto split: option.splits list.splits)

section \<open>The database client\<close>

text \<open>What a client holds, last acquired first.\<close>

definition db_holds :: "bool \<Rightarrow> resource list" where
  "db_holds hasReplica = (if hasReplica then [RLagMonitor, RDB Replica, RPool Replica] else []) @ [RDB Primary, RPool Primary]"

lemma NewDBClient_replay:
  assumes "NewDBClient cfg prim repl = (b, ops)"
  shows "case b of
      BootClient d \<Rightarrow> replay (map DbOp ops) [] = Some (db_holds (db_hasReplica d))
    | BootFatal \<Rightarrow> ops = []
    | BootFail e \<Rightarrow> replay (map DbOp ops) [] = Some
        (if bc_pool prim (primary_pool_config cfg) \<noteq> None then []
         else if dc_TracingEnabled cfg \<and> bc_stats prim \<noteq> None then [RPool Primary] else [RDB Primary, RPool Primary])"
  using assms
  by (auto simp: NewDBClient_def start_replica_def new_client_def db_holds_def Let_def split: option.splits if_splits)

lemma Close_replay: "replay (map DbOp (DBClient_Close d)) (db_holds (db_hasReplica d)) = Some []"
  by (simp add: DBClient_Close_def db_holds_def)

section \<open>The commands\<close>

text \<open>\<open>cleanup\<close> of \<open>newStorageFromCmd\<close> is deferred by every command that got a storage; \<open>runImport\<close> defers the two calls
  itself, the second one before it opens the database. Both run before the process exits with the command's code.\<close>

definition cleanup :: "DBClient \<Rightarrow> serve_op list" where
  "cleanup dbClient = map DbOp (DBClient_Close dbClient) @ [SyncsLogger]"

definition storage_trace :: "boot_calls \<Rightarrow> string \<Rightarrow> serve_op list" where
  "storage_trace bc dsn =
     (if dsn = [] then []
      else
        (case NewDBClient (command_db_config dsn) bc bc of
           (BootClient dbClient, ops) \<Rightarrow> map DbOp ops @ cleanup dbClient
         | (_, ops) \<Rightarrow> map DbOp ops))"

definition import_trace :: "boot_calls \<Rightarrow> string \<Rightarrow> serve_op list" where
  "import_trace bc dsn =
     (case NewDBClient (command_db_config dsn) bc bc of
        (BootClient dbClient, ops) \<Rightarrow> map DbOp ops @ map DbOp (DBClient_Close dbClient) @ [SyncsLogger]
      | (BootFail err, ops) \<Rightarrow> map DbOp ops @ [SyncsLogger]
      | (BootFatal, ops) \<Rightarrow> map DbOp ops)"

section \<open>Properties\<close>

text \<open>The resources held at a point of \<open>serve\<close>, and that the calls deferred so far release exactly them.\<close>

definition holding :: "serve_log \<Rightarrow> resource list \<Rightarrow> bool" where
  "holding l held \<longleftrightarrow> replay (sl_trace l) [] = Some held \<and> replay (sl_deferred l) held = Some []
     \<and> sl_deferred l \<noteq> [] \<and> last (sl_deferred l) = SyncsLogger"

lemma holding_deferring:
  assumes "holding l held" "replay ops held = Some held'" "replay clean held' = Some held"
  shows "holding (deferring ops clean l) held'"
  using assms by (auto simp: holding_def deferring_def replay_append)

lemma holding_released:
  assumes "holding l held" "r \<noteq> ServeFatal"
  shows "replay (serve_trace r l) [] = Some [] \<and> last (serve_trace r l) = SyncsLogger"
  using assms by (auto simp: holding_def serve_trace_def replay_append split: serve_start.splits)

lemma serve_boot_holding:
  assumes boot: "serve_boot d (Inr specs) s = (r, s', l)"
    and db: "NewDBClient (serve_db_config specs) (sv_primary d) (sv_replica d) = (BootClient dbc, ops)"
  shows "r \<noteq> ServeFatal \<and> (\<exists>held. holding l held)"
proof -
  let ?l1 = "deferring (map DbOp ops) (map DbOp (DBClient_Close dbc)) \<lparr>sl_trace = [], sl_deferred = [SyncsLogger]\<rparr>"
  let ?l2 = "if es_TenantServiceGRPCAddress specs \<noteq> [] then deferring [OpensTenantConn] [ClosesTenantConn] ?l1 else ?l1"
  let ?h1 = "db_holds (db_hasReplica dbc)"
  let ?h2 = "if es_TenantServiceGRPCAddress specs \<noteq> [] then RTenantConn # ?h1 else ?h1"
  have "holding \<lparr>sl_trace = [], sl_deferred = [SyncsLogger]\<rparr> []" by (simp add: holding_def)
  then have h1: "holding ?l1 ?h1"
    by (rule holding_deferring) (use NewDBClient_replay [OF db] Close_replay in simp_all)
  have h2: "holding ?l2 ?h2"
    using h1 holding_deferring [OF h1, of "[OpensTenantConn]" "RTenantConn # ?h1" "[ClosesTenantConn]"] by (simp add: db_holds_def)
  have h3: "holding (deferring [StartsPool] [StopsPool] ?l2) (RWorkers # ?h2)"
    by (rule holding_deferring [OF h2]) (simp_all add: db_holds_def)
  from boot db h1 h2 h3 show ?thesis
    by (fastforce simp: serve_boot_def Let_def split: prod.splits option.splits sum.splits)
qed


text \<open>Sizes and times of the pools: whatever the configuration, the replica's pool has between one connection and the largest of
  an \<open>int32\<close>, and the jitter of the lifetimes is a tenth of them, cut towards zero.\<close>

lemma sdiv_ten:
  fixes t :: int
  shows "10 * \<bar>t sdiv 10\<bar> \<le> \<bar>t\<bar>" "\<bar>t\<bar> < 10 * \<bar>t sdiv 10\<bar> + 10"
  by (simp_all add: signed_divide_int_def abs_mult) presburger+

lemma pool_settings_bounded:
  assumes "dc_MaxConns cfg < 2 ^ 31" "dc_ReplicaMaxConns cfg < 2 ^ 31"
    and "\<And>n. fl_scale (dc_ReplicaPoolSizeMultiplier cfg) n < 2 ^ 31"
  shows "1 \<le> pc_MaxConns (replica_pool_config cfg) \<and> pc_MaxConns (replica_pool_config cfg) < 2 ^ 31
    \<and> 10 * \<bar>pc_MaxConnLifetimeJitter (replica_pool_config cfg)\<bar> \<le> \<bar>dc_ReplicaMaxConnLifetime cfg\<bar>
    \<and> 10 * \<bar>pc_MaxConnLifetimeJitter (primary_pool_config cfg)\<bar> \<le> \<bar>dc_MaxConnLifetime cfg\<bar>"
  using assms sdiv_ten(1) by (auto simp: replica_pool_config_def primary_pool_config_def replicaMaxConns_def Let_def)

end
