(* ===== verification/Commands.thy ===== *)
theory Commands
  imports Serve Cli
begin

text \<open>
  The command line (\<^verbatim>\<open>main.go\<close>, \<^verbatim>\<open>cmd/root.go\<close>, \<^verbatim>\<open>cmd/version.go\<close> and the command variables and \<open>init\<close> functions of
  \<^verbatim>\<open>cmd\<close>): the tree of commands with their argument checks, their flags and the functions they run, and the process as a
  function of its arguments. Finding the command in the arguments and parsing the flags is the work of the cobra library,
  a parameter; what the program relies on is the predicate \<open>cobra_law\<close>.
\<close>

section \<open>Commands\<close>

text \<open>What the flags of an invocation are set to, and which of them were given by the user.\<close>

record flag_values =
  fv_string :: "string \<Rightarrow> string"
  fv_bool :: "string \<Rightarrow> bool"
  fv_slice :: "string \<Rightarrow> string list"
  fv_given :: "string \<Rightarrow> bool"

datatype flag = StringFlag string string string | BoolFlag string string bool | SliceFlag string string

datatype finish = Exits nat "out_item list" | Crashes | Hangs | Serving

record 'm command =
  cm_Use :: string
  cm_Args :: "(string list \<Rightarrow> error option) option"
  cm_flags :: "flag list"
  cm_required :: "string list"
  cm_Run :: "(flag_values \<Rightarrow> string list \<Rightarrow> 'm \<Rightarrow> finish \<times> 'm) option"

datatype 'm tree = Node "'m command" "'m tree list"

definition AddCommand :: "'m tree \<Rightarrow> 'm tree \<Rightarrow> 'm tree" where
  "AddCommand t sub = (case t of Node c subs \<Rightarrow> Node c (subs @ [sub]))"

definition MarkFlagRequired :: "string \<Rightarrow> 'm command \<Rightarrow> 'm command" where
  "MarkFlagRequired f c = c\<lparr>cm_required := cm_required c @ [f]\<rparr>"

definition add_flag :: "flag \<Rightarrow> 'm command \<Rightarrow> 'm command" where
  "add_flag f c = c\<lparr>cm_flags := cm_flags c @ [f]\<rparr>"

text \<open>The name of a command is the first word of its usage line.\<close>

definition cmd_name :: "'m tree \<Rightarrow> string" where
  "cmd_name t = (case t of Node c subs \<Rightarrow> takeWhile (\<lambda>x. x \<noteq> CHR '' '') (cm_Use c))"

fun find_cmd :: "'m tree \<Rightarrow> string list \<Rightarrow> 'm command option" where
  "find_cmd (Node c subs) [] = Some c"
| "find_cmd (Node c subs) (n # ns) =
     (case find (\<lambda>t. cmd_name t = n) subs of None \<Rightarrow> None | Some t \<Rightarrow> find_cmd t ns)"

section \<open>The program's commands\<close>

text \<open>What the commands act on: the database, OpenFGA and the schema's version.\<close>

record ('s, 'g) machine =
  mc_world :: world
  mc_fga :: 's
  mc_goose :: 'g

text \<open>Everything outside the repository that they call, as in the theories of the single commands. \<open>cd_group\<close> is where
  the tasks of a server that was started have got to, \<open>cd_served\<close> what the requests it answered did.\<close>

record ('s, 't, 'tok, 'p, 'g) cmd_deps =
  cd_ExactArgs :: "nat \<Rightarrow> string list \<Rightarrow> error option"
  cd_RangeArgs :: "nat \<Rightarrow> nat \<Rightarrow> string list \<Rightarrow> error option"
  cd_calls :: boot_calls
  cd_env :: env
  cd_Encode :: "json \<Rightarrow> error option"
  cd_show_time :: "nat \<Rightarrow> string"
  cd_rank1 :: "string \<Rightarrow> nat"
  cd_rank2 :: "string \<Rightarrow> nat"
  cd_Init :: "string \<Rightarrow> string \<Rightarrow> string \<Rightarrow> (string \<Rightarrow> TeamMemberRecord list res) res"
  cd_url_Parse :: "string \<Rightarrow> (string \<times> string) res"
  cd_SetStoreId :: "string \<Rightarrow> 's \<Rightarrow> 's"
  cd_migrate :: "'g migrate_deps"
  cd_serve :: "('s, 't, 'tok, 'p) serve_deps"
  cd_environment :: "EnvSpec res"
  cd_group :: group_state
  cd_served :: "('s, 'g) machine \<Rightarrow> ('s, 'g) machine"

definition cli_of :: "('s, 't, 'tok, 'p, 'g) cmd_deps \<Rightarrow> flag_values \<Rightarrow> cli" where
  "cli_of d fl = \<lparr>cl_calls = cd_calls d, cl_dsn = fv_string fl ''dsn'', cl_format = fv_string fl ''format'',
     cl_Encode = cd_Encode d, cl_show_time = cd_show_time d\<rparr>"

text \<open>The closures of the membership commands: an error is printed to the standard error stream and ends the process with 1;
  \<open>args[0]\<close> panics when there is no argument. \<open>Fatalf\<close> of the logger also ends it with 1.\<close>

definition run_storage_cmd ::
  "(string \<Rightarrow> world \<Rightarrow> cli_result) \<Rightarrow> string list \<Rightarrow> ('s, 'g) machine \<Rightarrow> finish \<times> ('s, 'g) machine" where
  "run_storage_cmd run args m =
     (case args of
        [] \<Rightarrow> (Crashes, m)
      | a # _ \<Rightarrow>
          (case run a (mc_world m) of
             (Some (Some err, out), w1) \<Rightarrow> (Exits 1 out, m\<lparr>mc_world := w1\<rparr>)
           | (Some (None, out), w1) \<Rightarrow> (Exits 0 out, m\<lparr>mc_world := w1\<rparr>)
           | (None, w1) \<Rightarrow> (Exits 1 [], m\<lparr>mc_world := w1\<rparr>)))"

definition storage_command ::
  "string \<Rightarrow> ('s, 't, 'tok, 'p, 'g) cmd_deps \<Rightarrow> (flag_values \<Rightarrow> string \<Rightarrow> world \<Rightarrow> cli_result) \<Rightarrow> ('s, 'g) machine command" where
  "storage_command use d run =
     \<lparr>cm_Use = use, cm_Args = Some (cd_ExactArgs d 1), cm_flags = [], cm_required = [],
      cm_Run = Some (\<lambda>fl args m. run_storage_cmd (run fl) args m)\<rparr>"

definition storage_flags :: "'m command \<Rightarrow> 'm command" where
  "storage_flags sub =
     MarkFlagRequired ''dsn'' (add_flag (StringFlag ''format'' ''f'' ''text'') (add_flag (StringFlag ''dsn'' [] []) sub))"

subsection \<open>users\<close>

definition usersDeleteCmd where
  "usersDeleteCmd d = storage_command ''delete <user-id>'' d (\<lambda>fl. runUsersDelete (cli_of d fl) (cd_env d))"

definition usersListGroupsCmd where
  "usersListGroupsCmd d = storage_command ''list-groups <user-id>'' d (\<lambda>fl. runUsersListGroups (cli_of d fl) (cd_env d))"

definition usersSetGroupsCmd where
  "usersSetGroupsCmd d =
     storage_command ''set-groups <user-id>'' d (\<lambda>fl. runUsersSetGroups (cli_of d fl) (cd_env d) (fv_slice fl ''group''))"

definition parent_command :: "string \<Rightarrow> 'm command" where
  "parent_command use = \<lparr>cm_Use = use, cm_Args = None, cm_flags = [], cm_required = [], cm_Run = None\<rparr>"

text \<open>The \<open>init\<close> functions: what each adds to the root command.\<close>

definition init_users :: "('s, 't, 'tok, 'p, 'g) cmd_deps \<Rightarrow> ('s, 'g) machine tree \<Rightarrow> ('s, 'g) machine tree" where
  "init_users d rootCmd =
     (let del = storage_flags (usersDeleteCmd d);
          list = storage_flags (usersListGroupsCmd d);
          set0 = storage_flags (usersSetGroupsCmd d);
          set1 = MarkFlagRequired ''group'' (add_flag (SliceFlag ''group'' ''g'') set0);
          usersCmd = Node (parent_command ''users'') [];
          users1 = AddCommand usersCmd (Node del []);
          users2 = AddCommand users1 (Node list []);
          users3 = AddCommand users2 (Node set1 []) in
      AddCommand rootCmd users3)"

subsection \<open>groups\<close>

definition groupsAddUsersCmd where
  "groupsAddUsersCmd d =
     storage_command ''add-users <group-id>'' d (\<lambda>fl. runGroupsAddUsers (cli_of d fl) (cd_env d) (fv_slice fl ''user''))"

definition groupsRemoveUsersCmd where
  "groupsRemoveUsersCmd d =
     storage_command ''remove-users <group-id>'' d (\<lambda>fl. runGroupsRemoveUsers (cli_of d fl) (cd_env d) (fv_slice fl ''user''))"

definition groupsListUsersCmd where
  "groupsListUsersCmd d = storage_command ''list-users <group-id>'' d (\<lambda>fl. runGroupsListUsers (cli_of d fl) (cd_env d))"

definition init_groups :: "('s, 't, 'tok, 'p, 'g) cmd_deps \<Rightarrow> ('s, 'g) machine tree \<Rightarrow> ('s, 'g) machine tree" where
  "init_groups d rootCmd =
     (let add0 = storage_flags (groupsAddUsersCmd d);
          rem0 = storage_flags (groupsRemoveUsersCmd d);
          list = storage_flags (groupsListUsersCmd d);
          add1 = MarkFlagRequired ''user'' (add_flag (SliceFlag ''user'' ''u'') add0);
          rem1 = add_flag (SliceFlag ''user'' ''u'') rem0;
          groupsCmd = Node (parent_command ''groups'') [];
          groups1 = AddCommand groupsCmd (Node add1 []);
          groups2 = AddCommand groups1 (Node rem1 []);
          groups3 = AddCommand groups2 (Node list []) in
      AddCommand rootCmd groups3)"

subsection \<open>import\<close>

definition import_flags_of :: "flag_values \<Rightarrow> import_flags" where
  "import_flags_of fl =
     \<lparr>if_driver = fv_string fl ''driver'', if_dsn = fv_string fl ''dsn'', if_domain = fv_string fl ''domain'',
      if_consumer_key = fv_string fl ''consumer-key'', if_consumer_secret = fv_string fl ''consumer-secret'',
      if_sync = fv_bool fl ''sync'', if_openfga_host = fv_string fl ''openfga-host'',
      if_openfga_store_id = fv_string fl ''openfga-store-id'', if_openfga_token = fv_string fl ''openfga-token'',
      if_openfga_model_id = fv_string fl ''openfga-model-id''\<rparr>"

definition importCmd :: "('s, 't, 'tok, 'p, 'g) cmd_deps \<Rightarrow> ('s, 'g) machine command" where
  "importCmd d =
     \<lparr>cm_Use = ''import'', cm_Args = None, cm_flags = [], cm_required = [],
      cm_Run = Some (\<lambda>fl args m.
        case runImport (cd_calls d) (cd_Init d) (sv_NewSdkClient (cd_serve d)) (cd_env d) (cd_rank1 d) (cd_rank2 d)
               (import_flags_of fl) (mc_world m, mc_fga m) of
          (e, (w1, s1)) \<Rightarrow>
            (case e of ImpFatal \<Rightarrow> Exits 1 [] | ImpPanic \<Rightarrow> Crashes | ImpHangs \<Rightarrow> Hangs
               | ImpDone (Some err) \<Rightarrow> Exits 1 [] | ImpDone None \<Rightarrow> Exits 0 [],
             m\<lparr>mc_world := w1, mc_fga := s1\<rparr>))\<rparr>"

definition init_import :: "('s, 't, 'tok, 'p, 'g) cmd_deps \<Rightarrow> ('s, 'g) machine tree \<Rightarrow> ('s, 'g) machine tree" where
  "init_import d rootCmd =
     (let flags = [StringFlag ''driver'' [] [], StringFlag ''dsn'' [] [], StringFlag ''domain'' [] [],
            StringFlag ''consumer-key'' [] [], StringFlag ''consumer-secret'' [] [], BoolFlag ''sync'' [] False,
            StringFlag ''openfga-host'' [] [], StringFlag ''openfga-store-id'' [] [], StringFlag ''openfga-token'' [] [],
            StringFlag ''openfga-model-id'' [] []];
          required = [''driver'', ''dsn'', ''domain'', ''consumer-key'', ''consumer-secret''] in
      AddCommand rootCmd (Node (fold MarkFlagRequired required (fold add_flag flags (importCmd d))) []))"

subsection \<open>migrate\<close>

definition migrate_command :: "('s, 't, 'tok, 'p, 'g) cmd_deps \<Rightarrow> ('s, 'g) machine command" where
  "migrate_command d =
     \<lparr>cm_Use = ''migrate'', cm_Args = Some (customValidArgs (cd_RangeArgs d)), cm_flags = [], cm_required = [],
      cm_Run = Some (\<lambda>fl args m.
        case runMigrate (cd_migrate d) args (fv_string fl ''dsn'') (fv_string fl ''format'') (mc_goose m) of
          ((code, out), g1) \<Rightarrow> (Exits code out, m\<lparr>mc_goose := g1\<rparr>))\<rparr>"

definition init_migrate :: "('s, 't, 'tok, 'p, 'g) cmd_deps \<Rightarrow> ('s, 'g) machine tree \<Rightarrow> ('s, 'g) machine tree" where
  "init_migrate d rootCmd = AddCommand rootCmd (Node (storage_flags (migrate_command d)) [])"

subsection \<open>create-fga-model\<close>

definition create_command :: "('s, 't, 'tok, 'p, 'g) cmd_deps \<Rightarrow> ('s, 'g) machine command" where
  "create_command d =
     \<lparr>cm_Use = ''create-fga-model'', cm_Args = None, cm_flags = [], cm_required = [],
      cm_Run = Some (\<lambda>fl args m.
        case createFgaModelCmd (cd_url_Parse d) (sv_NewSdkClient (cd_serve d)) (cd_SetStoreId d) (v0_model (sv_dsl (cd_serve d)))
               (cd_Encode d) (fv_string fl ''fga-api-url'') (fv_string fl ''fga-api-token'') (fv_string fl ''fga-store-id'')
               (fv_string fl ''format'') (fv_bool fl ''verbose'') (mc_fga m) of
          (None, s1) \<Rightarrow> (Crashes, m\<lparr>mc_fga := s1\<rparr>)
        | (Some (code, out), s1) \<Rightarrow> (Exits code out, m\<lparr>mc_fga := s1\<rparr>))\<rparr>"

definition init_create :: "('s, 't, 'tok, 'p, 'g) cmd_deps \<Rightarrow> ('s, 'g) machine tree \<Rightarrow> ('s, 'g) machine tree" where
  "init_create d rootCmd =
     (let flags = [StringFlag ''fga-api-url'' [] [], StringFlag ''fga-api-token'' [] [], StringFlag ''fga-store-id'' [] [],
            StringFlag ''format'' [] ''text'', BoolFlag ''verbose'' ''v'' False] in
      AddCommand rootCmd
        (Node (MarkFlagRequired ''fga-api-token'' (MarkFlagRequired ''fga-api-url'' (fold add_flag flags (create_command d)))) []))"

subsection \<open>version and serve\<close>

definition versionCmd :: "'m command" where
  "versionCmd =
     \<lparr>cm_Use = ''version'', cm_Args = None, cm_flags = [], cm_required = [],
      cm_Run = Some (\<lambda>fl args m. (Exits 0 [OutText (''App Version: '' @ Version @ [CHR 0x0A])], m))\<rparr>"

definition init_version :: "'m tree \<Rightarrow> 'm tree" where
  "init_version rootCmd = AddCommand rootCmd (Node versionCmd [])"

text \<open>\<open>main\<close> of the package \<open>cmd\<close>: \<open>serve\<close>, and 1 when it returns an error. Until the tasks have ended the
  process is serving.\<close>

definition serve_exit :: "Logger \<Rightarrow> 'a serve_start \<Rightarrow> group_state \<Rightarrow> finish" where
  "serve_exit lg r st =
     (case r of
        ServePanics \<Rightarrow> Crashes
      | ServeFatal \<Rightarrow> Exits 1 []
      | ServeError err \<Rightarrow> Exits (serve_main (Some err)) []
      | ServeRuns rs \<Rightarrow> (case serve_end lg st of None \<Rightarrow> Serving | Some (err, lg') \<Rightarrow> Exits (serve_main err) []))"

definition serveCmd :: "('s, 't, 'tok, 'p, 'g) cmd_deps \<Rightarrow> ('s, 'g) machine command" where
  "serveCmd d =
     \<lparr>cm_Use = ''serve'', cm_Args = None, cm_flags = [], cm_required = [],
      cm_Run = Some (\<lambda>fl args m.
        case serve_boot (cd_serve d) (cd_environment d) (mc_fga m) :: ('s, 't, unit) service serve_start \<times> 's \<times> serve_log of
          (r, s1, l) \<Rightarrow>
            (serve_exit (NewLogger (case cd_environment d of Inr specs \<Rightarrow> es_LogLevel specs | Inl e \<Rightarrow> [])) r (cd_group d),
             case r of ServeRuns rs \<Rightarrow> cd_served d (m\<lparr>mc_fga := s1\<rparr>) | _ \<Rightarrow> m\<lparr>mc_fga := s1\<rparr>))\<rparr>"

definition init_serve :: "('s, 't, 'tok, 'p, 'g) cmd_deps \<Rightarrow> ('s, 'g) machine tree \<Rightarrow> ('s, 'g) machine tree" where
  "init_serve d rootCmd = AddCommand rootCmd (Node (serveCmd d) [])"

section \<open>The process\<close>

text \<open>The \<open>init\<close> functions run in the order of the file names.\<close>

definition rootCmd :: "('s, 't, 'tok, 'p, 'g) cmd_deps \<Rightarrow> ('s, 'g) machine tree" where
  "rootCmd d =
     init_version (init_users d (init_serve d (init_migrate d (init_import d (init_groups d (init_create d
       (Node (parent_command []) [])))))))"

text \<open>What cobra makes of the arguments: the command to run with its flags and arguments, a help text, or an error.\<close>

datatype invocation = Invoke "string list" flag_values "string list" | PrintsHelp | UsageError error

definition Execute ::
  "('s, 't, 'tok, 'p, 'g) cmd_deps \<Rightarrow> (('s, 'g) machine tree \<Rightarrow> string list \<Rightarrow> invocation) \<Rightarrow> string list \<Rightarrow>
   ('s, 'g) machine \<Rightarrow> finish \<times> ('s, 'g) machine" where
  "Execute d cobra argv m =
     (case cobra (rootCmd d) argv of
        UsageError err \<Rightarrow> (Exits 1 [], m)
      | PrintsHelp \<Rightarrow> (Exits 0 [], m)
      | Invoke path fl args \<Rightarrow>
          (case find_cmd (rootCmd d) path of
             None \<Rightarrow> (Exits 1 [], m)
           | Some c \<Rightarrow> (case cm_Run c of None \<Rightarrow> (Exits 0 [], m) | Some run \<Rightarrow> run fl args m)))"

definition main :: "('s, 't, 'tok, 'p, 'g) cmd_deps \<Rightarrow> (('s, 'g) machine tree \<Rightarrow> string list \<Rightarrow> invocation) \<Rightarrow> string list \<Rightarrow>
   ('s, 'g) machine \<Rightarrow> finish \<times> ('s, 'g) machine" where
  "main d cobra argv m = Execute d cobra argv m"

text \<open>What cobra documents: the command run exists and has something to run, its argument check has accepted the arguments, every
  required flag was given, and a flag that was not given has its default.\<close>

definition has_defaults :: "flag_values \<Rightarrow> flag \<Rightarrow> bool" where
  "has_defaults fl f =
     (case f of
        StringFlag n s v \<Rightarrow> fv_given fl n \<or> fv_string fl n = v
      | BoolFlag n s v \<Rightarrow> fv_given fl n \<or> fv_bool fl n = v
      | SliceFlag n s \<Rightarrow> fv_given fl n \<or> fv_slice fl n = [])"

definition runnable :: "'m command \<Rightarrow> flag_values \<Rightarrow> string list \<Rightarrow> bool" where
  "runnable c fl args \<longleftrightarrow> cm_Run c \<noteq> None \<and> (case cm_Args c of None \<Rightarrow> True | Some check \<Rightarrow> check args = None)
     \<and> (\<forall>f \<in> set (cm_required c). fv_given fl f) \<and> (\<forall>f \<in> set (cm_flags c). has_defaults fl f)"

definition cobra_law ::
  "('s, 't, 'tok, 'p, 'g) cmd_deps \<Rightarrow> (('s, 'g) machine tree \<Rightarrow> string list \<Rightarrow> invocation) \<Rightarrow> bool" where
  "cobra_law d cobra \<longleftrightarrow>
     (\<forall>n args. cd_ExactArgs d n args = None \<longleftrightarrow> length args = n)
     \<and> (\<forall>argv path fl args. cobra (rootCmd d) argv = Invoke path fl args \<longrightarrow>
          (\<exists>c. find_cmd (rootCmd d) path = Some c \<and> runnable c fl args))"


section \<open>Properties\<close>

lemmas tree_defs = rootCmd_def init_version_def init_users_def init_serve_def init_migrate_def init_import_def init_groups_def
  init_create_def AddCommand_def Let_def

lemmas command_defs = parent_command_def storage_flags_def MarkFlagRequired_def add_flag_def storage_command_def
  usersDeleteCmd_def usersListGroupsCmd_def usersSetGroupsCmd_def groupsAddUsersCmd_def groupsRemoveUsersCmd_def
  groupsListUsersCmd_def importCmd_def migrate_command_def create_command_def versionCmd_def serveCmd_def

text \<open>The paths of the commands that have something to run.\<close>

datatype path =
    Delete | ListGroups | SetGroups | AddUsers | RemoveUsers | ListUsers | Import | Migrate | CreateFgaModel | VersionCmd | Serve

primrec path_of :: "path \<Rightarrow> string list" where
  "path_of Delete = [''users'', ''delete'']"
| "path_of ListGroups = [''users'', ''list-groups'']"
| "path_of SetGroups = [''users'', ''set-groups'']"
| "path_of AddUsers = [''groups'', ''add-users'']"
| "path_of RemoveUsers = [''groups'', ''remove-users'']"
| "path_of ListUsers = [''groups'', ''list-users'']"
| "path_of Import = [''import'']"
| "path_of Migrate = [''migrate'']"
| "path_of CreateFgaModel = [''create-fga-model'']"
| "path_of VersionCmd = [''version'']"
| "path_of Serve = [''serve'']"

text \<open>Every path of a tree with its command.\<close>

fun paths :: "'m tree \<Rightarrow> (string list \<times> 'm command) list" where
  "paths (Node c subs) = ([], c) # concat (map (\<lambda>t. map (\<lambda>(p, x). (cmd_name t # p, x)) (paths t)) subs)"

lemma find_cmd_paths: "find_cmd t path = Some c \<Longrightarrow> (path, c) \<in> set (paths t)"
proof (induction t path rule: find_cmd.induct)
  case (2 c0 subs n ns)
  then obtain t where t: "find (\<lambda>t. cmd_name t = n) subs = Some t" and f: "find_cmd t ns = Some c" by (auto split: option.splits)
  from t have "t \<in> set subs" "cmd_name t = n" by (auto simp: find_Some_iff)
  with 2(1) [OF t f] show ?case by force
qed simp

lemma runnable_paths:
  "map fst (filter (\<lambda>x. cm_Run (snd x) \<noteq> None) (paths (rootCmd d))) =
     map path_of [CreateFgaModel, AddUsers, RemoveUsers, ListUsers, Import, Migrate, Serve, Delete, ListGroups, SetGroups, VersionCmd]"
  by (simp add: tree_defs cmd_name_def command_defs)

lemma find_runnable:
  assumes "find_cmd (rootCmd d) path = Some c" "cm_Run c \<noteq> None"
  obtains p where "path = path_of p"
proof -
  from find_cmd_paths [OF assms(1)] assms(2)
  have "path \<in> set (map fst (filter (\<lambda>x. cm_Run (snd x) \<noteq> None) (paths (rootCmd d))))" by force
  then show ?thesis unfolding runnable_paths using that by (simp only: set_map) blast
qed

lemma find_storage:
  "find_cmd (rootCmd d) (path_of Delete) = Some (storage_flags (usersDeleteCmd d))"
  "find_cmd (rootCmd d) (path_of ListGroups) = Some (storage_flags (usersListGroupsCmd d))"
  "find_cmd (rootCmd d) (path_of SetGroups) =
     Some (MarkFlagRequired ''group'' (add_flag (SliceFlag ''group'' ''g'') (storage_flags (usersSetGroupsCmd d))))"
  "find_cmd (rootCmd d) (path_of AddUsers) =
     Some (MarkFlagRequired ''user'' (add_flag (SliceFlag ''user'' ''u'') (storage_flags (groupsAddUsersCmd d))))"
  "find_cmd (rootCmd d) (path_of RemoveUsers) = Some (add_flag (SliceFlag ''user'' ''u'') (storage_flags (groupsRemoveUsersCmd d)))"
  "find_cmd (rootCmd d) (path_of ListUsers) = Some (storage_flags (groupsListUsersCmd d))"
  by (simp_all add: tree_defs cmd_name_def command_defs)

lemma find_other:
  "find_cmd (rootCmd d) (path_of Migrate) = Some (storage_flags (migrate_command d))"
  "find_cmd (rootCmd d) (path_of VersionCmd) = Some versionCmd"
  "find_cmd (rootCmd d) (path_of Serve) = Some (serveCmd d)"
  by (simp_all add: tree_defs cmd_name_def command_defs)


lemma find_folded:
  "\<exists>c. find_cmd (rootCmd d) (path_of Import) = Some c \<and> cm_Run c = cm_Run (importCmd d)
     \<and> cm_required c = [''driver'', ''dsn'', ''domain'', ''consumer-key'', ''consumer-secret'']"
  "\<exists>c. find_cmd (rootCmd d) (path_of CreateFgaModel) = Some c \<and> cm_Run c = cm_Run (create_command d)
     \<and> cm_required c = [''fga-api-url'', ''fga-api-token'']"
  by (simp_all add: tree_defs cmd_name_def command_defs)


text \<open>A storage command, given the one argument its check asks for.\<close>

lemma run_storage_cmd_one:
  assumes "run_storage_cmd run [x] m = (fin, m')"
  obtains r w1 out where "run x (mc_world m) = (r, w1)" "m' = m\<lparr>mc_world := w1\<rparr>" "fin = Exits (exit_code (r, w1)) out"
proof -
  obtain r w1 where "run x (mc_world m) = (r, w1)" by fastforce
  with assms that show thesis
    by (cases r) (auto simp: run_storage_cmd_def exit_code_def split: option.splits)
qed

lemma invoked:
  assumes "cobra_law d cobra" "cobra (rootCmd d) argv = Invoke path fl args" "main d cobra argv m = (fin, m')"
  obtains p c run where "path = path_of p" "find_cmd (rootCmd d) path = Some c" "cm_Run c = Some run" "run fl args m = (fin, m')"
    "runnable c fl args"
proof -
  from assms(1,2) obtain c where c: "find_cmd (rootCmd d) path = Some c" "runnable c fl args"
    unfolding cobra_law_def by blast
  then obtain run where r: "cm_Run c = Some run" by (auto simp: runnable_def)
  from find_runnable [OF c(1)] r obtain p where p: "path = path_of p" by auto
  from assms(2,3) c r have "run fl args m = (fin, m')" by (simp add: main_def Execute_def)
  with that [OF p c(1) r _ c(2)] show thesis by blast
qed

text \<open>What a membership command promises to leave, on its argument and flags.\<close>

definition promised :: "path \<Rightarrow> string \<Rightarrow> flag_values \<Rightarrow> (string \<times> string) set \<Rightarrow> (string \<times> string) set" where
  "promised p x fl M =
     (case p of
        Delete \<Rightarrow> {(g, u) \<in> M. u \<noteq> x}
      | SetGroups \<Rightarrow> {(g, u) \<in> M. u \<noteq> x} \<union> set (fv_slice fl ''group'') \<times> {x}
      | AddUsers \<Rightarrow> M \<union> {x} \<times> set (fv_slice fl ''user'')
      | RemoveUsers \<Rightarrow> M - {x} \<times> set (fv_slice fl ''user'')
      | _ \<Rightarrow> M)"

definition storage_paths :: "path set" where
  "storage_paths = {Delete, ListGroups, SetGroups, AddUsers, RemoveUsers, ListUsers}"

text \<open>The function behind a storage command.\<close>

definition storage_run :: "('s, 't, 'tok, 'p, 'g) cmd_deps \<Rightarrow> path \<Rightarrow> flag_values \<Rightarrow> string \<Rightarrow> world \<Rightarrow> cli_result" where
  "storage_run d p fl =
     (let cl = cli_of d fl; env = cd_env d in
      case p of
        Delete \<Rightarrow> runUsersDelete cl env
      | ListGroups \<Rightarrow> runUsersListGroups cl env
      | SetGroups \<Rightarrow> runUsersSetGroups cl env (fv_slice fl ''group'')
      | AddUsers \<Rightarrow> runGroupsAddUsers cl env (fv_slice fl ''user'')
      | RemoveUsers \<Rightarrow> runGroupsRemoveUsers cl env (fv_slice fl ''user'')
      | _ \<Rightarrow> runGroupsListUsers cl env)"

lemma storage_run_effect:
  assumes "storage_run d p fl x w = (r, w')" "p \<in> storage_paths"
  shows "(exit_code (r, w') = 0 \<longrightarrow> memberships (w_primary w') = promised p x fl (memberships (w_primary w)))
    \<and> same_groups_and_permissions (w_primary w) (w_primary w')
    \<and> (p \<in> {ListGroups, ListUsers} \<longrightarrow> w_primary w' = w_primary w)"
  using assms
  by (cases p)
    (auto simp: storage_run_def storage_paths_def promised_def same_groups_and_permissions_def Let_def
      dest: runUsersDelete_effect runUsersListGroups_effect runUsersSetGroups_effect runGroupsAddUsers_effect
        runGroupsRemoveUsers_effect runGroupsListUsers_effect)

lemma storage_command_at:
  assumes "p \<in> storage_paths" "find_cmd (rootCmd d) (path_of p) = Some c"
  shows "cm_Args c = Some (cd_ExactArgs d 1)" "cm_Run c = Some (\<lambda>fl args m. run_storage_cmd (storage_run d p fl) args m)"
    "''dsn'' \<in> set (cm_required c)"
  using assms find_storage [of d]
  by (auto simp: storage_paths_def storage_run_def storage_flags_def MarkFlagRequired_def add_flag_def storage_command_def
      usersDeleteCmd_def usersListGroupsCmd_def usersSetGroupsCmd_def groupsAddUsersCmd_def groupsRemoveUsersCmd_def
      groupsListUsersCmd_def)


text \<open>The other commands but the server: which parts of the state each leaves alone.\<close>

lemma other_command_at:
  assumes "p \<notin> storage_paths" "p \<noteq> Serve" "find_cmd (rootCmd d) (path_of p) = Some c" "cm_Run c = Some run" "run fl args m = (fin, m')"
  shows "(p \<notin> {Import} \<longrightarrow> mc_world m' = mc_world m) \<and> (p \<notin> {Import, CreateFgaModel} \<longrightarrow> mc_fga m' = mc_fga m)
    \<and> (p \<noteq> Migrate \<longrightarrow> mc_goose m' = mc_goose m) \<and> (p \<notin> {CreateFgaModel, VersionCmd} \<longrightarrow> ''dsn'' \<in> set (cm_required c))"
proof (cases p)
  case Import
  with assms find_folded(1) [of d] show ?thesis by (auto simp: importCmd_def split: prod.splits)
next
  case CreateFgaModel
  with assms find_folded(2) [of d] show ?thesis by (auto simp: create_command_def split: prod.splits option.splits)
next
  case Migrate
  with assms find_other(1) [of d] show ?thesis
    by (auto simp: migrate_command_def storage_flags_def MarkFlagRequired_def add_flag_def split: prod.splits)
next
  case VersionCmd
  with assms find_other(2) [of d] show ?thesis by (auto simp: versionCmd_def)
qed (use assms in \<open>simp_all add: storage_paths_def\<close>)



text \<open>\<open>users set-groups ann -g g2 --dsn postgres://db\<close>, on a library that knows this command line only.\<close>

definition demo_cmd_deps :: "(AuthorizationModel option, unit, unit, unit, int) cmd_deps" where
  "demo_cmd_deps =
     \<lparr>cd_ExactArgs = (\<lambda>n args. if length args = n then None else Some (ErrorNew ''accepts other arguments'')),
      cd_RangeArgs = demo_RangeArgs, cd_calls = cl_calls demo_cli, cd_env = quiet_env, cd_Encode = cl_Encode demo_cli,
      cd_show_time = cl_show_time demo_cli, cd_rank1 = length, cd_rank2 = length, cd_Init = (\<lambda>d k s. Inr (\<lambda>q. Inr [])),
      cd_url_Parse = (\<lambda>u. Inr (''https'', u)), cd_SetStoreId = (\<lambda>i s. s), cd_migrate = demo_deps, cd_serve = demo_serve_deps,
      cd_environment = Inr demo_specs, cd_group = group_start, cd_served = (\<lambda>m. m)\<rparr>"

definition demo_flag_values :: flag_values where
  "demo_flag_values =
     \<lparr>fv_string = (\<lambda>f. if f = ''dsn'' then ''postgres://db'' else if f = ''format'' then ''text'' else []),
      fv_bool = (\<lambda>f. False), fv_slice = (\<lambda>f. if f = ''group'' then [''g2''] else []),
      fv_given = (\<lambda>f. f \<in> {''dsn'', ''group''})\<rparr>"

definition demo_cobra :: "'m tree \<Rightarrow> string list \<Rightarrow> invocation" where
  "demo_cobra root argv =
     (if argv = [''users'', ''set-groups'', ''ann'', ''-g'', ''g2'', ''--dsn'', ''postgres://db'']
      then Invoke (path_of SetGroups) demo_flag_values [''ann''] else UsageError (ErrorNew ''unknown command''))"

lemma demo_cobra_law: "cobra_law demo_cmd_deps demo_cobra"
proof -
  have "runnable (MarkFlagRequired ''group'' (add_flag (SliceFlag ''group'' ''g'') (storage_flags (usersSetGroupsCmd demo_cmd_deps))))
      demo_flag_values [''ann'']"
    by (simp add: runnable_def MarkFlagRequired_def add_flag_def storage_flags_def storage_command_def usersSetGroupsCmd_def
        has_defaults_def demo_flag_values_def demo_cmd_deps_def)
  with find_storage(3) [of demo_cmd_deps] show ?thesis
    by (auto simp: cobra_law_def demo_cobra_def demo_cmd_deps_def simp del: path_of.simps)
qed


end
