(* ===== verification/HookRace.thy ===== *)
theory HookRace
  imports Hooks
begin

text \<open>
  A hook request among other requests (\<^verbatim>\<open>pkg/hooks/service.go\<close>, \<open>ProcessRequest\<close>). The request reads the database, the
  tenant service and OpenFGA one after the other, without a lock: the two jobs run in the pool at any time after their submission, and the
  check follows the groups. Between any two of these steps the other requests of the service, the commands and other
  clients of the stores may change anything. The steps are a relation on the shared stores and the results so far; a run is
  a history of configurations. Undisturbed, the steps are \<open>ProcessRequest\<close> of theory \<open>Hooks\<close>.
\<close>

section \<open>Steps\<close>

text \<open>The stores, and the results of the two jobs and of the authorization check once they are there.\<close>

record ('s, 't) race =
  rc_w :: world
  rc_s :: 's
  rc_t :: 't
  rc_groups :: "Group list res option"
  rc_tenant :: "error option option"
  rc_allowed :: "bool res option option"

definition race_start :: "world \<Rightarrow> 's \<Rightarrow> 't \<Rightarrow> ('s, 't) race" where
  "race_start w s t = \<lparr>rc_w = w, rc_s = s, rc_t = t, rc_groups = None, rc_tenant = None, rc_allowed = None\<rparr>"

text \<open>A request under way: the clients, the authorizer and the validator of its service, what becomes of its tenant job, the user
  and the request itself.\<close>

record ('s, 't) hook_job =
  hj_clients :: "world group_client list"
  hj_authz :: "'s authz_client"
  hj_validate :: "'t validator"
  hj_tf :: fate
  hj_user :: User
  hj_req :: TokenHookRequest

inductive race_step :: "('s, 't) hook_job \<Rightarrow> ('s, 't) race \<Rightarrow> ('s, 't) race \<Rightarrow> bool" for hj :: "('s, 't) hook_job" where
  groups_job: "rc_groups c = None \<Longrightarrow> FetchUserGroups (hj_clients hj) (hj_user hj) (rc_w c) = (r, w1) \<Longrightarrow>
    race_step hj c (c\<lparr>rc_groups := Some r, rc_w := w1\<rparr>)"
| tenants_job: "rc_tenant c = None \<Longrightarrow>
    tenant_job (hj_validate hj) (hj_user hj) (extractTenantID (hj_req hj)) (hj_tf hj) (rc_t c) = (e, t1) \<Longrightarrow>
    race_step hj c (c\<lparr>rc_tenant := Some e, rc_t := t1\<rparr>)"
| authorize: "rc_groups c = Some (Inr gs) \<Longrightarrow> rc_allowed c = None \<Longrightarrow>
    AuthorizeRequest (hj_authz hj) (hj_user hj) (hj_req hj) gs (rc_s c) = (a, s1) \<Longrightarrow>
    race_step hj c (c\<lparr>rc_allowed := Some a, rc_s := s1\<rparr>)"
| others: "race_step hj c (c\<lparr>rc_w := (rc_w c)\<lparr>w_primary := tb, w_replica := rb\<rparr>, rc_s := s1, rc_t := t1\<rparr>)"

inductive_cases race_stepE: "race_step hj c c'"

text \<open>A history, newest configuration first.\<close>

inductive race_run :: "('s, 't) hook_job \<Rightarrow> ('s, 't) race list \<Rightarrow> bool" for hj :: "('s, 't) hook_job" where
  race_init: "w_lazyTx w = None \<Longrightarrow> race_run hj [race_start w s t]"
| race_next: "race_run hj (c # cs) \<Longrightarrow> race_step hj c c' \<Longrightarrow> race_run hj (c' # c # cs)"

text \<open>What the request answers when its parts are there.\<close>

definition race_answer :: "('s, 't) hook_job \<Rightarrow> ('s, 't) race \<Rightarrow> HookContext res outcome option" where
  "race_answer hj c =
     (let tenantID = extractTenantID (hj_req hj); waits = tenant_wait tenantID (hj_tf hj) in
      case (rc_groups c, rc_tenant c) of
        (Some (Inl err), Some te) \<Rightarrow> Some (waits (Returns (Inl (Errorf_v ''cannot fetch user groups'' err))))
      | (Some (Inr groups), Some te) \<Rightarrow>
          (case rc_allowed c of
             None \<Rightarrow> None
           | Some None \<Rightarrow> Some (waits Panics)
           | Some (Some (Inl err)) \<Rightarrow> Some (waits (Returns (Inl (Errorf_v ''cannot authorize request'' err))))
           | Some (Some (Inr allowed)) \<Rightarrow>
               if \<not> allowed then Some (waits (Returns (Inl (access_denied (hj_user hj) (hj_req hj)))))
               else Some (waits (Returns (tenant_verdict (hj_user hj) tenantID te groups))))
      | _ \<Rightarrow> None)"

text \<open>Undisturbed, with both jobs accepted, the steps amount to \<open>ProcessRequest\<close>.\<close>

lemma undisturbed:
  assumes g: "FetchUserGroups (hj_clients hj) (hj_user hj) w = (Inr gs, w1)"
    and te: "tenant_job (hj_validate hj) (hj_user hj) (extractTenantID (hj_req hj)) (hj_tf hj) t = (e, t1)"
    and a: "AuthorizeRequest (hj_authz hj) (hj_user hj) (hj_req hj) gs s = (v, s1)"
    and tf: "hj_tf hj \<noteq> Refused" and lazy: "w_lazyTx w = None"
  shows "\<exists>c cs. race_run hj (c # cs) \<and> (\<exists>r. race_answer hj c = Some r \<and>
     ProcessRequest (hj_clients hj) (hj_authz hj) (hj_validate hj) Ran (hj_tf hj) (hj_user hj) (hj_req hj) (w, s, t)
       = (r, (rc_w c, rc_s c, rc_t c)))"
proof -
  let ?c0 = "race_start w s t"
  let ?c1 = "?c0\<lparr>rc_groups := Some (Inr gs), rc_w := w1\<rparr>"
  let ?c2 = "?c1\<lparr>rc_tenant := Some e, rc_t := t1\<rparr>"
  let ?c3 = "?c2\<lparr>rc_allowed := Some v, rc_s := s1\<rparr>"
  have "race_run hj [?c0]" by (rule race_init) (rule lazy)
  then have "race_run hj [?c1, ?c0]" by (rule race_next) (rule groups_job; simp add: race_start_def g)
  then have "race_run hj [?c2, ?c1, ?c0]" by (rule race_next) (rule tenants_job; simp add: race_start_def te)
  then have run: "race_run hj [?c3, ?c2, ?c1, ?c0]" by (rule race_next) (rule authorize [where gs = gs]; use a in \<open>simp add: race_start_def\<close>)
  have "\<exists>r. race_answer hj ?c3 = Some r \<and>
     ProcessRequest (hj_clients hj) (hj_authz hj) (hj_validate hj) Ran (hj_tf hj) (hj_user hj) (hj_req hj) (w, s, t)
       = (r, (rc_w ?c3, rc_s ?c3, rc_t ?c3))"
    using g te a tf by (auto simp: race_answer_def race_start_def ProcessRequest_def Let_def split: option.splits sum.splits)
  with run show ?thesis by blast
qed

section \<open>Justified by the past\<close>

text \<open>A request of the service over the local database and an OpenFGA client.\<close>

definition local_job :: "env \<Rightarrow> 's sdk \<Rightarrow> 't validator \<Rightarrow> fate \<Rightarrow> TokenHookRequest \<Rightarrow> ('s, 't) hook_job" where
  "local_job env sdk validate tf req =
     \<lparr>hj_clients = [StorageHookGroupsClient_FetchUserGroups env hook_ctx], hj_authz = Client sdk, hj_validate = validate,
      hj_tf = tf, hj_user = NewUserFromHookRequest req, hj_req = req\<rparr>"

text \<open>What every request leaves behind, and so what a hook request may meet: tables that satisfy their constraints, and an OpenFGA
  that holds permissions only.\<close>

definition sane :: "('s \<Rightarrow> Tuple set) \<Rightarrow> ('s, 't) race \<Rightarrow> bool" where
  "sane store c \<longleftrightarrow> wf_tables (w_primary (rc_w c)) \<and> (\<exists>P. store (rc_s c) = permission_tuple ` P)"

text \<open>At the configuration \<open>cm\<close> the user \<open>u\<close> was a member of a group that was permitted to use \<open>a\<close> at \<open>cp\<close>.\<close>

definition entitled :: "('s \<Rightarrow> Tuple set) \<Rightarrow> ('s, 't) race \<Rightarrow> ('s, 't) race \<Rightarrow> string \<Rightarrow> string \<Rightarrow> bool" where
  "entitled store cm cp u a \<longleftrightarrow> u \<noteq> [] \<and> (\<exists>g. (g, u) \<in> memberships (w_primary (rc_w cm)) \<and> permission_tuple (g, a) \<in> store (rc_s cp))"

definition request_user :: "TokenHookRequest \<Rightarrow> string" where
  "request_user req = (if isServiceAccount (th_GrantTypes req) then th_ClientID req else u_Email (NewUserFromHookRequest req))"

definition requested :: "TokenHookRequest \<Rightarrow> string set" where
  "requested req = (if isServiceAccount (th_GrantTypes req) then set (th_GrantedAudience req) else {th_ClientID req})"

lemma lookup_request_user: "lookup_id (NewUserFromHookRequest req) = request_user req"
  by (simp add: request_user_def lookup_of_request)

text \<open>What the results so far say about the history.\<close>

definition groups_match :: "TokenHookRequest \<Rightarrow> Group list \<Rightarrow> ('s, 't) race \<Rightarrow> bool" where
  "groups_match req gs cm \<longleftrightarrow> g_ID ` set gs =
     (if request_user req = [] then {} else {g. (g, request_user req) \<in> memberships (w_primary (rc_w cm))})"

definition granted_by :: "('s \<Rightarrow> Tuple set) \<Rightarrow> TokenHookRequest \<Rightarrow> Group list \<Rightarrow> ('s, 't) race list \<Rightarrow> bool" where
  "granted_by store req gs h \<longleftrightarrow> (\<exists>newer cp older. h = newer @ cp # older \<and> (\<exists>cm \<in> set (cp # older).
     sane store cm \<and> sane store cp \<longrightarrow>
       groups_match req gs cm \<and> (\<forall>a \<in> requested req. entitled store cm cp (request_user req) a)))"

lemma granted_by_later: "granted_by store req gs h \<Longrightarrow> granted_by store req gs (c # h)"
  unfolding granted_by_def by (metis append_Cons)

definition explained :: "('s \<Rightarrow> Tuple set) \<Rightarrow> TokenHookRequest \<Rightarrow> ('s, 't) race list \<Rightarrow> bool" where
  "explained store req h \<longleftrightarrow>
     (rc_groups (hd h) = None \<longrightarrow> w_lazyTx (rc_w (hd h)) = None)
     \<and> (\<forall>gs. rc_groups (hd h) = Some (Inr gs) \<longrightarrow> (\<exists>cm \<in> set h. wf_tables (w_primary (rc_w cm)) \<longrightarrow> groups_match req gs cm))
     \<and> (rc_allowed (hd h) = Some (Some (Inr True)) \<longrightarrow> (\<exists>gs. rc_groups (hd h) = Some (Inr gs) \<and> granted_by store req gs h))"

lemma target_hook: "w_lazyTx w = None \<Longrightarrow> target hook_ctx w = w_primary w"
  by (simp add: target_def target_rest_def hook_ctx_def background_def)

text \<open>The groups job reports the memberships at the moment it runs.\<close>

lemma groups_at:
  assumes "w_lazyTx (rc_w c) = None" "wf_tables (w_primary (rc_w c))"
    and "FetchUserGroups [StorageHookGroupsClient_FetchUserGroups env hook_ctx] (NewUserFromHookRequest req) (rc_w c) = (Inr gs, w1)"
  shows "groups_match req gs c"
proof -
  from storage_client.service_fetches [OF assms(3)] have "set gs = stored_groups hook_ctx (rc_w c) (NewUserFromHookRequest req)" by simp
  with stored_group_ids [of hook_ctx "rc_w c" "NewUserFromHookRequest req"]
    stored_groups_empty [of "NewUserFromHookRequest req" hook_ctx "rc_w c"] assms(1,2)
  show ?thesis by (simp add: groups_match_def target_hook lookup_request_user)
qed

text \<open>The check reports the permissions at the moment it runs.\<close>

lemma allowed_at:
  assumes laws: "check_law sdk store" "batch_law sdk store" and "sane store cp" and groups: "groups_match req gs cm"
    and a: "AuthorizeRequest (Client sdk) (NewUserFromHookRequest req) req gs (rc_s cp) = (Some (Inr True), s1)"
  shows "\<forall>a \<in> requested req. entitled store cm cp (request_user req) a"
proof -
  from assms(3) obtain P where P: "store (rc_s cp) = permission_tuple ` P" by (auto simp: sane_def)
  from AuthorizeRequest_sound [OF laws P a] have "\<forall>a \<in> requested req. \<exists>g \<in> g_ID ` set gs. (g, a) \<in> P"
    by (simp add: requested_def split: if_splits)
  with groups P show ?thesis by (fastforce simp: groups_match_def entitled_def split: if_splits)
qed

lemma explained_next:
  assumes laws: "check_law sdk store" "batch_law sdk store"
    and E: "explained store req (c # cs)" and st: "race_step (local_job env sdk validate tf req) c c'"
  shows "explained store req (c' # c # cs)"
  using st
proof (cases rule: race_step.cases)
  case (groups_job r w1)
  from E groups_job(2) have lazy: "w_lazyTx (rc_w c) = None" by (simp add: explained_def)
  have "groups_match req gs c" if "r = Inr gs" "wf_tables (w_primary (rc_w c))" for gs
    using groups_at [OF lazy that(2)] groups_job(3) that(1) by (simp add: local_job_def)
  with E groups_job(1,2) show ?thesis by (auto simp: explained_def)
next
  case (tenants_job e t1)
  with E granted_by_later show ?thesis by (auto simp: explained_def)
next
  case (authorize gs a s1)
  from E authorize(2) obtain cm where cm: "cm \<in> set (c # cs)" "wf_tables (w_primary (rc_w cm)) \<longrightarrow> groups_match req gs cm"
    by (auto simp: explained_def)
  have "groups_match req gs cm \<and> (\<forall>a \<in> requested req. entitled store cm c (request_user req) a)"
    if "a = Some (Inr True)" "sane store cm" "sane store c"
    using allowed_at [OF laws that(3), of req gs cm] cm(2) that authorize(4) by (simp add: local_job_def sane_def)
  then have "granted_by store req gs (c' # c # cs)" if "a = Some (Inr True)"
    unfolding granted_by_def using cm(1) that by (intro exI [of _ "[c']"] exI [of _ c] exI [of _ cs]) auto
  with E authorize cm show ?thesis by (auto simp: explained_def)
next
  case (others tb rb s1 t1)
  with E granted_by_later show ?thesis by (auto simp: explained_def)
qed

lemma race_run_explained:
  assumes "check_law sdk store" "batch_law sdk store" "race_run (local_job env sdk validate tf req) h"
  shows "h \<noteq> [] \<and> explained store req h"
  using assms(3)
proof induction
  case (race_next c cs c')
  with explained_next [OF assms(1,2)] show ?case by blast
qed (simp add: explained_def race_start_def)

lemma race_answer_granted:
  assumes "race_answer hj c = Some (Returns (Inr hctx))"
  shows "rc_groups c = Some (Inr (hc_Groups hctx)) \<and> rc_allowed c = Some (Some (Inr True))"
  using assms
  by (auto simp: race_answer_def tenant_wait_def tenant_verdict_def Let_def split: option.splits sum.splits if_splits)

text \<open>Fetching the groups changes no table.\<close>

lemma fetch_tables:
  assumes "FetchUserGroups [StorageHookGroupsClient_FetchUserGroups env c] u w = (r, w')"
  shows "w_primary w' = w_primary w \<and> w_replica w' = w_replica w"
proof -
  have "w_primary w1 = w_primary w \<and> w_replica w1 = w_replica w" if "GetGroupsForUser env c x w = (q, w1)" for x q w1
    using that db_query_tables by (fastforce simp: GetGroupsForUser_def split: prod.splits sum.splits)
  with assms show ?thesis
    by (auto simp: FetchUserGroups_def client_fetch split: if_splits prod.splits sum.splits)
qed

section \<open>Properties\<close>

text \<open>C3: a grant is justified by what the stores held while the request was under way. Whatever the other requests change between
  the steps, provided that they leave the tables consistent and only permissions in OpenFGA, a granted request had two
  moments, the first no later than the second: at the first the user was a member of exactly the groups the token names,
  and at the second one of those groups was permitted to use the client (for a service account, each requested audience).
  So a permission that was taken away before the request began, or a membership that ended before it, is never honoured,
  unless it is given back meanwhile.\<close>
theorem grants_are_justified_by_the_past:
  assumes laws: "check_law sdk store" "batch_law sdk store"
    and run: "race_run (local_job env sdk validate tf req) h" and others: "\<forall>c \<in> set h. sane store c"
    and granted: "race_answer (local_job env sdk validate tf req) (hd h) = Some (Returns (Inr hctx))"
  shows "\<exists>newer cp older. h = newer @ cp # older \<and> (\<exists>cm \<in> set (cp # older).
      g_ID ` set (hc_Groups hctx) =
        (if request_user req = [] then {} else {g. (g, request_user req) \<in> memberships (w_primary (rc_w cm))})
      \<and> (\<forall>a \<in> requested req. request_user req \<noteq> [] \<and>
           (\<exists>g \<in> g_ID ` set (hc_Groups hctx). permission_tuple (g, a) \<in> store (rc_s cp))))"
proof -
  from race_answer_granted [OF granted] race_run_explained [OF laws run] have "granted_by store req (hc_Groups hctx) h"
    by (auto simp: explained_def)
  then obtain newer cp older cm where h: "h = newer @ cp # older" and cm: "cm \<in> set (cp # older)"
    and just: "sane store cm \<and> sane store cp \<longrightarrow>
      groups_match req (hc_Groups hctx) cm \<and> (\<forall>a \<in> requested req. entitled store cm cp (request_user req) a)"
    by (auto simp: granted_by_def)
  from h cm others have "sane store cm" "sane store cp" by auto
  with just have m: "groups_match req (hc_Groups hctx) cm" and e: "\<forall>a \<in> requested req. entitled store cm cp (request_user req) a" by auto
  from m e have "\<forall>a \<in> requested req. request_user req \<noteq> [] \<and> (\<exists>g \<in> g_ID ` set (hc_Groups hctx). permission_tuple (g, a) \<in> store (rc_s cp))"
    by (fastforce simp: groups_match_def entitled_def)
  with h cm m show ?thesis unfolding groups_match_def by blast
qed


text \<open>\<open>ann\<close> leaves her group after the hook has read it and before OpenFGA is asked: the grant rests on the past.\<close>

lemma demo_authorize:
  assumes "g_ID ` set gs = {''g1''}"
  shows "AuthorizeRequest (Client ref_sdk) (NewUserFromHookRequest (demo_request Map.empty)) (demo_request Map.empty) gs
      [permission_tuple (''g1'', ''app'')] = (Some (Inr True), [permission_tuple (''g1'', ''app'')])"
proof -
  let ?u = "NewUserFromHookRequest (demo_request Map.empty)" and ?s = "[permission_tuple (''g1'', ''app'')]"
  obtain b where b: "AuthorizeRequest (Client ref_sdk) ?u (demo_request Map.empty) gs ?s = (Some (Inr b), ?s)"
    by (simp add: AuthorizeRequest_def CanAccess_def authorizer_Check_def Check_def ref_sdk_def)
  have "set ?s = permission_tuple ` {(''g1'', ''app'')}" by simp
  from AuthorizeRequest_sound [OF ref_laws(2,3) this b] assms b show ?thesis by simp
qed

theorem grants_are_justified_by_the_past_witness:
  "\<exists>(h :: (Tuple list, unit) race list) hctx. race_run (local_job quiet_env ref_sdk NoopValidator Refused (demo_request Map.empty)) h
     \<and> race_answer (local_job quiet_env ref_sdk NoopValidator Refused (demo_request Map.empty)) (hd h) = Some (Returns (Inr hctx))
     \<and> memberships (w_primary (rc_w (hd h))) = {}
     \<and> (\<exists>cm \<in> set h. (''g1'', ''ann'') \<in> memberships (w_primary (rc_w cm)))"
proof -
  let ?req = "demo_request Map.empty" and ?s = "[permission_tuple (''g1'', ''app'')]" and ?w = "world_of demo_tables"
  let ?hj = "local_job quiet_env ref_sdk NoopValidator Refused ?req :: (Tuple list, unit) hook_job"
  let ?cl = "StorageHookGroupsClient_FetchUserGroups quiet_env hook_ctx" and ?u = "NewUserFromHookRequest ?req"
  have "\<exists>gs w1. ?cl ?u ?w = (Inr gs, w1)"
    using GetGroupsForUser_succeeds [OF hook_ctx_readable(1) quiet_env_simps(1), of ?w "lookup_id ?u"]
    by (cases "GetGroupsForUser quiet_env hook_ctx (lookup_id ?u) ?w") (simp add: client_fetch)
  then obtain gs w1 where f: "FetchUserGroups [?cl] ?u ?w = (Inr gs, w1)" by (auto simp: FetchUserGroups_def)
  let ?gone = "demo_tables\<lparr>t_members := []\<rparr>"
  let ?c0 = "race_start ?w ?s () :: (Tuple list, unit) race"
  let ?c1 = "?c0\<lparr>rc_groups := Some (Inr gs), rc_w := w1\<rparr>"
  let ?c2 = "?c1\<lparr>rc_w := (rc_w ?c1)\<lparr>w_primary := ?gone, w_replica := demo_tables\<rparr>, rc_s := ?s, rc_t := ()\<rparr>"
  let ?c3 = "?c2\<lparr>rc_tenant := Some None, rc_t := ()\<rparr>"
  let ?c4 = "?c3\<lparr>rc_allowed := Some (Some (Inr True)), rc_s := ?s\<rparr>"
  have user: "request_user ?req = ''ann''" by (simp add: request_user_def)
  have "groups_match ?req gs ?c0"
    using f by (intro groups_at [where env = quiet_env]) (simp_all add: race_start_def world_of_def)
  then have gs: "g_ID ` set gs = {''g1''}" by (simp add: groups_match_def user race_start_def world_of_def)
  have "race_run ?hj [?c0]" by (rule race_init) (simp add: world_of_def)
  then have "race_run ?hj [?c1, ?c0]" by (rule race_next) (rule groups_job; simp add: race_start_def local_job_def f)
  then have "race_run ?hj [?c2, ?c1, ?c0]" by (rule race_next) (rule others)
  then have "race_run ?hj [?c3, ?c2, ?c1, ?c0]"
    by (rule race_next) (rule tenants_job; simp add: race_start_def local_job_def tenant_job_def string_at_def)
  then have run: "race_run ?hj [?c4, ?c3, ?c2, ?c1, ?c0]"
    by (rule race_next) (rule authorize [where gs = gs]; simp add: race_start_def local_job_def demo_authorize [OF gs])
  have wf: "wf_tables ?gone" "w_primary w1 = demo_tables" "memberships ?gone = {}"
    using fetch_tables [OF f] by (auto simp: demo_tables_def wf_tables_def key_defs memberships_def world_of_def)
  have P: "\<exists>P. set ?s = permission_tuple ` P" by (rule exI [of _ "{(''g1'', ''app'')}"]) simp
  have sane: "\<forall>c \<in> set [?c4, ?c3, ?c2, ?c1, ?c0]. sane set c"
    using wf P by (simp add: sane_def race_start_def world_of_def)
  obtain hctx where ans: "race_answer ?hj (hd [?c4, ?c3, ?c2, ?c1, ?c0]) = Some (Returns (Inr hctx))"
    by (simp add: race_answer_def race_start_def local_job_def tenant_wait_def tenant_verdict_def string_at_def)
  from race_answer_granted [OF ans] have "hc_Groups hctx = gs" by simp
  with grants_are_justified_by_the_past [OF ref_laws(2,3) run sane ans] gs user obtain newer cp older cm where
    "[?c4, ?c3, ?c2, ?c1, ?c0] = newer @ cp # older" "cm \<in> set (cp # older)"
    "{''g1''} = {g. (g, ''ann'') \<in> memberships (w_primary (rc_w cm))}" by auto
  then have "\<exists>cm \<in> set [?c4, ?c3, ?c2, ?c1, ?c0]. (''g1'', ''ann'') \<in> memberships (w_primary (rc_w cm))"
    by (metis Un_iff set_append singletonI mem_Collect_eq)
  moreover have "memberships (w_primary (rc_w (hd [?c4, ?c3, ?c2, ?c1, ?c0]))) = {}" using wf by (simp add: race_start_def)
  ultimately show ?thesis using run ans by blast
qed

end
