(* ===== verification/EditRace.thy ===== *)
theory EditRace
  imports AuthzApi
begin

text \<open>
  Concurrent edits of permissions (\<^verbatim>\<open>pkg/authorization/service.go\<close> under \<^verbatim>\<open>internal/db/middleware.go\<close>). A request that
  grants or revokes runs its statement in a transaction of its own, then writes to OpenFGA, then commits; between these
  steps other requests do theirs. The transactions are \<open>READ COMMITTED\<close>: a statement sees the committed rows, an insert waits
  for a transaction that inserted or deleted a row with the same key, a delete waits only for one that deleted the row it
  finds, since an inserted row that is not committed is invisible to it. A request alone is the request of theory \<open>AuthzApi\<close>
  (lemma \<open>alone_is_the_request\<close>). A commit succeeds; the groups are not deleted meanwhile.
\<close>

section \<open>Requests\<close>

datatype edit = Grant string string | Revoke string string

fun edit_key :: "edit \<Rightarrow> string \<times> string" where
  "edit_key (Grant g a) = (g, a)"
| "edit_key (Revoke g a) = (g, a)"

text \<open>The first call of \<open>AddAllowedAppToGroup\<close> and \<open>RemoveAllowedAppFromGroup\<close>, and the second one.\<close>

fun edit_statement :: "env \<Rightarrow> edit \<Rightarrow> ctx \<Rightarrow> world \<Rightarrow> unit res \<times> world" where
  "edit_statement env (Grant g a) c w = AddAllowedApp env c g a w"
| "edit_statement env (Revoke g a) c w = RemoveAllowedApp env c g a w"

fun edit_call :: "'s authz_client \<Rightarrow> edit \<Rightarrow> 's \<Rightarrow> error option \<times> 's" where
  "edit_call cl (Grant g a) s = authorizer_AddAllowedAppToGroup cl g a s"
| "edit_call cl (Revoke g a) s = authorizer_RemoveAllowedAppFromGroup cl g a s"

text \<open>The rows a transaction has inserted and deleted but not yet committed.\<close>

record delta =
  d_added :: "application_groups_row list"
  d_removed :: "application_groups_row list"

definition delta_of :: "tables \<Rightarrow> tables \<Rightarrow> delta" where
  "delta_of tb tb' =
     \<lparr>d_added = filter (\<lambda>r. r \<notin> set (t_apps tb)) (t_apps tb'),
      d_removed = filter (\<lambda>r. r \<notin> set (t_apps tb')) (t_apps tb)\<rparr>"

definition apply_delta :: "delta \<Rightarrow> tables \<Rightarrow> tables" where
  "apply_delta d tb = tb\<lparr>t_apps := filter (\<lambda>r. r \<notin> set (d_removed d)) (t_apps tb) @ d_added d\<rparr>"

definition changed :: "delta \<Rightarrow> (string \<times> string) set" where
  "changed d = app_key ` (set (d_added d) \<union> set (d_removed d))"

text \<open>A request waits for its statement, has run it, has written to OpenFGA as well, or is answered: with success when it
  committed, with an error when it was rolled back.\<close>

datatype phase = Waiting | Stored delta | Called delta | Answered bool

fun pending :: "phase \<Rightarrow> delta option" where
  "pending (Stored d) = Some d"
| "pending (Called d) = Some d"
| "pending ph = None"

record 's edits =
  ed_tables :: tables
  ed_store :: 's
  ed_reqs :: "(edit \<times> phase) list"

definition blocks :: "edit \<Rightarrow> delta \<Rightarrow> bool" where
  "blocks e d \<longleftrightarrow> (case e of Grant g a \<Rightarrow> (g, a) \<in> changed d | Revoke g a \<Rightarrow> (g, a) \<in> app_key ` set (d_removed d))"

definition blocked :: "edit \<Rightarrow> (edit \<times> phase) list \<Rightarrow> bool" where
  "blocked e reqs \<longleftrightarrow> (\<exists>(e', ph) \<in> set reqs. case pending ph of None \<Rightarrow> False | Some d \<Rightarrow> blocks e d)"

definition tx_ctx :: ctx where
  "tx_ctx = contextWithLazyTx background"

definition in_phase :: "nat \<Rightarrow> edit \<Rightarrow> phase \<Rightarrow> 's edits \<Rightarrow> bool" where
  "in_phase i e ph c \<longleftrightarrow> i < length (ed_reqs c) \<and> ed_reqs c ! i = (e, ph)"

definition enter :: "nat \<Rightarrow> edit \<Rightarrow> phase \<Rightarrow> 's edits \<Rightarrow> 's edits" where
  "enter i e ph c = c\<lparr>ed_reqs := (ed_reqs c)[i := (e, ph)]\<rparr>"

inductive edit_step :: "'s authz_client \<Rightarrow> 's edits \<Rightarrow> 's edits \<Rightarrow> bool" for cl :: "'s authz_client" where
  statement_ok: "in_phase i e Waiting c \<Longrightarrow> \<not> blocked e (ed_reqs c) \<Longrightarrow> begins_ok env \<Longrightarrow>
    edit_statement env e tx_ctx (world_of (ed_tables c)) = (Inr (), w) \<Longrightarrow> w_lazyTx w = Some t \<Longrightarrow>
    edit_step cl c (enter i e (Stored (delta_of (ed_tables c) (tx_tables t))) c)"
| statement_fails: "in_phase i e Waiting c \<Longrightarrow> \<not> blocked e (ed_reqs c) \<Longrightarrow> begins_ok env \<Longrightarrow>
    edit_statement env e tx_ctx (world_of (ed_tables c)) = (Inl err, w) \<Longrightarrow>
    edit_step cl c (enter i e (Answered False) c)"
| call_ok: "in_phase i e (Stored d) c \<Longrightarrow> edit_call cl e (ed_store c) = (None, s) \<Longrightarrow>
    edit_step cl c (enter i e (Called d) (c\<lparr>ed_store := s\<rparr>))"
| call_fails: "in_phase i e (Stored d) c \<Longrightarrow> edit_call cl e (ed_store c) = (Some err, s) \<Longrightarrow>
    edit_step cl c (enter i e (Answered False) (c\<lparr>ed_store := s\<rparr>))"
| commit: "in_phase i e (Called d) c \<Longrightarrow>
    edit_step cl c (enter i e (Answered True) (c\<lparr>ed_tables := apply_delta d (ed_tables c)\<rparr>))"

inductive_cases edit_stepE: "edit_step cl c c'"

inductive edit_run :: "'s authz_client \<Rightarrow> 's edits \<Rightarrow> nat \<Rightarrow> 's edits \<Rightarrow> bool" for cl :: "'s authz_client" and c0 where
  edit_init: "edit_run cl c0 0 c0"
| edit_next: "edit_run cl c0 n c \<Longrightarrow> edit_step cl c c' \<Longrightarrow> edit_run cl c0 (Suc n) c'"

definition edits_start :: "tables \<Rightarrow> 's \<Rightarrow> edit list \<Rightarrow> 's edits" where
  "edits_start tb s es = \<lparr>ed_tables = tb, ed_store = s, ed_reqs = map (\<lambda>e. (e, Waiting)) es\<rparr>"

definition edits_done :: "'s edits \<Rightarrow> bool" where
  "edits_done c \<longleftrightarrow> (\<forall>(e, ph) \<in> set (ed_reqs c). \<exists>b. ph = Answered b)"

section \<open>What a statement leaves\<close>

lemma tx_ctx_simps [simp]: "writable tx_ctx" "ctx_lazy tx_ctx" "target tx_ctx (world_of tb) = tb"
  by (simp_all add: tx_ctx_def background_def writable_def target_def target_rest_def world_of_def)

lemma live_start [simp]: "live tx_ctx (world_of tb)"
  by (simp add: live_def world_of_def)

text \<open>An insert needs a new key and an existing group; both kinds of statement open the transaction, and the rows it changed
  are the difference to what it saw.\<close>

lemma statement_opens:
  assumes "edit_statement env e tx_ctx (world_of tb) = (r, w)" "begins_ok env"
  shows "w_lazyTx w \<noteq> None"
  using assms(1) by (cases e) (auto simp: AddAllowedApp_def RemoveAllowedApp_def exec_result_def Let_def
      split: prod.splits sum.splits dest: db_exec_opens [OF _ tx_ctx_simps(2) assms(2)])

lemma grant_statement:
  assumes "edit_statement env (Grant g a) tx_ctx (world_of tb) = (Inr (), w)" "w_lazyTx w = Some t"
  obtains r where "app_key r = (g, a)" "app_ref r \<in> set (map group_key (t_groups tb))" "(g, a) \<notin> allowances tb"
    "tx_tables t = tb\<lparr>t_apps := t_apps tb @ [r]\<rparr>"
proof -
  from assms(1) obtain now x flt where
    ex: "db_exec env tx_ctx (sql_insert_app (app_row now g a)) (world_of tb) = (Inr (x, flt), w)"
    by (auto simp: AddAllowedApp_def Let_def split: prod.splits sum.splits)
  have key: "app_key (app_row now g a) = (g, a)" by (simp add: app_key_def app_row_def)
  from db_exec_Inr [OF tx_ctx_simps(1) ex] assms(2) show thesis
    by (intro that [of "app_row now g a"]) (simp_all add: sql_insert_app_def key target_def [of tx_ctx w] allowances_def split: if_splits)
qed

lemma revoke_statement:
  assumes "edit_statement env (Revoke g a) tx_ctx (world_of tb) = (Inr (), w)" "w_lazyTx w = Some t"
  shows "tx_tables t = tb\<lparr>t_apps := filter (\<lambda>r. app_key r \<noteq> (g, a)) (t_apps tb)\<rparr>"
proof -
  from assms(1) obtain rows flt where ex: "db_exec env tx_ctx (sql_delete_apps_returning
      (\<lambda>r. ag_group_id r = g \<and> ag_application_id r = a)) (world_of tb) = (Inr (rows, flt), w)"
    by (auto simp: RemoveAllowedApp_def exec_result_Inr)
  from db_exec_Inr [OF tx_ctx_simps(1) ex] assms(2) show ?thesis
    by (simp add: sql_delete_apps_returning_def target_def [of tx_ctx w] app_key_def)
qed

text \<open>The shape of a pending change.\<close>

fun pending_ok :: "tables \<Rightarrow> edit \<Rightarrow> delta \<Rightarrow> bool" where
  "pending_ok tb (Grant g a) d \<longleftrightarrow> d_removed d = [] \<and> (g, a) \<notin> allowances tb
     \<and> (\<exists>r. d_added d = [r] \<and> app_key r = (g, a) \<and> app_ref r \<in> set (map group_key (t_groups tb)))"
| "pending_ok tb (Revoke g a) d \<longleftrightarrow> d_added d = []
     \<and> (d_removed d = [] \<or> d_removed d = filter (\<lambda>r. app_key r = (g, a)) (t_apps tb))"

lemma pending_okD:
  assumes "pending_ok tb e d"
  shows "changed d \<subseteq> {edit_key e}" "e = Grant g a \<Longrightarrow> changed d = {(g, a)}"
  using assms by (cases e; auto simp: changed_def)+

lemma delta_of_insert: "r \<notin> set (t_apps tb) \<Longrightarrow> delta_of tb (tb\<lparr>t_apps := t_apps tb @ [r]\<rparr>) = \<lparr>d_added = [r], d_removed = []\<rparr>"
  by (simp add: delta_of_def)

lemma delta_of_delete:
  "delta_of tb (tb\<lparr>t_apps := filter (\<lambda>r. app_key r \<noteq> k) (t_apps tb)\<rparr>)
     = \<lparr>d_added = [], d_removed = filter (\<lambda>r. app_key r = k) (t_apps tb)\<rparr>"
  by (auto simp: delta_of_def intro: filter_cong)

lemma statement_pending_ok:
  assumes "edit_statement env e tx_ctx (world_of tb) = (Inr (), w)" "w_lazyTx w = Some t"
  shows "pending_ok tb e (delta_of tb (tx_tables t)) \<and> apply_delta (delta_of tb (tx_tables t)) tb = tx_tables t"
proof (cases e)
  case (Grant g a)
  from assms [unfolded Grant] obtain r where r: "app_key r = (g, a)" "app_ref r \<in> set (map group_key (t_groups tb))"
    "(g, a) \<notin> allowances tb" "tx_tables t = tb\<lparr>t_apps := t_apps tb @ [r]\<rparr>" by (rule grant_statement)
  from r(1,3) have "r \<notin> set (t_apps tb)" by (force simp: allowances_def)
  with r Grant show ?thesis by (simp add: delta_of_insert apply_delta_def)
next
  case (Revoke g a)
  have "filter (\<lambda>r. r \<notin> set (filter (\<lambda>r. app_key r = (g, a)) xs)) xs = filter (\<lambda>r. app_key r \<noteq> (g, a)) xs" for xs
    by (rule filter_cong) auto
  with revoke_statement [OF assms [unfolded Revoke]] Revoke show ?thesis
    by (simp add: delta_of_delete apply_delta_def)
qed

section \<open>Commits\<close>

lemma allowances_apply:
  assumes "pending_ok tb e d"
  shows "allowances (apply_delta d tb) = (allowances tb - app_key ` set (d_removed d)) \<union> app_key ` set (d_added d)"
  using assms by (cases e) (auto simp: allowances_def apply_delta_def)

lemma wf_apply:
  assumes "wf_tables tb" "pending_ok tb e d"
  shows "wf_tables (apply_delta d tb)"
  using assms by (cases e) (auto simp: wf_tables_def apply_delta_def allowances_def distinct_map_filterI)

text \<open>A commit of one transaction does not disturb a pending change of other rows.\<close>

lemma pending_ok_apply:
  assumes "pending_ok tb e d" "pending_ok tb e' d'" "disjnt (changed d) (changed d')"
  shows "pending_ok (apply_delta d tb) e' d'"
proof (cases e')
  case (Grant g a)
  with assms have "(g, a) \<notin> app_key ` set (d_added d)" by (auto simp: changed_def disjnt_def)
  with assms(2) Grant allowances_apply [OF assms(1)] show ?thesis by (auto simp: apply_delta_def)
next
  case (Revoke g a)
  have "filter (\<lambda>r. app_key r = (g, a)) (t_apps (apply_delta d tb)) = filter (\<lambda>r. app_key r = (g, a)) (t_apps tb)"
    if "d_removed d' \<noteq> []"
  proof -
    from that assms(2) Revoke have "(g, a) \<in> changed d'" by (auto simp: changed_def filter_empty_conv)
    with assms(3) have "\<forall>r \<in> set (d_added d) \<union> set (d_removed d). app_key r \<noteq> (g, a)" by (auto simp: changed_def disjnt_def)
    then show ?thesis by (auto simp: apply_delta_def filter_empty_conv intro: filter_cong)
  qed
  with assms(2) Revoke show ?thesis by (cases "d_removed d' = []") auto
qed

section \<open>The invariant\<close>

text \<open>Pending changes fit the committed tables and are of different rows. OpenFGA permits nothing but what the database lists
  and what is about to be committed; what is about to be removed it does not permit any more.\<close>

definition edits_exclusive :: "'s edits \<Rightarrow> bool" where
  "edits_exclusive c \<longleftrightarrow> wf_tables (ed_tables c)
     \<and> (\<forall>i e ph d. in_phase i e ph c \<and> pending ph = Some d \<longrightarrow> pending_ok (ed_tables c) e d)
     \<and> (\<forall>i j e e' ph ph' d d'. in_phase i e ph c \<and> in_phase j e' ph' c \<and> pending ph = Some d \<and> pending ph' = Some d' \<and> i \<noteq> j
          \<longrightarrow> disjnt (changed d) (changed d'))"

definition about_to_add :: "'s edits \<Rightarrow> (string \<times> string) set" where
  "about_to_add c = {k. \<exists>i e d. in_phase i e (Called d) c \<and> k \<in> app_key ` set (d_added d)}"

definition no_unlisted_access :: "('s \<Rightarrow> Tuple set) \<Rightarrow> 's edits \<Rightarrow> bool" where
  "no_unlisted_access store c \<longleftrightarrow> store (ed_store c) \<subseteq> permission_tuple ` (allowances (ed_tables c) \<union> about_to_add c)
     \<and> (\<forall>i e d k. in_phase i e (Called d) c \<and> k \<in> app_key ` set (d_removed d) \<longrightarrow> permission_tuple k \<notin> store (ed_store c))"

lemma in_phase_enter [simp]:
  "in_phase j e' ph' (enter i e ph c) \<longleftrightarrow> (if j = i then i < length (ed_reqs c) \<and> e' = e \<and> ph' = ph else in_phase j e' ph' c)"
  by (auto simp: in_phase_def enter_def nth_list_update)

lemma enter_simps [simp]:
  "ed_tables (enter i e ph c) = ed_tables c" "ed_store (enter i e ph c) = ed_store c"
  "in_phase j e' ph' (c\<lparr>ed_store := s\<rparr>) = in_phase j e' ph' c" "in_phase j e' ph' (c\<lparr>ed_tables := tb\<rparr>) = in_phase j e' ph' c"
  by (simp_all add: enter_def in_phase_def)

lemma in_phase_unique: "in_phase i e ph c \<Longrightarrow> in_phase i e' ph' c \<Longrightarrow> e' = e \<and> ph' = ph"
  by (simp add: in_phase_def)

lemma not_blockedD:
  assumes "\<not> blocked e (ed_reqs c)" "in_phase j e' ph c" "pending ph = Some d"
  shows "\<not> blocks e d"
proof
  assume "blocks e d"
  moreover from assms(2) have "(e', ph) \<in> set (ed_reqs c)" by (auto simp: in_phase_def in_set_conv_nth)
  ultimately have "blocked e (ed_reqs c)" using assms(3) unfolding blocked_def by (intro bexI [of _ "(e', ph)"]) simp_all
  with assms(1) show False ..
qed

text \<open>A statement that need not wait changes no row that is already being changed.\<close>

lemma unblocked_disjoint:
  assumes "pending_ok tb e d" "pending_ok tb e' d'" "\<not> blocks e d'"
  shows "disjnt (changed d) (changed d')"
proof (cases e)
  case (Grant g a)
  with assms pending_okD(2) [OF assms(1), of g a] show ?thesis by (simp add: blocks_def disjnt_def)
next
  case (Revoke g a)
  show ?thesis
  proof (cases "d_removed d = []")
    case True
    with assms(1) Revoke show ?thesis by (simp add: changed_def disjnt_def)
  next
    case False
    with assms(1) Revoke have "(g, a) \<in> allowances tb" by (force simp: allowances_def filter_empty_conv)
    with assms(2,3) Revoke have "(g, a) \<notin> changed d'" by (cases e') (auto simp: blocks_def changed_def)
    with pending_okD(1) [OF assms(1)] Revoke show ?thesis by (auto simp: disjnt_def)
  qed
qed


lemma edits_exclusiveD:
  assumes "edits_exclusive c"
  shows "wf_tables (ed_tables c)" "in_phase i e ph c \<Longrightarrow> pending ph = Some d \<Longrightarrow> pending_ok (ed_tables c) e d"
    "in_phase i e ph c \<Longrightarrow> in_phase j e' ph' c \<Longrightarrow> pending ph = Some d \<Longrightarrow> pending ph' = Some d' \<Longrightarrow> i \<noteq> j \<Longrightarrow> disjnt (changed d) (changed d')"
  using assms unfolding edits_exclusive_def by blast+

text \<open>Entering a phase that holds no new change keeps exclusivity; a new change has to fit and be disjoint.\<close>

lemma exclusive_enter:
  assumes I: "edits_exclusive c" and ph: "in_phase i e ph0 c" "pending ph = pending ph0 \<or> pending ph = None"
  shows "edits_exclusive (enter i e ph c)"
proof -
  have "disjnt (changed d) (changed d')" if "in_phase j e' ph' c" "j \<noteq> i" "pending ph0 = Some d" "pending ph' = Some d'" for j e' ph' d d'
    using that by (intro edits_exclusiveD(3) [OF I ph(1) that(1)]) simp_all
  with edits_exclusiveD [OF I] ph show ?thesis
    unfolding edits_exclusive_def by (auto split: if_splits intro: disjnt_sym)
qed

lemma exclusive_store: "edits_exclusive (c\<lparr>ed_store := s\<rparr>) = edits_exclusive c"
  by (simp add: edits_exclusive_def)

lemma exclusive_statement:
  assumes I: "edits_exclusive c" and i: "in_phase i e Waiting c" and free: "\<not> blocked e (ed_reqs c)"
    and d: "pending_ok (ed_tables c) e d"
  shows "edits_exclusive (enter i e (Stored d) c)"
proof -
  have "disjnt (changed d) (changed d')" if "in_phase j e' ph c" "pending ph = Some d'" for j e' ph d'
    by (rule unblocked_disjoint [OF d edits_exclusiveD(2) [OF I that] not_blockedD [OF free that]])
  with edits_exclusiveD [OF I] d show ?thesis
    unfolding edits_exclusive_def by (auto split: if_splits intro: disjnt_sym)
qed

lemma exclusive_commit:
  assumes I: "edits_exclusive c" and i: "in_phase i e (Called d) c"
  shows "edits_exclusive (enter i e (Answered True) (c\<lparr>ed_tables := apply_delta d (ed_tables c)\<rparr>))"
proof -
  have d: "pending_ok (ed_tables c) e d" using edits_exclusiveD(2) [OF I i] by simp
  have "pending_ok (apply_delta d (ed_tables c)) e' d'" if "in_phase j e' ph c" "pending ph = Some d'" "j \<noteq> i" for j e' ph d'
    using that edits_exclusiveD(3) [OF I i that(1)] by (intro pending_ok_apply [OF d edits_exclusiveD(2) [OF I that(1,2)]]) simp
  with wf_apply [OF edits_exclusiveD(1) [OF I] d] edits_exclusiveD(3) [OF I] show ?thesis
    unfolding edits_exclusive_def by (auto split: if_splits)
qed

lemma exclusive_step: "edit_step cl c c' \<Longrightarrow> edits_exclusive c \<Longrightarrow> edits_exclusive c'"
proof (induction rule: edit_step.induct)
  case (statement_ok i e c env w t)
  with statement_pending_ok [OF statement_ok(4,5)] show ?case by (intro exclusive_statement) simp_all
next
  case (statement_fails i e c env err w)
  then show ?case by (intro exclusive_enter [of c i e Waiting]) simp_all
next
  case (call_ok i e d c s)
  then show ?case by (intro exclusive_enter [of _ i e "Stored d"]) (simp_all add: exclusive_store)
next
  case (call_fails i e d c err s)
  then show ?case by (intro exclusive_enter [of _ i e "Stored d"]) (simp_all add: exclusive_store)
next
  case (commit i e d c)
  then show ?case by (intro exclusive_commit)
qed

section \<open>Access\<close>

lemma edit_call_store:
  assumes "write_law sdk store" "edit_call (Client sdk) e s = (r, s')"
  shows "store s' = (if r \<noteq> None then store s
     else case e of Grant g a \<Rightarrow> insert (permission_tuple (g, a)) (store s) | Revoke g a \<Rightarrow> store s - {permission_tuple (g, a)})"
  using assms(2) write_lawD [OF assms(1)]
  by (cases e) (fastforce simp: authorizer_AddAllowedAppToGroup_def authorizer_RemoveAllowedAppFromGroup_def
      WriteTuple_def DeleteTuple_def permission_tuple_def split: prod.splits option.splits)+


lemma no_unlisted_accessI:
  assumes "\<And>t. t \<in> store (ed_store c) \<Longrightarrow> \<exists>k. t = permission_tuple k \<and> (k \<in> allowances (ed_tables c) \<or> k \<in> about_to_add c)"
    and "\<And>i e d k. in_phase i e (Called d) c \<Longrightarrow> k \<in> app_key ` set (d_removed d) \<Longrightarrow> permission_tuple k \<notin> store (ed_store c)"
  shows "no_unlisted_access store c"
  using assms unfolding no_unlisted_access_def by blast

lemma no_unlisted_accessD:
  assumes "no_unlisted_access store c"
  shows "t \<in> store (ed_store c) \<Longrightarrow> \<exists>k. t = permission_tuple k \<and> (k \<in> allowances (ed_tables c) \<or> k \<in> about_to_add c)"
    "in_phase i e (Called d) c \<Longrightarrow> k \<in> app_key ` set (d_removed d) \<Longrightarrow> permission_tuple k \<notin> store (ed_store c)"
  using assms unfolding no_unlisted_access_def by blast+

lemma about_to_add_enter:
  assumes "in_phase i e ph0 c"
  shows "about_to_add (enter i e ph c)
    = {k. \<exists>j e' d. j \<noteq> i \<and> in_phase j e' (Called d) c \<and> k \<in> app_key ` set (d_added d)}
    \<union> (case ph of Called d \<Rightarrow> app_key ` set (d_added d) | _ \<Rightarrow> {})"
  using assms unfolding about_to_add_def
  by (auto simp: in_phase_def [of i] split: if_splits phase.splits)

lemma enter_same: "in_phase i e ph c \<Longrightarrow> enter i e ph c = c"
  by (cases c) (auto simp: in_phase_def enter_def list_update_same_conv)

lemma about_to_add_split:
  assumes "in_phase i e ph c"
  shows "about_to_add c = {k. \<exists>j e' d. j \<noteq> i \<and> in_phase j e' (Called d) c \<and> k \<in> app_key ` set (d_added d)}
    \<union> (case ph of Called d \<Rightarrow> app_key ` set (d_added d) | _ \<Rightarrow> {})"
  using about_to_add_enter [OF assms, of ph] by (simp add: enter_same [OF assms])

text \<open>Only a call that succeeded and a commit concern access.\<close>

lemma access_enter:
  assumes "in_phase i e ph0 c" "\<forall>d. ph0 \<noteq> Called d" "\<forall>d. ph \<noteq> Called d" "no_unlisted_access store c" "store s = store (ed_store c)"
  shows "no_unlisted_access store (enter i e ph (c\<lparr>ed_store := s\<rparr>))"
proof -
  have "in_phase j e' (Called d) (enter i e ph (c\<lparr>ed_store := s\<rparr>)) \<longleftrightarrow> in_phase j e' (Called d) c" for j e' d
    using assms(2,3) by (cases "j = i") (auto dest: in_phase_unique [OF assms(1)])
  with assms(4,5) show ?thesis by (simp add: no_unlisted_access_def about_to_add_def)
qed

lemma access_call:
  assumes W: "write_law sdk store" and I: "edits_exclusive c" and A: "no_unlisted_access store c"
    and i: "in_phase i e (Stored d) c" and call: "edit_call (Client sdk) e (ed_store c) = (None, s)"
  shows "no_unlisted_access store (enter i e (Called d) (c\<lparr>ed_store := s\<rparr>))" (is "no_unlisted_access store ?c")
proof (rule no_unlisted_accessI)
  have d: "pending_ok (ed_tables c) e d" using edits_exclusiveD(2) [OF I i] by simp
  note st = edit_call_store [OF W call]
  have i': "in_phase i e (Stored d) (c\<lparr>ed_store := s\<rparr>)" using i by simp
  have add: "about_to_add ?c = about_to_add c \<union> app_key ` set (d_added d)"
    unfolding about_to_add_enter [OF i'] about_to_add_split [OF i] by auto
  show "\<exists>k. t = permission_tuple k \<and> (k \<in> allowances (ed_tables ?c) \<or> k \<in> about_to_add ?c)" if "t \<in> store (ed_store ?c)" for t
    using that st d no_unlisted_accessD(1) [OF A, of t] unfolding add by (cases e) (auto simp del: split_paired_Ex)
  show "permission_tuple k \<notin> store (ed_store ?c)" if j: "in_phase j e' (Called d') ?c" "k \<in> app_key ` set (d_removed d')" for j e' d' k
  proof (cases "j = i")
    case True
    with j have "e' = e" "d' = d" by simp_all
    with j(2) d have "e = Revoke (fst k) (snd k)" by (cases e) auto
    with st show ?thesis by simp
  next
    case False
    with j(1) have j1: "in_phase j e' (Called d') c" by simp
    from edits_exclusiveD(3) [OF I j1 i] False have "disjnt (changed d') (changed d)" by simp
    with j(2) have "k \<notin> changed d" by (auto simp: disjnt_def changed_def)
    with no_unlisted_accessD(2) [OF A j1 j(2)] st d show ?thesis
      by (cases e) (auto simp: changed_def permission_tuple_inj)
  qed
qed

lemma access_commit:
  assumes I: "edits_exclusive c" and A: "no_unlisted_access store c" and i: "in_phase i e (Called d) c"
  shows "no_unlisted_access store (enter i e (Answered True) (c\<lparr>ed_tables := apply_delta d (ed_tables c)\<rparr>))" (is "no_unlisted_access store ?c")
proof (rule no_unlisted_accessI)
  have d: "pending_ok (ed_tables c) e d" using edits_exclusiveD(2) [OF I i] by simp
  have i': "in_phase i e (Called d) (c\<lparr>ed_tables := apply_delta d (ed_tables c)\<rparr>)" using i by simp
  have add: "about_to_add c \<subseteq> about_to_add ?c \<union> app_key ` set (d_added d)"
    unfolding about_to_add_enter [OF i'] about_to_add_split [OF i] by auto
  show "\<exists>k. t = permission_tuple k \<and> (k \<in> allowances (ed_tables ?c) \<or> k \<in> about_to_add ?c)" if t: "t \<in> store (ed_store ?c)" for t
  proof -
    from t have "t \<in> store (ed_store c)" by simp
    with no_unlisted_accessD(1) [OF A] obtain k where k: "t = permission_tuple k" "k \<in> allowances (ed_tables c) \<or> k \<in> about_to_add c" by blast
    with t no_unlisted_accessD(2) [OF A i, of k] have "k \<notin> app_key ` set (d_removed d)" by auto
    with k add show ?thesis by (intro exI [of _ k]) (auto simp: allowances_apply [OF d])
  qed
  show "permission_tuple k \<notin> store (ed_store ?c)" if "in_phase j e' (Called d') ?c" "k \<in> app_key ` set (d_removed d')" for j e' d' k
    using that no_unlisted_accessD(2) [OF A, of j e' d' k] by (auto split: if_splits)
qed

lemma access_step:
  assumes W: "write_law sdk store"
  shows "edit_step (Client sdk) c c' \<Longrightarrow> edits_exclusive c \<Longrightarrow> no_unlisted_access store c \<Longrightarrow> no_unlisted_access store c'"
proof (induction rule: edit_step.induct)
  case (statement_ok i e c env w t)
  then show ?case using access_enter [of i e Waiting c _ store "ed_store c"] by simp
next
  case (statement_fails i e c env err w)
  then show ?case using access_enter [of i e Waiting c _ store "ed_store c"] by simp
next
  case (call_ok i e d c s)
  then show ?case by (intro access_call [OF W])
next
  case (call_fails i e d c err s)
  with edit_call_store [OF W call_fails(2)] show ?case by (intro access_enter [of i e "Stored d"]) simp_all
next
  case (commit i e d c)
  then show ?case by (intro access_commit)
qed


section \<open>Agreement\<close>

lemma edits_enter: "in_phase i e ph0 c \<Longrightarrow> map fst (ed_reqs (enter i e ph c)) = map fst (ed_reqs c)"
  by (auto simp: enter_def in_phase_def map_update list_update_same_conv)

lemma edits_same: "edit_step cl c c' \<Longrightarrow> map fst (ed_reqs c') = map fst (ed_reqs c)"
  by (induction rule: edit_step.induct) (auto simp: enter_def in_phase_def map_update list_update_same_conv)

definition asks :: "edit \<Rightarrow> 's edits \<Rightarrow> bool" where
  "asks e c \<longleftrightarrow> e \<in> set (map fst (ed_reqs c))"

lemma asks_phase: "in_phase i e ph c \<Longrightarrow> asks e c"
  unfolding asks_def in_phase_def by (metis fst_conv length_map nth_map nth_mem)

text \<open>A pair that nobody revokes: whatever is listed, or about to be, is permitted.\<close>

definition only_granted :: "('s \<Rightarrow> Tuple set) \<Rightarrow> string \<Rightarrow> string \<Rightarrow> 's edits \<Rightarrow> bool" where
  "only_granted store g a c \<longleftrightarrow> \<not> asks (Revoke g a) c
     \<and> ((g, a) \<in> allowances (ed_tables c) \<or> (\<exists>i d. in_phase i (Grant g a) (Called d) c) \<longrightarrow> permission_tuple (g, a) \<in> store (ed_store c))
     \<and> ((\<exists>i. in_phase i (Grant g a) (Answered True) c) \<longrightarrow> (g, a) \<in> allowances (ed_tables c))"

text \<open>A pair that nobody grants: what is listed but not permitted any more is about to be removed, and a revocation that found
  nothing is right about it.\<close>

definition only_revoked :: "('s \<Rightarrow> Tuple set) \<Rightarrow> string \<Rightarrow> string \<Rightarrow> 's edits \<Rightarrow> bool" where
  "only_revoked store g a c \<longleftrightarrow> \<not> asks (Grant g a) c
     \<and> ((g, a) \<in> allowances (ed_tables c) \<and> permission_tuple (g, a) \<notin> store (ed_store c)
          \<longrightarrow> (\<exists>i e d. in_phase i e (Called d) c \<and> (g, a) \<in> app_key ` set (d_removed d)))
     \<and> (\<forall>i ph d. in_phase i (Revoke g a) ph c \<and> pending ph = Some d \<and> d_removed d = [] \<longrightarrow> (g, a) \<notin> allowances (ed_tables c))
     \<and> ((\<exists>i. in_phase i (Revoke g a) (Answered True) c) \<longrightarrow> (g, a) \<notin> allowances (ed_tables c))"

lemma asks_enter [simp]: "in_phase i e ph0 c \<Longrightarrow> asks e' (enter i e ph c) = asks e' c"
  by (simp only: asks_def edits_enter)

lemma asks_simps [simp]: "asks e (c\<lparr>ed_store := s\<rparr>) = asks e c" "asks e (c\<lparr>ed_tables := tb\<rparr>) = asks e c"
  by (simp_all add: asks_def)

lemma added_by_grant: "pending_ok tb e d \<Longrightarrow> k \<in> app_key ` set (d_added d) \<Longrightarrow> e = Grant (fst k) (snd k)"
  by (cases e) auto

lemma removed_by_revoke: "pending_ok tb e d \<Longrightarrow> k \<in> app_key ` set (d_removed d) \<Longrightarrow> e = Revoke (fst k) (snd k)"
  by (cases e) auto

lemma only_granted_step:
  assumes W: "write_law sdk store"
  shows "edit_step (Client sdk) c c' \<Longrightarrow> edits_exclusive c \<Longrightarrow> only_granted store g a c \<Longrightarrow> only_granted store g a c'"
proof (induction rule: edit_step.induct)
  case (statement_ok i e c env w t)
  then show ?case by (auto simp: only_granted_def dest: in_phase_unique split: if_splits)
next
  case (statement_fails i e c env err w)
  then show ?case by (auto simp: only_granted_def dest: in_phase_unique split: if_splits)
next
  case (call_ok i e d c s)
  then have "e \<noteq> Revoke g a" using asks_phase by (auto simp: only_granted_def)
  with call_ok edit_call_store [OF W call_ok(2)] show ?case
    by (cases e) (auto simp: only_granted_def permission_tuple_inj dest: in_phase_unique split: if_splits)
next
  case (call_fails i e d c err s)
  with edit_call_store [OF W call_fails(2)] show ?case
    by (auto simp: only_granted_def dest: in_phase_unique split: if_splits)
next
  case (commit i e d c)
  have d: "pending_ok (ed_tables c) e d" using edits_exclusiveD(2) [OF commit(2,1)] by simp
  from commit have "e \<noteq> Revoke g a" using asks_phase by (auto simp: only_granted_def)
  with removed_by_revoke [OF d, of "(g, a)"] added_by_grant [OF d, of "(g, a)"] commit d show ?case
    by (auto simp: only_granted_def allowances_apply [OF d] dest: in_phase_unique split: if_splits)
qed


lemma revoke_finds_nothing:
  assumes "edit_statement env (Revoke g a) tx_ctx (world_of tb) = (Inr (), w)" "w_lazyTx w = Some t"
    "d_removed (delta_of tb (tx_tables t)) = []"
  shows "(g, a) \<notin> allowances tb"
  using assms(3) unfolding revoke_statement [OF assms(1,2)] delta_of_delete
  by (auto simp: allowances_def filter_empty_conv)

text \<open>The witness of a pending removal survives any step but its own commit.\<close>

definition removing :: "'s edits \<Rightarrow> string \<times> string \<Rightarrow> bool" where
  "removing c k \<longleftrightarrow> (\<exists>i e d. in_phase i e (Called d) c \<and> k \<in> app_key ` set (d_removed d))"

lemma removing_enter:
  assumes "in_phase i e ph0 c" "removing c k" "\<And>d. ph0 = Called d \<Longrightarrow> k \<notin> app_key ` set (d_removed d)"
  shows "removing (enter i e ph c) k"
proof -
  from assms(2) obtain j e' d where j: "in_phase j e' (Called d) c" "k \<in> app_key ` set (d_removed d)"
    unfolding removing_def by blast
  with assms(1,3) have "j \<noteq> i" by (auto simp: in_phase_def)
  with j show ?thesis unfolding removing_def by (intro exI [of _ j] exI [of _ e'] exI [of _ d]) simp
qed

lemma removing_simps [simp]: "removing (c\<lparr>ed_store := s\<rparr>) = removing c" "removing (c\<lparr>ed_tables := tb\<rparr>) = removing c"
  by (simp_all add: removing_def fun_eq_iff)

lemma only_revokedI:
  assumes "\<not> asks (Grant g a) c"
    and "(g, a) \<in> allowances (ed_tables c) \<Longrightarrow> permission_tuple (g, a) \<notin> store (ed_store c) \<Longrightarrow> removing c (g, a)"
    and "\<And>i ph d. in_phase i (Revoke g a) ph c \<Longrightarrow> pending ph = Some d \<Longrightarrow> d_removed d = [] \<Longrightarrow> (g, a) \<notin> allowances (ed_tables c)"
    and "\<And>i. in_phase i (Revoke g a) (Answered True) c \<Longrightarrow> (g, a) \<notin> allowances (ed_tables c)"
  shows "only_revoked store g a c"
  using assms unfolding only_revoked_def removing_def by blast

lemma only_revokedD:
  assumes "only_revoked store g a c"
  shows "\<not> asks (Grant g a) c"
    "(g, a) \<in> allowances (ed_tables c) \<Longrightarrow> permission_tuple (g, a) \<notin> store (ed_store c) \<Longrightarrow> removing c (g, a)"
    "in_phase i (Revoke g a) ph c \<Longrightarrow> pending ph = Some d \<Longrightarrow> d_removed d = [] \<Longrightarrow> (g, a) \<notin> allowances (ed_tables c)"
    "in_phase i (Revoke g a) (Answered True) c \<Longrightarrow> (g, a) \<notin> allowances (ed_tables c)"
  using assms unfolding only_revoked_def removing_def by blast+

lemma only_revoked_enter:
  assumes A: "only_revoked store g a c" and i: "in_phase i e ph0 c" "\<forall>d. ph0 \<noteq> Called d" "ph \<noteq> Answered True"
    and new: "\<And>d. e = Revoke g a \<Longrightarrow> pending ph = Some d \<Longrightarrow> d_removed d = [] \<Longrightarrow> (g, a) \<notin> allowances (ed_tables c)"
    and s: "(g, a) \<in> allowances (ed_tables c) \<Longrightarrow> permission_tuple (g, a) \<notin> store s \<Longrightarrow>
       permission_tuple (g, a) \<notin> store (ed_store c) \<or> removing (enter i e ph c) (g, a)"
  shows "only_revoked store g a (enter i e ph (c\<lparr>ed_store := s\<rparr>))" (is "only_revoked store g a ?c")
proof (rule only_revokedI)
  have i': "in_phase i e ph0 (c\<lparr>ed_store := s\<rparr>)" using i(1) by simp
  show "\<not> asks (Grant g a) ?c" using only_revokedD(1) [OF A] asks_enter [OF i'] by simp
  have "removing ?c = removing (enter i e ph c)" by (simp add: removing_def fun_eq_iff)
  moreover have "removing c (g, a) \<Longrightarrow> removing (enter i e ph c) (g, a)" using i(1,2) by (intro removing_enter) auto
  moreover assume "(g, a) \<in> allowances (ed_tables ?c)" "permission_tuple (g, a) \<notin> store (ed_store ?c)"
  ultimately show "removing ?c (g, a)" using s only_revokedD(2) [OF A] by auto
next
  show "(g, a) \<notin> allowances (ed_tables ?c)" if "in_phase j (Revoke g a) ph' ?c" "pending ph' = Some d" "d_removed d = []" for j ph' d
    using that new only_revokedD(3) [OF A, of j ph' d] by (auto split: if_splits)
  show "(g, a) \<notin> allowances (ed_tables ?c)" if "in_phase j (Revoke g a) (Answered True) ?c" for j
    using that i(3) only_revokedD(4) [OF A, of j] by (auto split: if_splits)
qed


lemma only_revoked_commit:
  assumes I: "edits_exclusive c" and A: "only_revoked store g a c" and i: "in_phase i e (Called d) c"
  shows "only_revoked store g a (enter i e (Answered True) (c\<lparr>ed_tables := apply_delta d (ed_tables c)\<rparr>))" (is "only_revoked store g a ?c")
proof (rule only_revokedI)
  have d: "pending_ok (ed_tables c) e d" using edits_exclusiveD(2) [OF I i] by simp
  have i': "in_phase i e (Called d) (c\<lparr>ed_tables := apply_delta d (ed_tables c)\<rparr>)" using i by simp
  show "\<not> asks (Grant g a) ?c" using only_revokedD(1) [OF A] asks_enter [OF i'] by simp
  from only_revokedD(1) [OF A] have "e \<noteq> Grant g a" using asks_phase [OF i] by auto
  with added_by_grant [OF d, of "(g, a)"] have "(g, a) \<notin> app_key ` set (d_added d)" by auto
  then have al: "(g, a) \<in> allowances (ed_tables ?c) \<longleftrightarrow> (g, a) \<in> allowances (ed_tables c) \<and> (g, a) \<notin> app_key ` set (d_removed d)"
    by (simp add: allowances_apply [OF d])
  show "removing ?c (g, a)" if "(g, a) \<in> allowances (ed_tables ?c)" "permission_tuple (g, a) \<notin> store (ed_store ?c)"
    using that al only_revokedD(2) [OF A] by (intro removing_enter [OF i']) auto
  show "(g, a) \<notin> allowances (ed_tables ?c)" if "in_phase j (Revoke g a) ph' ?c" "pending ph' = Some d'" "d_removed d' = []" for j ph' d'
    using that al only_revokedD(3) [OF A, of j ph' d'] by (auto split: if_splits)
  show "(g, a) \<notin> allowances (ed_tables ?c)" if j: "in_phase j (Revoke g a) (Answered True) ?c" for j
  proof (cases "j = i")
    case True
    with j have e: "e = Revoke g a" by simp
    show ?thesis
    proof (cases "d_removed d = []")
      case True
      with only_revokedD(3) [OF A i [unfolded e]] al show ?thesis by simp
    next
      case False
      with d e have "(g, a) \<in> app_key ` set (d_removed d)" by (force simp: filter_empty_conv)
      with al show ?thesis by simp
    qed
  next
    case False
    with j al only_revokedD(4) [OF A, of j] show ?thesis by simp
  qed
qed

lemma only_revoked_step:
  assumes W: "write_law sdk store"
  shows "edit_step (Client sdk) c c' \<Longrightarrow> edits_exclusive c \<Longrightarrow> only_revoked store g a c \<Longrightarrow> only_revoked store g a c'"
proof (induction rule: edit_step.induct)
  case (statement_ok i e c env w t)
  have "(g, a) \<notin> allowances (ed_tables c)"
    if "e = Revoke g a" "pending (Stored (delta_of (ed_tables c) (tx_tables t))) = Some d" "d_removed d = []" for d
    using that revoke_finds_nothing [of env g a "ed_tables c" w t] statement_ok(4,5) by simp
  then have "only_revoked store g a (enter i e (Stored (delta_of (ed_tables c) (tx_tables t))) (c\<lparr>ed_store := ed_store c\<rparr>))"
    by (intro only_revoked_enter [OF statement_ok(7,1)]) simp_all
  then show ?case by simp
next
  case (statement_fails i e c env err w)
  with only_revoked_enter [of store g a c i e Waiting "Answered False" "ed_store c"] show ?case by simp
next
  case (call_ok i e d c s)
  have d: "pending_ok (ed_tables c) e d" using edits_exclusiveD(2) [OF call_ok(3,1)] by simp
  show ?case
  proof (rule only_revoked_enter [OF call_ok(4,1)])
    show "(g, a) \<notin> allowances (ed_tables c)" if "e = Revoke g a" "pending (Called d) = Some d'" "d_removed d' = []" for d'
      using that only_revokedD(3) [OF call_ok(4), of i "Stored d"] call_ok(1) by simp
    assume al: "(g, a) \<in> allowances (ed_tables c)" and st: "permission_tuple (g, a) \<notin> store s"
    show "permission_tuple (g, a) \<notin> store (ed_store c) \<or> removing (enter i e (Called d) c) (g, a)"
    proof (cases "permission_tuple (g, a) \<in> store (ed_store c)")
      case True
      with st edit_call_store [OF W call_ok(2)] have e: "e = Revoke g a" by (cases e) (auto simp: permission_tuple_inj)
      with al only_revokedD(3) [OF call_ok(4), of i "Stored d"] call_ok(1) have "d_removed d \<noteq> []" by auto
      with d e have "(g, a) \<in> app_key ` set (d_removed d)" by (force simp: filter_empty_conv)
      moreover have "i < length (ed_reqs c)" using call_ok(1) by (simp add: in_phase_def)
      ultimately show ?thesis unfolding removing_def by (intro disjI2 exI [of _ i] exI [of _ e] exI [of _ d]) simp
    qed simp
  qed simp_all
next
  case (call_fails i e d c err s)
  with edit_call_store [OF W call_fails(2)] show ?case by (intro only_revoked_enter [OF call_fails(4,1)]) simp_all
next
  case (commit i e d c)
  then show ?case by (intro only_revoked_commit)
qed

section \<open>Progress\<close>

fun to_go :: "phase \<Rightarrow> nat" where
  "to_go Waiting = 3"
| "to_go (Stored d) = 2"
| "to_go (Called d) = 1"
| "to_go (Answered b) = 0"

definition edits_to_go :: "'s edits \<Rightarrow> nat" where
  "edits_to_go c = sum_list (map (to_go \<circ> snd) (ed_reqs c))"

lemma to_go_enter:
  assumes "in_phase i e ph0 c" "to_go ph < to_go ph0"
  shows "edits_to_go (enter i e ph c) < edits_to_go c"
  using assms elem_le_sum_list [of i "map (to_go \<circ> snd) (ed_reqs c)"]
  by (auto simp: edits_to_go_def enter_def in_phase_def map_update sum_list_update)

lemma to_go_step: "edit_step cl c c' \<Longrightarrow> edits_to_go c' < edits_to_go c"
proof (induction rule: edit_step.induct)
  case (statement_ok i e c env w t)
  then show ?case by (intro to_go_enter [of i e Waiting]) simp_all
next
  case (statement_fails i e c env err w)
  then show ?case by (intro to_go_enter [of i e Waiting]) simp_all
next
  case (call_ok i e d c s)
  then show ?case using to_go_enter [of i e "Stored d" "c\<lparr>ed_store := s\<rparr>" "Called d"] by (simp add: edits_to_go_def)
next
  case (call_fails i e d c err s)
  then show ?case using to_go_enter [of i e "Stored d" "c\<lparr>ed_store := s\<rparr>" "Answered False"] by (simp add: edits_to_go_def)
next
  case (commit i e d c)
  then show ?case
    using to_go_enter [of i e "Called d" "c\<lparr>ed_tables := apply_delta d (ed_tables c)\<rparr>" "Answered True"] by (simp add: edits_to_go_def)
qed

text \<open>A request that holds a change can always go on, and one that waits either need not or waits for such a request.\<close>

lemma pending_can_step:
  assumes "in_phase i e ph c" "pending ph = Some d"
  shows "\<exists>c'. edit_step cl c c'"
proof (cases ph)
  case (Stored d')
  obtain r s where "edit_call cl e (ed_store c) = (r, s)" by fastforce
  with assms(1) Stored edit_step.call_ok [of i e d' c cl] edit_step.call_fails [of i e d' c cl] show ?thesis by (cases r) blast+
next
  case (Called d')
  with assms(1) edit_step.commit [of i e d' c cl] show ?thesis by blast
qed (use assms in simp_all)

lemma unfinished_can_step:
  assumes "\<not> edits_done c" "begins_ok env"
  shows "\<exists>c'. edit_step cl c c'"
proof -
  from assms(1) obtain e ph where "(e, ph) \<in> set (ed_reqs c)" and un: "\<nexists>b. ph = Answered b" by (auto simp: edits_done_def)
  then obtain i where i: "in_phase i e ph c" by (auto simp: in_phase_def in_set_conv_nth)
  show ?thesis
  proof (cases "pending ph")
    case (Some d)
    with i show ?thesis by (rule pending_can_step)
  next
    case None
    with un have W: "ph = Waiting" by (cases ph) simp_all
    show ?thesis
    proof (cases "blocked e (ed_reqs c)")
      case True
      then obtain e' ph' d where "(e', ph') \<in> set (ed_reqs c)" "pending ph' = Some d" by (auto simp: blocked_def split: option.splits)
      then show ?thesis using pending_can_step [of _ e' ph' c d] by (auto simp: in_phase_def in_set_conv_nth)
    next
      case False
      obtain r w where r: "edit_statement env e tx_ctx (world_of (ed_tables c)) = (r, w)" by fastforce
      from statement_opens [OF r assms(2)] obtain t where t: "w_lazyTx w = Some t" by blast
      from i W r t False assms(2) show ?thesis
        using edit_step.statement_ok [of i e c env w t cl] edit_step.statement_fails [of i e c env _ w cl] by (cases r) auto
    qed
  qed
qed


section \<open>Runs\<close>

lemma start_phase: "in_phase i e ph (edits_start tb s es) \<Longrightarrow> ph = Waiting"
  by (auto simp: in_phase_def edits_start_def)

lemma start_invariants:
  assumes "wf_tables tb" "in_sync store tb s"
  shows "edits_exclusive (edits_start tb s es)" "no_unlisted_access store (edits_start tb s es)"
    "Revoke g a \<notin> set es \<Longrightarrow> only_granted store g a (edits_start tb s es)"
    "Grant g a \<notin> set es \<Longrightarrow> only_revoked store g a (edits_start tb s es)"
  using assms
  by (auto simp: edits_exclusive_def no_unlisted_access_def only_granted_def only_revoked_def asks_def in_sync_def
      dest!: start_phase) (auto simp: edits_start_def comp_def)

lemma run_invariants:
  assumes W: "write_law sdk store"
  shows "edit_run (Client sdk) c0 n c \<Longrightarrow> edits_exclusive c0 \<Longrightarrow> no_unlisted_access store c0 \<Longrightarrow>
    edits_exclusive c \<and> no_unlisted_access store c \<and> map fst (ed_reqs c) = map fst (ed_reqs c0)
    \<and> n + edits_to_go c \<le> edits_to_go c0
    \<and> (only_granted store g a c0 \<longrightarrow> only_granted store g a c) \<and> (only_revoked store g a c0 \<longrightarrow> only_revoked store g a c)"
proof (induction rule: edit_run.induct)
  case (edit_next n c c')
  then have "edits_exclusive c" by simp
  note keep = exclusive_step [OF edit_next(2) this] access_step [OF W edit_next(2) this] edits_same [OF edit_next(2)] to_go_step [OF edit_next(2)]
    only_granted_step [OF W edit_next(2) this, of g a] only_revoked_step [OF W edit_next(2) this, of g a]
  with edit_next.IH [OF edit_next.prems] show ?case by simp
qed simp

lemma doneD: "edits_done c \<Longrightarrow> in_phase i e ph c \<Longrightarrow> \<exists>b. ph = Answered b"
  by (force simp: edits_done_def in_phase_def dest: nth_mem)

text \<open>At the end OpenFGA permits only what the database lists, and for a pair without conflicting requests they agree.\<close>

lemma done_subset:
  assumes "edits_done c" "no_unlisted_access store c"
  shows "store (ed_store c) \<subseteq> permission_tuple ` allowances (ed_tables c)"
proof -
  have "about_to_add c = {}" using doneD [OF assms(1)] by (auto simp: about_to_add_def)
  with assms(2) show ?thesis by (simp add: no_unlisted_access_def)
qed

lemma done_agree:
  assumes "edits_done c" "no_unlisted_access store c" "only_granted store g a c \<or> only_revoked store g a c"
  shows "(g, a) \<in> allowances (ed_tables c) \<longleftrightarrow> permission_tuple (g, a) \<in> store (ed_store c)"
proof -
  have "permission_tuple (g, a) \<in> store (ed_store c) \<Longrightarrow> (g, a) \<in> allowances (ed_tables c)"
    using done_subset [OF assms(1,2)] by (auto simp: permission_tuple_inj)
  moreover have "\<not> removing c (g, a)" using doneD [OF assms(1)] by (auto simp: removing_def)
  ultimately show ?thesis using assms(3) only_revokedD(2) [of store g a c] by (auto simp: only_granted_def)
qed



section \<open>A request alone\<close>

fun edit_method :: "edit \<Rightarrow> string" where
  "edit_method (Grant g a) = ''POST''"
| "edit_method (Revoke g a) = ''DELETE''"

fun edit_handler :: "env \<Rightarrow> 's authz_client \<Rightarrow> edit \<Rightarrow> ctx \<Rightarrow> world \<times> 's \<Rightarrow> unit reply rpc \<times> (world \<times> 's)" where
  "edit_handler env cl (Grant g a) = agrpc_AddAllowedAppToGroup env cl g (Some \<lparr>pb_ClientId = a\<rparr>)"
| "edit_handler env cl (Revoke g a) = agrpc_RemoveAllowedAppFromGroup env cl g a"

lemma edit_handler_steps:
  assumes "fst (edit_key e) \<noteq> []" "snd (edit_key e) \<noteq> []"
  shows "edit_statement env e c w = (Inl err, w1) \<Longrightarrow> \<exists>st. edit_handler env cl e c (w, s) = (Inl st, (w1, s))"
    "edit_statement env e c w = (Inr (), w1) \<Longrightarrow> edit_call cl e s = (Some err, s1) \<Longrightarrow> \<exists>st. edit_handler env cl e c (w, s) = (Inl st, (w1, s1))"
    "edit_statement env e c w = (Inr (), w1) \<Longrightarrow> edit_call cl e s = (None, s1) \<Longrightarrow> \<exists>x. edit_handler env cl e c (w, s) = (Inr x, (w1, s1))"
  using assms
  by (cases e; simp add: agrpc_AddAllowedAppToGroup_def agrpc_RemoveAllowedAppFromGroup_def
      asvc_AddAllowedAppToGroup_def asvc_RemoveAllowedAppFromGroup_def)+

lemma statement_tx:
  assumes "edit_statement env e tx_ctx (world_of tb) = (r, w1)" "begins_ok env"
  obtains t where "w_lazyTx w1 = Some t" "w_primary w1 = tb" "r = Inr () \<longrightarrow> \<not> tx_aborted t"
proof -
  from statement_opens [OF assms] obtain t where t: "w_lazyTx w1 = Some t" by blast
  note k = keeps_AddAllowedApp [of env tx_ctx] keeps_RemoveAllowedApp [of env tx_ctx]
  have "frame env tx_ctx (world_of tb) (snd (edit_statement env e tx_ctx (world_of tb)))"
    by (cases e) (use k in \<open>simp_all add: keeps_def\<close>)
  then have "frame env tx_ctx (world_of tb) w1" using assms(1) by simp
  then have p: "w_primary w1 = tb" using assms(2) by (simp add: frame_def world_of_def)
  have "live tx_ctx w1" if "r = Inr ()"
    using assms(1) that AddAllowedApp_live [OF tx_ctx_simps(1) live_start] RemoveAllowedApp_live [OF tx_ctx_simps(1) live_start]
    by (cases e) auto
  with t p show thesis by (intro that [of t]) (auto simp: live_def)
qed

text \<open>Undisturbed, the three steps are the HTTP request of theory \<open>AuthzApi\<close> in its transaction.\<close>

lemma alone_is_the_request:
  assumes e: "fst (edit_key e) \<noteq> []" "snd (edit_key e) \<noteq> []"
    and env: "begins_ok env" "\<forall>t. env_commit env t = None" and hs: "error_statuses hs"
    and req: "TransactionMiddleware env (edit_method e) (gateway2 hs (edit_handler env cl e) s) background (world_of tb) = ((code, (r, s')), w')"
  shows "\<exists>n. edit_run cl (edits_start tb s [e]) n \<lparr>ed_tables = w_primary w', ed_store = s', ed_reqs = [(e, Answered (code < 400))]\<rparr>"
proof -
  let ?c = "edits_start tb s [e]"
  have meth: "edit_method e \<noteq> ''GET''" "edit_method e \<noteq> ''HEAD''" by (cases e; simp)+
  have le: "400 \<le> hs k" for k using hs by (simp add: error_statuses_def)
  have w0: "(world_of tb)\<lparr>w_lazyTx := None\<rparr> = world_of tb" "w_lazyTx (world_of tb) = None" by (simp_all add: world_of_def)
  have c: "in_phase 0 e Waiting ?c" "\<not> blocked e (ed_reqs ?c)" "ed_tables ?c = tb" "ed_store ?c = s"
    by (simp_all add: edits_start_def in_phase_def blocked_def)
  obtain r1 w1 where st: "edit_statement env e tx_ctx (world_of tb) = (r1, w1)" by fastforce
  from st env(1) obtain t where t: "w_lazyTx w1 = Some t" "w_primary w1 = tb" "r1 = Inr () \<longrightarrow> \<not> tx_aborted t" by (rule statement_tx)
  have tx: "background\<lparr>ctx_lazy := True\<rparr> = tx_ctx" by (simp add: tx_ctx_def)
  note unf = TransactionMiddleware_def WithTx_def Let_def gateway2_def tx w0 meth
  show ?thesis
  proof (cases r1)
    case (Inl err)
    with edit_handler_steps(1) [OF e, of env tx_ctx "world_of tb" err w1 cl s] st req le have "w_primary w' = tb" "s' = s" "\<not> code < 400"
      by (auto simp: unf t not_less)
    moreover from Inl st c env(1) have "edit_step cl ?c (enter 0 e (Answered False) ?c)" by (intro statement_fails) simp_all
    ultimately show ?thesis
      using edit_next [OF edit_init, of cl ?c] by (intro exI [of _ 1]) (simp add: enter_def edits_start_def)
  next
    case (Inr u)
    let ?d = "delta_of tb (tx_tables t)"
    let ?c1 = "enter 0 e (Stored ?d) ?c"
    have st1: "edit_statement env e tx_ctx (world_of tb) = (Inr (), w1)" using st Inr by simp
    have s1: "edit_step cl ?c ?c1" using statement_ok [OF c(1,2) env(1), of w1 t cl] st1 t(1) c(3) by simp
    have c1: "in_phase 0 e (Stored ?d) ?c1" "ed_store ?c1 = s" using c by (simp_all add: in_phase_def [of 0 e Waiting])
    note run1 = edit_next [OF edit_init s1]
    obtain f s2 where f: "edit_call cl e s = (f, s2)" by fastforce
    show ?thesis
    proof (cases f)
      case (Some err)
      with edit_handler_steps(2) [OF e st1, of cl s err s2] f req le have "w_primary w' = tb" "s' = s2" "\<not> code < 400"
        by (auto simp: unf t not_less)
      moreover from Some f c1 have "edit_step cl ?c1 (enter 0 e (Answered False) (?c1\<lparr>ed_store := s2\<rparr>))" by (intro call_fails) simp_all
      ultimately show ?thesis using edit_next [OF run1] by (intro exI [of _ 2]) (simp add: enter_def edits_start_def numeral_2_eq_2)
    next
      case None
      with edit_handler_steps(3) [OF e st1, of cl s s2] f req env(2) t(1,3) Inr have "w_primary w' = tx_tables t" "s' = s2" "code < 400"
        by (auto simp: unf http_StatusOK_def)
      moreover let ?c2 = "enter 0 e (Called ?d) (?c1\<lparr>ed_store := s2\<rparr>)"
      have "edit_step cl ?c1 ?c2" using None f c1 by (intro call_ok) simp_all
      moreover have "edit_step cl ?c2 (enter 0 e (Answered True) (?c2\<lparr>ed_tables := apply_delta ?d (ed_tables ?c2)\<rparr>))"
        by (intro commit) (simp add: enter_def edits_start_def in_phase_def)
      moreover have "apply_delta ?d tb = tx_tables t" using statement_pending_ok [OF st1 t(1)] by simp
      ultimately show ?thesis using edit_next [OF edit_next [OF run1]]
        by (intro exI [of _ 3]) (simp add: enter_def edits_start_def numeral_3_eq_3)
    qed
  qed
qed


section \<open>A race\<close>

text \<open>A grant and a revocation of the same pair at the same time. The revocation runs after the grant has written to OpenFGA and
  before it commits: it finds no row, deletes the tuple and is answered; then the grant commits.\<close>

abbreviation race_edits :: "edit list" where
  "race_edits \<equiv> [Grant ''g2'' ''app'', Revoke ''g2'' ''app'']"

definition demo_perms :: "Tuple list" where
  "demo_perms = [permission_tuple (''g1'', ''app'')]"

definition race_row :: application_groups_row where
  "race_row = app_row 0 ''g2'' ''app''"

definition race_at :: "tables \<Rightarrow> Tuple list \<Rightarrow> phase \<Rightarrow> phase \<Rightarrow> Tuple list edits" where
  "race_at tb s ph1 ph2 = \<lparr>ed_tables = tb, ed_store = s, ed_reqs = [(Grant ''g2'' ''app'', ph1), (Revoke ''g2'' ''app'', ph2)]\<rparr>"

lemma race_at_simps [simp]:
  "ed_tables (race_at tb s ph1 ph2) = tb" "ed_store (race_at tb s ph1 ph2) = s"
  "in_phase 0 e ph (race_at tb s ph1 ph2) \<longleftrightarrow> e = Grant ''g2'' ''app'' \<and> ph = ph1"
  "in_phase (Suc 0) e ph (race_at tb s ph1 ph2) \<longleftrightarrow> e = Revoke ''g2'' ''app'' \<and> ph = ph2"
  "enter 0 (Grant ''g2'' ''app'') ph (race_at tb s ph1 ph2) = race_at tb s ph ph2"
  "enter (Suc 0) (Revoke ''g2'' ''app'') ph (race_at tb s ph1 ph2) = race_at tb s ph1 ph"
  "(race_at tb s ph1 ph2)\<lparr>ed_store := s'\<rparr> = race_at tb s' ph1 ph2"
  "(race_at tb s ph1 ph2)\<lparr>ed_tables := tb'\<rparr> = race_at tb' s ph1 ph2"
  "blocked e (ed_reqs (race_at tb s ph1 ph2)) \<longleftrightarrow> (\<exists>ph \<in> {ph1, ph2}. case pending ph of None \<Rightarrow> False | Some d \<Rightarrow> blocks e d)"
  by (auto simp: race_at_def in_phase_def enter_def blocked_def)

lemmas race_eval = AddAllowedApp_def RemoveAllowedApp_def db_exec_def db_stmt_def Statement_def lazyTx_get_def run_on_def tx_run_def
  begin_txn_def tick_def world_of_def quiet_env_def exec_result_def sql_insert_app_def sql_delete_apps_returning_def
  tx_ctx_def background_def app_key_def app_ref_def group_key_def app_row_def demo_tables_def delta_of_def race_row_def

lemma race_statements:
  "\<exists>w t. edit_statement quiet_env (Grant ''g2'' ''app'') tx_ctx (world_of demo_tables) = (Inr (), w) \<and> w_lazyTx w = Some t
     \<and> delta_of demo_tables (tx_tables t) = \<lparr>d_added = [race_row], d_removed = []\<rparr>"
  "\<exists>w t. edit_statement quiet_env (Revoke ''g2'' ''app'') tx_ctx (world_of demo_tables) = (Inr (), w) \<and> w_lazyTx w = Some t
     \<and> delta_of demo_tables (tx_tables t) = \<lparr>d_added = [], d_removed = []\<rparr>"
  by (simp_all add: race_eval)

lemma overtaken_run:
  "edit_run (Client ref_sdk) (race_at demo_tables demo_perms Waiting Waiting) 6
     (race_at (apply_delta \<lparr>d_added = [race_row], d_removed = []\<rparr> demo_tables) demo_perms (Answered True) (Answered True))"
proof -
  let ?d = "\<lparr>d_added = [race_row], d_removed = []\<rparr> :: delta" and ?e = "\<lparr>d_added = [], d_removed = []\<rparr> :: delta"
  let ?t = "permission_tuple (''g2'', ''app'')" and ?cl = "Client ref_sdk"
  from race_statements(1) obtain w t where g: "edit_statement quiet_env (Grant ''g2'' ''app'') tx_ctx (world_of demo_tables) = (Inr (), w)"
    "w_lazyTx w = Some t" "delta_of demo_tables (tx_tables t) = ?d" by blast
  have 1: "edit_step ?cl (race_at demo_tables demo_perms Waiting Waiting) (race_at demo_tables demo_perms (Stored ?d) Waiting)"
    using statement_ok [of 0 "Grant ''g2'' ''app''" "race_at demo_tables demo_perms Waiting Waiting" quiet_env w t ?cl] g
    by (simp del: edit_statement.simps)
  have 2: "edit_step ?cl (race_at demo_tables demo_perms (Stored ?d) Waiting) (race_at demo_tables (demo_perms @ [?t]) (Called ?d) Waiting)"
    using call_ok [of 0 "Grant ''g2'' ''app''" ?d "race_at demo_tables demo_perms (Stored ?d) Waiting" ?cl]
    by (simp add: authorizer_AddAllowedAppToGroup_def WriteTuple_def ref_sdk_def permission_tuple_def demo_perms_def)
  from race_statements(2) obtain w t where r: "edit_statement quiet_env (Revoke ''g2'' ''app'') tx_ctx (world_of demo_tables) = (Inr (), w)"
    "w_lazyTx w = Some t" "delta_of demo_tables (tx_tables t) = ?e" by blast
  have 3: "edit_step ?cl (race_at demo_tables (demo_perms @ [?t]) (Called ?d) Waiting)
      (race_at demo_tables (demo_perms @ [?t]) (Called ?d) (Stored ?e))"
    using statement_ok [of "Suc 0" "Revoke ''g2'' ''app''" "race_at demo_tables (demo_perms @ [?t]) (Called ?d) Waiting" quiet_env w t ?cl] r
    by (simp del: edit_statement.simps add: blocks_def)
  have "permission_tuple (''g1'', ''app'') \<noteq> ?t" by (simp add: permission_tuple_inj)
  then have 4: "edit_step ?cl (race_at demo_tables (demo_perms @ [?t]) (Called ?d) (Stored ?e)) (race_at demo_tables demo_perms (Called ?d) (Called ?e))"
    using call_ok [of "Suc 0" "Revoke ''g2'' ''app''" ?e "race_at demo_tables (demo_perms @ [?t]) (Called ?d) (Stored ?e)" ?cl]
    by (simp add: authorizer_RemoveAllowedAppFromGroup_def DeleteTuple_def ref_sdk_def permission_tuple_def demo_perms_def)
  have 5: "edit_step ?cl (race_at demo_tables demo_perms (Called ?d) (Called ?e)) (race_at demo_tables demo_perms (Called ?d) (Answered True))"
    using commit [of "Suc 0" "Revoke ''g2'' ''app''" ?e "race_at demo_tables demo_perms (Called ?d) (Called ?e)" ?cl] by (simp add: apply_delta_def)
  have 6: "edit_step ?cl (race_at demo_tables demo_perms (Called ?d) (Answered True))
      (race_at (apply_delta ?d demo_tables) demo_perms (Answered True) (Answered True))"
    using commit [of 0 "Grant ''g2'' ''app''" ?d "race_at demo_tables demo_perms (Called ?d) (Answered True)" ?cl] by simp
  from edit_next [OF edit_next [OF edit_next [OF edit_next [OF edit_next [OF edit_next [OF edit_init 1] 2] 3] 4] 5] 6]
  show ?thesis by (simp add: eval_nat_numeral)
qed

text \<open>C36: two requests at the same time can leave a permission listed that nobody has. There is a run in which both the grant and
  the revocation succeed and at the end the database lists the permission while OpenFGA denies it, which neither
  order of the two requests would leave.\<close>

theorem concurrent_edits_lose_a_grant:
  "\<exists>c. edit_run (Client ref_sdk) (edits_start demo_tables demo_perms race_edits) 6 c \<and> edits_done c
     \<and> ed_reqs c = map (\<lambda>e. (e, Answered True)) race_edits
     \<and> (''g2'', ''app'') \<in> allowances (ed_tables c) \<and> permission_tuple (''g2'', ''app'') \<notin> set (ed_store c)"
proof -
  have "edits_start demo_tables demo_perms race_edits = race_at demo_tables demo_perms Waiting Waiting"
    by (simp add: edits_start_def race_at_def)
  moreover have "(''g2'', ''app'') \<in> allowances (apply_delta \<lparr>d_added = [race_row], d_removed = []\<rparr> demo_tables)"
    by (simp add: allowances_def apply_delta_def race_row_def app_key_def app_row_def)
  moreover have "permission_tuple (''g2'', ''app'') \<notin> set demo_perms" by (simp add: demo_perms_def permission_tuple_inj)
  ultimately show ?thesis using overtaken_run by (intro exI conjI) (auto simp: edits_done_def race_at_def)
qed


end
