(* ===== verification/MappingRpc.thy ===== *)
theory MappingRpc
  imports Serve
begin

text \<open>
  The gRPC server with the groups mapping service, from the call of a client to the rows of the database: the messages and the
  service description generated from the protocol file (\<^verbatim>\<open>gen/hook/groups/v1\<close>), the interceptors
  \<^verbatim>\<open>cmd/serve.go\<close> installs in front of it (authentication, then routing to the replica) and the streaming handlers
  of theory \<open>GroupsApi\<close>. The gRPC library is a parameter where it carries data (the transport, the decoding of
  messages, sending); that it finds a handler by its full name and runs chained interceptors from the first to the last is
  what \<open>grpc_dispatch\<close> and \<open>serve_stream\<close> state. The reflection of messages is not modelled.
\<close>

section \<open>Messages\<close>

record GetGroupsForUserReq =
  gg_UserId :: string
  gg_TenantId :: "string option"

record GetUsersInGroupReq =
  ui_GroupId :: string
  ui_TenantId :: "string option"

text \<open>The getters work on a nil message as well.\<close>

definition GetGroupsForUserReq_GetUserId :: "GetGroupsForUserReq option \<Rightarrow> string" where
  "GetGroupsForUserReq_GetUserId x = (case x of Some m \<Rightarrow> gg_UserId m | None \<Rightarrow> [])"

definition GetGroupsForUserReq_GetTenantId :: "GetGroupsForUserReq option \<Rightarrow> string" where
  "GetGroupsForUserReq_GetTenantId x =
     (case x of Some m \<Rightarrow> (case gg_TenantId m of Some t \<Rightarrow> t | None \<Rightarrow> []) | None \<Rightarrow> [])"

definition GetUsersInGroupReq_GetGroupId :: "GetUsersInGroupReq option \<Rightarrow> string" where
  "GetUsersInGroupReq_GetGroupId x = (case x of Some m \<Rightarrow> ui_GroupId m | None \<Rightarrow> [])"

definition GetUsersInGroupReq_GetTenantId :: "GetUsersInGroupReq option \<Rightarrow> string" where
  "GetUsersInGroupReq_GetTenantId x =
     (case x of Some m \<Rightarrow> (case ui_TenantId m of Some t \<Rightarrow> t | None \<Rightarrow> []) | None \<Rightarrow> [])"

section \<open>The service\<close>

definition GroupsMappingService_GetGroupsForUser_FullMethodName :: string where
  "GroupsMappingService_GetGroupsForUser_FullMethodName = ''/hook.groups.v1.GroupsMappingService/GetGroupsForUser''"

definition GroupsMappingService_GetUsersInGroup_FullMethodName :: string where
  "GroupsMappingService_GetUsersInGroup_FullMethodName = ''/hook.groups.v1.GroupsMappingService/GetUsersInGroup''"

datatype mapping_msg = GroupMsg pb_Group | UserMsg string

text \<open>A stream as the library hands it to a handler: the values of the metadata key \<open>authorization\<close>, the bytes of the request or the error of the
  transport, and what becomes of the next message given those already sent.\<close>

record grpc_stream =
  gs_md :: "string list option"
  gs_request :: "string rpc"
  gs_send :: "mapping_msg sender"

record codec =
  cd_groups :: "string \<Rightarrow> GetGroupsForUserReq rpc"
  cd_users :: "string \<Rightarrow> GetUsersInGroupReq rpc"

definition RecvMsg :: "(string \<Rightarrow> 'm rpc) \<Rightarrow> grpc_stream \<Rightarrow> 'm rpc" where
  "RecvMsg decode ss = (case gs_request ss of Inl st \<Rightarrow> Inl st | Inr bytes \<Rightarrow> decode bytes)"

type_synonym stream_handler = "grpc_stream \<Rightarrow> ctx \<Rightarrow> world \<Rightarrow> (grpc_status option \<times> mapping_msg list) \<times> world"

definition GroupsMappingService_GetGroupsForUser_Handler :: "Storage \<Rightarrow> env \<Rightarrow> codec \<Rightarrow> stream_handler" where
  "GroupsMappingService_GetGroupsForUser_Handler so env cd ss c w =
     (case RecvMsg (cd_groups cd) ss of
        Inl st \<Rightarrow> ((Some st, []), w)
      | Inr m \<Rightarrow>
          (case mapping_GetGroupsForUser so env (GetGroupsForUserReq_GetTenantId (Some m)) (GetGroupsForUserReq_GetUserId (Some m))
                  (\<lambda>sent. gs_send ss (map GroupMsg sent)) c w of
             ((st, sent), w1) \<Rightarrow> ((st, map GroupMsg sent), w1)))"

definition GroupsMappingService_GetUsersInGroup_Handler :: "Storage \<Rightarrow> env \<Rightarrow> codec \<Rightarrow> stream_handler" where
  "GroupsMappingService_GetUsersInGroup_Handler so env cd ss c w =
     (case RecvMsg (cd_users cd) ss of
        Inl st \<Rightarrow> ((Some st, []), w)
      | Inr m \<Rightarrow>
          (case mapping_GetUsersInGroup so env (GetUsersInGroupReq_GetTenantId (Some m)) (GetUsersInGroupReq_GetGroupId (Some m))
                  (\<lambda>sent. gs_send ss (map UserMsg sent)) c w of
             ((st, sent), w1) \<Rightarrow> ((st, map UserMsg sent), w1)))"

record service_desc =
  sd_ServiceName :: string
  sd_Streams :: "(string \<times> stream_handler) list"

definition GroupsMappingService_ServiceDesc :: "Storage \<Rightarrow> env \<Rightarrow> codec \<Rightarrow> service_desc" where
  "GroupsMappingService_ServiceDesc so env cd =
     \<lparr>sd_ServiceName = ''hook.groups.v1.GroupsMappingService'',
      sd_Streams = [(''GetGroupsForUser'', GroupsMappingService_GetGroupsForUser_Handler so env cd),
                    (''GetUsersInGroup'', GroupsMappingService_GetUsersInGroup_Handler so env cd)]\<rparr>"

text \<open>The registered services; a method that is not among them is refused by the library.\<close>

definition RegisterGroupsMappingServiceServer :: "Storage \<Rightarrow> env \<Rightarrow> codec \<Rightarrow> service_desc list \<Rightarrow> service_desc list" where
  "RegisterGroupsMappingServiceServer so env cd services = services @ [GroupsMappingService_ServiceDesc so env cd]"

definition grpc_methods :: "service_desc \<Rightarrow> (string \<times> stream_handler) list" where
  "grpc_methods desc = map (\<lambda>(name, h). (''/'' @ sd_ServiceName desc @ ''/'' @ name, h)) (sd_Streams desc)"

definition grpc_dispatch :: "service_desc list \<Rightarrow> string \<Rightarrow> stream_handler option" where
  "grpc_dispatch services fullMethod = map_of (concat (map grpc_methods services)) fullMethod"

text \<open>The server of \<open>serve\<close>: the mapping service behind the two chained interceptors. A call leaves a status, the
  database client and what the client has received.\<close>

definition grpc_services :: "('s, 't, 'v) service \<Rightarrow> env \<Rightarrow> codec \<Rightarrow> service_desc list" where
  "grpc_services rs env cd = RegisterGroupsMappingServiceServer (rs_storage rs) env cd []"

definition serve_stream ::
  "('s, 't, 'v) service \<Rightarrow> env \<Rightarrow> codec \<Rightarrow> string \<Rightarrow> grpc_stream \<Rightarrow> world \<Rightarrow> (unit rpc \<times> (world \<times> mapping_msg list)) option" where
  "serve_stream rs env cd fullMethod ss w =
     map_option (\<lambda>h.
       StreamAuthenticate (rs_verify rs) (gs_md ss)
         (\<lambda>(w0, sent0). StreamReplicaRoutingInterceptor fullMethod
            (\<lambda>c. case h ss c w0 of
                   ((Some st, sent), w1) \<Rightarrow> (Inl st, (w1, sent))
                 | ((None, sent), w1) \<Rightarrow> (Inr (), (w1, sent))) background)
         (w, []))
       (grpc_dispatch (grpc_services rs env cd) fullMethod)"

section \<open>The generated client\<close>

text \<open>A connection of the library: opening a stream for a method, sending the request, closing the sending side.\<close>

record ('x, 'm) client_conn =
  cc_NewStream :: "string \<Rightarrow> 'x \<Rightarrow> 'x res"
  cc_SendMsg :: "'m \<Rightarrow> 'x \<Rightarrow> 'x res"
  cc_CloseSend :: "'x \<Rightarrow> 'x res"

definition client_stream :: "('x, 'm) client_conn \<Rightarrow> string \<Rightarrow> 'm \<Rightarrow> 'x \<Rightarrow> 'x res" where
  "client_stream cc fullMethod req x =
     (case cc_NewStream cc fullMethod x of Inl err \<Rightarrow> Inl err
      | Inr x1 \<Rightarrow> (case cc_SendMsg cc req x1 of Inl err \<Rightarrow> Inl err | Inr x2 \<Rightarrow> cc_CloseSend cc x2))"

definition client_GetGroupsForUser :: "('x, GetGroupsForUserReq) client_conn \<Rightarrow> GetGroupsForUserReq \<Rightarrow> 'x \<Rightarrow> 'x res" where
  "client_GetGroupsForUser cc req x = client_stream cc GroupsMappingService_GetGroupsForUser_FullMethodName req x"

definition client_GetUsersInGroup :: "('x, GetUsersInGroupReq) client_conn \<Rightarrow> GetUsersInGroupReq \<Rightarrow> 'x \<Rightarrow> 'x res" where
  "client_GetUsersInGroup cc req x = client_stream cc GroupsMappingService_GetUsersInGroup_FullMethodName req x"

section \<open>Dispatch\<close>

lemmas method_names = GroupsMappingService_GetGroupsForUser_FullMethodName_def GroupsMappingService_GetUsersInGroup_FullMethodName_def

lemma dispatch_mapping:
  "grpc_dispatch (grpc_services rs env cd) fm
     = (if fm = GroupsMappingService_GetGroupsForUser_FullMethodName then Some (GroupsMappingService_GetGroupsForUser_Handler (rs_storage rs) env cd)
        else if fm = GroupsMappingService_GetUsersInGroup_FullMethodName then Some (GroupsMappingService_GetUsersInGroup_Handler (rs_storage rs) env cd)
        else None)"
  by (simp add: grpc_dispatch_def grpc_services_def RegisterGroupsMappingServiceServer_def grpc_methods_def
      GroupsMappingService_ServiceDesc_def method_names)

text \<open>Both methods are read-only by their names, so a fresh replica answers them.\<close>

lemma mapping_methods_read_only:
  "isReadOnlyMethod GroupsMappingService_GetGroupsForUser_FullMethodName" "isReadOnlyMethod GroupsMappingService_GetUsersInGroup_FullMethodName"
  by (simp_all add: isReadOnlyMethod_def method_names HasPrefix_def Let_def)


section \<open>The handlers\<close>

definition read_tables :: "world \<Rightarrow> tables" where
  "read_tables w = (if db_hasReplica (w_db w) \<and> db_replicaLagMs (w_db w) \<le> db_maxLagMs (w_db w) then w_replica w else w_primary w)"

abbreviation ro_ctx :: ctx where
  "ro_ctx \<equiv> background\<lparr>ctx_ro := True\<rparr>"

lemma ro_ctx_simps [simp]: "readable ro_ctx" "target ro_ctx w = read_tables w" "\<not> hasTransaction background"
  by (auto simp: readable_def background_def target_def target_rest_def read_tables_def hasTransaction_def)

lemma serve_stream_runs:
  "serve_stream rs env cd fm ss w = map_option (\<lambda>h.
     StreamAuthenticate (rs_verify rs) (gs_md ss)
       (\<lambda>(w0, sent0). case h ss ro_ctx w0 of
            ((Some st, sent), w1) \<Rightarrow> (Inl st, (w1, sent)) | ((None, sent), w1) \<Rightarrow> (Inr (), (w1, sent))) (w, []))
     (grpc_dispatch (grpc_services rs env cd) fm)"
  using mapping_methods_read_only
  by (auto simp: serve_stream_def dispatch_mapping StreamReplicaRoutingInterceptor_def)

text \<open>The whole answer to a request.\<close>

definition mapping_answer :: "env \<Rightarrow> codec \<Rightarrow> string \<Rightarrow> grpc_stream \<Rightarrow> tables \<Rightarrow> mapping_msg list" where
  "mapping_answer env cd fm ss tb =
     (if fm = GroupsMappingService_GetGroupsForUser_FullMethodName
      then (case RecvMsg (cd_groups cd) ss of Inl st \<Rightarrow> []
            | Inr m \<Rightarrow> map GroupMsg (groups_answer env (GetGroupsForUserReq_GetTenantId (Some m)) (GetGroupsForUserReq_GetUserId (Some m)) tb))
      else (case RecvMsg (cd_users cd) ss of Inl st \<Rightarrow> []
            | Inr m \<Rightarrow> map UserMsg (users_answer env (GetUsersInGroupReq_GetTenantId (Some m)) (GetUsersInGroupReq_GetGroupId (Some m)) tb)))"

lemma mapping_tables:
  "mapping_GetGroupsForUser so env tid u send c w = ((st, sent), w1) \<Longrightarrow> w_primary w1 = w_primary w \<and> w_replica w1 = w_replica w"
  "mapping_GetUsersInGroup so env tid gid send' c w = ((st, sent'), w2) \<Longrightarrow> w_primary w2 = w_primary w \<and> w_replica w2 = w_replica w"
  by (auto simp: mapping_GetGroupsForUser_def mapping_GetUsersInGroup_def svc_StreamGroupsForUser_def svc_StreamUsersInGroup_def
      StreamGroupsForUser_def StreamUsersInGroup_def split: if_splits prod.splits option.splits sum.splits dest!: db_query_tables)

text \<open>A stream needs a positive time limit: with any other the query fails before it starts.\<close>

lemma db_query_expired: "d \<le> 0 \<Longrightarrow> \<exists>w1. db_query (with_timeout d env) c q w = (Inl deadline_exceeded, w1)"
  by (simp add: db_query_def db_stmt_def with_timeout_def split_beta Let_def)

lemma mapping_needs_time:
  assumes "st_streamTimeout so \<le> 0"
  shows "fst (fst (mapping_GetGroupsForUser so env tid u send c w)) \<noteq> None" "fst (fst (mapping_GetUsersInGroup so env tid gid send' c w)) \<noteq> None"
proof -
  note expired = db_query_expired [OF assms, of env c _ w]
  show "fst (fst (mapping_GetGroupsForUser so env tid u send c w)) \<noteq> None"
    using expired [of "\<lambda>tb. by_name env (filter (\<lambda>g. tid \<noteq> [] \<longrightarrow> gr_tenant_id g = tid) (join_user u tb))"]
    by (auto simp: mapping_GetGroupsForUser_def svc_StreamGroupsForUser_def StreamGroupsForUser_def)
  note expired' = db_query_expired [OF assms, of env c _ w]
  show "fst (fst (mapping_GetUsersInGroup so env tid gid send' c w)) \<noteq> None"
    using expired' [of "\<lambda>tb. by_collation env (map gm_user_id
        (filter (\<lambda>m. gm_group_id m = gid \<and> (tid \<noteq> [] \<longrightarrow> gm_tenant_id m = tid)) (t_members tb)))"]
    by (auto simp: mapping_GetUsersInGroup_def svc_StreamUsersInGroup_def StreamUsersInGroup_def)
qed


text \<open>And when nothing fails, it is answered in full.\<close>

lemma stream_rows_quiet:
  assumes "\<forall>sent. send sent = None"
  shows "stream_rows conv m1 m2 (\<lambda>g sent. stream_send send (f g) sent) (cursor None rows) [] = (None, map (\<lambda>r. f (conv r)) rows)"
proof -
  have "stream_loop conv m1 (\<lambda>g sent. stream_send send (f g) sent) (map Row rows) sent = (None, sent @ map (\<lambda>r. f (conv r)) rows)" for sent
    by (induction rows arbitrary: sent) (simp_all add: stream_send_def assms)
  then show ?thesis by (simp add: stream_rows_def cursor_def)
qed

lemma db_query_answers:
  assumes "readable c" "no_faults env" "live c w"
  obtains w1 where "db_query env c q w = (Inr (q (target c w), None), w1)"
  using db_query_no_faults [OF assms, of q] by (cases "db_query env c q w") auto

lemma mapping_answers:
  assumes nf: "no_faults env" and t: "0 < st_streamTimeout so" and c: "readable c" "live c w"
  shows "u \<noteq> [] \<Longrightarrow> \<forall>sent. send sent = None \<Longrightarrow>
      \<exists>w1. mapping_GetGroupsForUser so env tid u send c w = ((None, groups_answer env tid u (target c w)), w1)"
    "gid \<noteq> [] \<Longrightarrow> \<forall>sent. send' sent = None \<Longrightarrow>
      \<exists>w1. mapping_GetUsersInGroup so env tid gid send' c w = ((None, users_answer env tid gid (target c w)), w1)"
proof -
  have env: "with_timeout (st_streamTimeout so) env = env" using t by (simp add: with_timeout_def)
  show "\<exists>w1. mapping_GetGroupsForUser so env tid u send c w = ((None, groups_answer env tid u (target c w)), w1)"
    if "u \<noteq> []" "\<forall>sent. send sent = None"
  proof -
    let ?q = "\<lambda>tb. by_name env (filter (\<lambda>g. tid \<noteq> [] \<longrightarrow> gr_tenant_id g = tid) (join_user u tb))"
    obtain w1 where "db_query env c ?q w = (Inr (?q (target c w), None), w1)"
      by (rule db_query_answers [OF c(1) nf c(2)])
    with that show ?thesis
      by (simp add: mapping_GetGroupsForUser_def svc_StreamGroupsForUser_def StreamGroupsForUser_def env stream_rows_quiet groups_answer_def)
  qed
  show "\<exists>w1. mapping_GetUsersInGroup so env tid gid send' c w = ((None, users_answer env tid gid (target c w)), w1)"
    if "gid \<noteq> []" "\<forall>sent. send' sent = None"
  proof -
    let ?q = "\<lambda>tb. by_collation env (map gm_user_id
        (filter (\<lambda>m. gm_group_id m = gid \<and> (tid \<noteq> [] \<longrightarrow> gm_tenant_id m = tid)) (t_members tb)))"
    obtain w1 where "db_query env c ?q w = (Inr (?q (target c w), None), w1)"
      by (rule db_query_answers [OF c(1) nf c(2)])
    moreover have "stream_rows (\<lambda>u. u) m1 m2 (stream_send send') (cursor None rows) [] = (None, rows)" for m1 m2 rows
      using stream_rows_quiet [OF that(2), of "\<lambda>u. u" m1 m2 "\<lambda>u. u" rows] by simp
    ultimately show ?thesis using that
      by (simp add: mapping_GetUsersInGroup_def svc_StreamUsersInGroup_def StreamUsersInGroup_def env users_answer_def)
  qed
qed

section \<open>A call\<close>

definition valid_request :: "codec \<Rightarrow> string \<Rightarrow> grpc_stream \<Rightarrow> bool" where
  "valid_request cd fm ss \<longleftrightarrow>
     (if fm = GroupsMappingService_GetGroupsForUser_FullMethodName
      then \<exists>m. RecvMsg (cd_groups cd) ss = Inr m \<and> GetGroupsForUserReq_GetUserId (Some m) \<noteq> []
      else \<exists>m. RecvMsg (cd_users cd) ss = Inr m \<and> GetUsersInGroupReq_GetGroupId (Some m) \<noteq> [])"

text \<open>What every call of a handler leaves: both databases as they were, an initial part of the answer sent, all of it when it
  ends well, and it ends well when nothing fails.\<close>

definition honest_call ::
  "Storage \<Rightarrow> env \<Rightarrow> codec \<Rightarrow> string \<Rightarrow> grpc_stream \<Rightarrow> world \<Rightarrow> (grpc_status option \<times> mapping_msg list) \<times> world \<Rightarrow> bool" where
  "honest_call so env cd fm ss w r \<longleftrightarrow> (case r of ((st, sent), w') \<Rightarrow>
     w_primary w' = w_primary w \<and> w_replica w' = w_replica w \<and> prefix sent (mapping_answer env cd fm ss (read_tables w))
     \<and> (st = None \<longrightarrow> sent = mapping_answer env cd fm ss (read_tables w) \<and> valid_request cd fm ss \<and> 0 < st_streamTimeout so)
     \<and> (no_faults env \<and> 0 < st_streamTimeout so \<and> (\<forall>sent. gs_send ss sent = None) \<and> valid_request cd fm ss \<longrightarrow> st = None))"

lemma live_ro [simp]: "live ro_ctx w"
  by (simp add: live_def background_def)

lemma groups_call:
  "honest_call so env cd GroupsMappingService_GetGroupsForUser_FullMethodName ss w (GroupsMappingService_GetGroupsForUser_Handler so env cd ss ro_ctx w)"
proof (cases "RecvMsg (cd_groups cd) ss")
  case (Inl e)
  then show ?thesis
    by (auto simp: honest_call_def GroupsMappingService_GetGroupsForUser_Handler_def mapping_answer_def valid_request_def)
next
  case (Inr m)
  let ?t = "GetGroupsForUserReq_GetTenantId (Some m)" and ?u = "GetGroupsForUserReq_GetUserId (Some m)" and ?s = "\<lambda>sent. gs_send ss (map GroupMsg sent)"
  obtain st gs w' where g: "mapping_GetGroupsForUser so env ?t ?u ?s ro_ctx w = ((st, gs), w')" by (metis prod.exhaust)
  have "st = None \<longrightarrow> 0 < st_streamTimeout so" using mapping_needs_time(1) [of so env ?t ?u ?s ro_ctx w] g by force
  with groups_stream [OF ro_ctx_simps(1) g] mapping_tables(1) [OF g] mapping_answers(1) [of env so ro_ctx w ?u ?s ?t] g Inr
  show ?thesis
    by (auto simp: honest_call_def GroupsMappingService_GetGroupsForUser_Handler_def mapping_answer_def valid_request_def map_mono_prefix)
qed

lemma users_call:
  "honest_call so env cd GroupsMappingService_GetUsersInGroup_FullMethodName ss w (GroupsMappingService_GetUsersInGroup_Handler so env cd ss ro_ctx w)"
proof -
  have ne: "GroupsMappingService_GetUsersInGroup_FullMethodName \<noteq> GroupsMappingService_GetGroupsForUser_FullMethodName"
    by (simp add: method_names)
  show ?thesis
  proof (cases "RecvMsg (cd_users cd) ss")
    case (Inl e)
    with ne show ?thesis
      by (auto simp: honest_call_def GroupsMappingService_GetUsersInGroup_Handler_def mapping_answer_def valid_request_def)
  next
    case (Inr m)
    let ?t = "GetUsersInGroupReq_GetTenantId (Some m)" and ?g = "GetUsersInGroupReq_GetGroupId (Some m)" and ?s = "\<lambda>sent. gs_send ss (map UserMsg sent)"
    obtain st us w' where g: "mapping_GetUsersInGroup so env ?t ?g ?s ro_ctx w = ((st, us), w')" by (metis prod.exhaust)
    have "st = None \<longrightarrow> 0 < st_streamTimeout so" using mapping_needs_time(2) [of so env ?t ?g ?s ro_ctx w] g by force
    with users_stream [OF ro_ctx_simps(1) g] mapping_tables(2) [OF g] mapping_answers(2) [of env so ro_ctx w ?g ?s ?t] g Inr ne
    show ?thesis
      by (auto simp: honest_call_def GroupsMappingService_GetUsersInGroup_Handler_def mapping_answer_def valid_request_def map_mono_prefix)
  qed
qed

text \<open>The verifier of the running service, whichever it is, decides about every token.\<close>

interpretation running: token_verifier "rs_verify rs" "\<lambda>t. rs_verify rs t = Inr True" for rs :: "('s, 't, 'v) service"
  by unfold_locales simp

lemma serve_stream_cases:
  assumes "serve_stream rs env cd fm ss w = Some (r, (w', sent))"
  obtains (refused) msg where "\<nexists>t vs. gs_md ss = Some ((''Bearer '' @ t) # vs) \<and> rs_verify rs t = Inr True"
      "r = Inl \<lparr>st_code = Unauthenticated, st_message = msg\<rparr>" "w' = w" "sent = []"
  | (handled) t vs st where "gs_md ss = Some ((''Bearer '' @ t) # vs)" "rs_verify rs t = Inr True"
      "honest_call (rs_storage rs) env cd fm ss w ((st, sent), w')" "r = (case st of Some e \<Rightarrow> Inl e | None \<Rightarrow> Inr ())"
proof (cases "\<exists>t vs. gs_md ss = Some ((''Bearer '' @ t) # vs) \<and> rs_verify rs t = Inr True")
  case True
  then obtain t vs where md: "gs_md ss = Some ((''Bearer '' @ t) # vs)" and ok: "rs_verify rs t = Inr True" by blast
  from assms obtain h where h: "grpc_dispatch (grpc_services rs env cd) fm = Some h" by (auto simp: serve_stream_runs)
  obtain st sent1 w1 where run: "h ss ro_ctx w = ((st, sent1), w1)" by (metis prod.exhaust)
  have "honest_call (rs_storage rs) env cd fm ss w (h ss ro_ctx w)"
    using h groups_call users_call by (auto simp: dispatch_mapping split: if_splits)
  moreover have "StreamAuthenticate (rs_verify rs) (gs_md ss) handler x = handler x" for handler :: "world \<times> mapping_msg list \<Rightarrow> unit rpc \<times> _" and x
    unfolding md by (rule running.stream_accepts [OF ok])
  with assms h run have "sent1 = sent" "w1 = w'" "r = (case st of Some e \<Rightarrow> Inl e | None \<Rightarrow> Inr ())"
    by (cases st; simp add: serve_stream_runs)+
  ultimately show thesis using handled [OF md ok, of st] run by simp
next
  case False
  from assms obtain h where h: "grpc_dispatch (grpc_services rs env cd) fm = Some h" by (auto simp: serve_stream_runs)
  let ?h = "\<lambda>(w0, sent0 :: mapping_msg list). case h ss ro_ctx w0 of
     ((Some st, sent), w1) \<Rightarrow> (Inl st, (w1, sent)) | ((None, sent), w1) \<Rightarrow> (Inr (), (w1, sent))"
  from running.stream_refuses [OF False, of ?h "(w, [])"] obtain msg where
    "StreamAuthenticate (rs_verify rs) (gs_md ss) ?h (w, []) = (Inl \<lparr>st_code = Unauthenticated, st_message = msg\<rparr>, (w, []))" by blast
  with assms h refused [OF False, of msg] show thesis by (simp add: serve_stream_runs)
qed

section \<open>Properties\<close>

text \<open>C12: the gRPC service tells nothing to strangers and the truth to everybody else. In a running service a call of a mapping method changes neither
  database. Without a bearer token that the configured verifier accepts it is refused with \<open>Unauthenticated\<close> before anything is read, and that holds
  without a token even when authentication is disabled. Otherwise the client has received an initial part of the answer, taken from a replica that is fresh
  enough or from the primary, and all of it exactly if the call ends well; it ends well only with a positive time limit, and does so when the request is
  valid and nothing fails. The generated client calls these very methods.\<close>

theorem mapping_calls_end_to_end:
  assumes boot: "serve_boot d (Inr specs) s = (ServeRuns rs, s', l)"
    and call: "serve_stream rs env cd fm ss w = Some (r, (w', sent))"
  shows "w_primary w' = w_primary w \<and> w_replica w' = w_replica w
    \<and> (if \<exists>t vs. gs_md ss = Some ((''Bearer '' @ t) # vs) \<and> rs_verify rs t = Inr True
       then prefix sent (mapping_answer env cd fm ss (read_tables w))
          \<and> (r = Inr () \<longrightarrow> sent = mapping_answer env cd fm ss (read_tables w) \<and> valid_request cd fm ss \<and> 0 < es_StreamTimeout specs)
          \<and> (no_faults env \<and> 0 < es_StreamTimeout specs \<and> (\<forall>sent. gs_send ss sent = None) \<and> valid_request cd fm ss \<longrightarrow> r = Inr ())
       else (\<exists>msg. r = Inl \<lparr>st_code = Unauthenticated, st_message = msg\<rparr>) \<and> sent = [] \<and> w' = w)
    \<and> (if es_AuthenticationEnabled specs
       then \<exists>v. rs_verify rs = VerifyToken v \<and> jv_allowedSubjects v = allowed_subjects (es_AuthenticationAllowedSubjects specs)
              \<and> jv_requiredScope v = es_AuthenticationRequiredScope specs \<and> jv_Claims v = oi_Claims (sv_oidc d)
       else rs_verify rs = NoopVerifier)
    \<and> fm \<in> {GroupsMappingService_GetGroupsForUser_FullMethodName, GroupsMappingService_GetUsersInGroup_FullMethodName}"
proof -
  from boot have "start_verifier d specs = Inr (rs_verify rs)" and so: "st_streamTimeout (rs_storage rs) = es_StreamTimeout specs"
    by (auto simp: serve_boot_def SetStreamTimeout_def Let_def split: boot.splits prod.splits option.splits sum.splits)
  from start_verifier_spec [OF this(1)] have "if es_AuthenticationEnabled specs
       then \<exists>v. rs_verify rs = VerifyToken v \<and> jv_allowedSubjects v = allowed_subjects (es_AuthenticationAllowedSubjects specs)
              \<and> jv_requiredScope v = es_AuthenticationRequiredScope specs \<and> jv_Claims v = oi_Claims (sv_oidc d)
       else rs_verify rs = NoopVerifier" by auto
  moreover have "fm \<in> {GroupsMappingService_GetGroupsForUser_FullMethodName, GroupsMappingService_GetUsersInGroup_FullMethodName}"
    using call by (auto simp: serve_stream_def dispatch_mapping split: if_splits)
  moreover have "w_primary w' = w_primary w \<and> w_replica w' = w_replica w
    \<and> (if \<exists>t vs. gs_md ss = Some ((''Bearer '' @ t) # vs) \<and> rs_verify rs t = Inr True
       then prefix sent (mapping_answer env cd fm ss (read_tables w))
          \<and> (r = Inr () \<longrightarrow> sent = mapping_answer env cd fm ss (read_tables w) \<and> valid_request cd fm ss \<and> 0 < es_StreamTimeout specs)
          \<and> (no_faults env \<and> 0 < es_StreamTimeout specs \<and> (\<forall>sent. gs_send ss sent = None) \<and> valid_request cd fm ss \<longrightarrow> r = Inr ())
       else (\<exists>msg. r = Inl \<lparr>st_code = Unauthenticated, st_message = msg\<rparr>) \<and> sent = [] \<and> w' = w)"
    using call
  proof (cases rule: serve_stream_cases)
    case (refused msg)
    then show ?thesis unfolding if_not_P [OF refused(1)] by simp
  next
    case (handled t vs st)
    then have acc: "\<exists>t vs. gs_md ss = Some ((''Bearer '' @ t) # vs) \<and> rs_verify rs t = Inr True" by blast
    have "r = Inr () \<longleftrightarrow> st = None" using handled(4) by (cases st) simp_all
    moreover have "honest_call (rs_storage rs) env cd fm ss w ((st, sent), w')" by (rule handled(3))
    ultimately show ?thesis unfolding if_P [OF acc] honest_call_def so prod.case by blast
  qed
  ultimately show ?thesis by blast
qed

definition demo_codec :: codec where
  "demo_codec = \<lparr>cd_groups = (\<lambda>b. Inr \<lparr>gg_UserId = b, gg_TenantId = None\<rparr>), cd_users = (\<lambda>b. Inr \<lparr>ui_GroupId = b, ui_TenantId = None\<rparr>)\<rparr>"

definition demo_stream :: grpc_stream where
  "demo_stream = \<lparr>gs_md = Some [''Bearer token''], gs_request = Inr ''g1'', gs_send = (\<lambda>sent. None)\<rparr>"

theorem mapping_calls_end_to_end_witness:
  "\<exists>(rs :: (AuthorizationModel option, unit, nat) service) s' l w'.
     serve_boot demo_serve_deps (Inr (demo_specs\<lparr>es_AuthenticationEnabled := False\<rparr>)) None = (ServeRuns rs, s', l)
     \<and> serve_stream rs quiet_env demo_codec GroupsMappingService_GetUsersInGroup_FullMethodName demo_stream (world_of demo_tables)
         = Some (Inr (), (w', [UserMsg ''ann'']))"
proof -
  let ?specs = "demo_specs\<lparr>es_AuthenticationEnabled := False\<rparr>" and ?fm = GroupsMappingService_GetUsersInGroup_FullMethodName
    and ?w = "world_of demo_tables"
  obtain rs :: "(AuthorizationModel option, unit, nat) service" and s' l where
    boot: "serve_boot demo_serve_deps (Inr ?specs) None = (ServeRuns rs, s', l)"
    by (simp add: serve_boot_def demo_serve_deps_def demo_specs_def default_EnvSpec_def serve_db_config_def
        NewDBClient_def start_replica_def start_authorizer_def start_validator_def start_verifier_def NewWorkerPool_def Let_def)
  obtain r w' sent where call: "serve_stream rs quiet_env demo_codec ?fm demo_stream ?w = Some (r, (w', sent))"
    by (cases "serve_stream rs quiet_env demo_codec ?fm demo_stream ?w") (auto simp: serve_stream_def dispatch_mapping method_names)
  have off: "\<not> es_AuthenticationEnabled ?specs" and time: "es_StreamTimeout ?specs = 30000000000" by (simp_all add: demo_specs_def default_EnvSpec_def)
  from mapping_calls_end_to_end [OF boot call] off have "rs_verify rs ''token'' = Inr True" by (simp add: NoopVerifier_def)
  moreover have "gs_md demo_stream = Some ((''Bearer '' @ ''token'') # [])" by (simp add: demo_stream_def)
  ultimately have acc: "\<exists>t vs. gs_md demo_stream = Some ((''Bearer '' @ t) # vs) \<and> rs_verify rs t = Inr True" by blast
  note facts = mapping_calls_end_to_end [OF boot call, unfolded if_P [OF acc] time]
  have "\<forall>sent. gs_send demo_stream sent = None" by (simp add: demo_stream_def)
  moreover have "valid_request demo_codec ?fm demo_stream" "mapping_answer quiet_env demo_codec ?fm demo_stream (read_tables ?w) = [UserMsg ''ann'']"
    by (simp_all add: valid_request_def mapping_answer_def method_names RecvMsg_def demo_codec_def demo_stream_def GetUsersInGroupReq_GetGroupId_def
        GetUsersInGroupReq_GetTenantId_def users_answer_def read_tables_def world_of_def demo_tables_def by_collation_def)
  ultimately have "r = Inr ()" "sent = [UserMsg ''ann'']" using facts(1) by simp_all
  with boot call show ?thesis by blast
qed

end
