(* ===== verification/Responses.thy ===== *)
theory Responses
  imports GroupsApi
begin

text \<open>
  What a handler writes and what becomes of its transaction (\<^verbatim>\<open>internal/db/middleware.go\<close>). The other theories see a handler as
  a function to a status and a body. In the code it calls methods of a response writer, may call them several times, and may
  panic; the transaction middleware hands it a \<open>responseWriter\<close> that remembers the last status, while the client sees
  the first. This theory models the writer and the middleware at that level, and shows when the other view is right.
\<close>

section \<open>Writers\<close>

datatype writer_call = HeaderCall nat | WriteCall string

record responseWriter =
  rw_ResponseWriter :: "writer_call list"
  rw_statusCode :: nat

definition WriteHeader :: "nat \<Rightarrow> responseWriter \<Rightarrow> responseWriter" where
  "WriteHeader code rw = rw\<lparr>rw_statusCode := code, rw_ResponseWriter := rw_ResponseWriter rw @ [HeaderCall code]\<rparr>"

text \<open>\<open>Write\<close> is the method of the embedded writer.\<close>

definition rw_Write :: "string \<Rightarrow> responseWriter \<Rightarrow> responseWriter" where
  "rw_Write b rw = rw\<lparr>rw_ResponseWriter := rw_ResponseWriter rw @ [WriteCall b]\<rparr>"

fun rw_call :: "writer_call \<Rightarrow> responseWriter \<Rightarrow> responseWriter" where
  "rw_call (HeaderCall code) rw = WriteHeader code rw"
| "rw_call (WriteCall b) rw = rw_Write b rw"

definition rw_calls :: "writer_call list \<Rightarrow> responseWriter" where
  "rw_calls ws = fold rw_call ws \<lparr>rw_ResponseWriter = [], rw_statusCode = http_StatusOK\<rparr>"

text \<open>What \<open>net/http\<close> sends: the first status that is not an informational one, 200 if the body comes first or nothing at all.\<close>

definition informational :: "nat \<Rightarrow> bool" where
  "informational code \<longleftrightarrow> 100 \<le> code \<and> code < 200 \<and> code \<noteq> 101"

fun sent_status :: "writer_call list \<Rightarrow> nat" where
  "sent_status [] = http_StatusOK"
| "sent_status (WriteCall b # ws) = http_StatusOK"
| "sent_status (HeaderCall code # ws) = (if informational code then sent_status ws else code)"

fun sent_body :: "writer_call list \<Rightarrow> string" where
  "sent_body [] = []"
| "sent_body (WriteCall b # ws) = b @ sent_body ws"
| "sent_body (HeaderCall code # ws) = sent_body ws"

section \<open>The middleware\<close>

text \<open>A handler with its effects: what it calls on its writer, whether it panics after that, and the state it leaves.\<close>

type_synonym serving = "ctx \<Rightarrow> world \<Rightarrow> (writer_call list \<times> bool) \<times> world"

text \<open>A panic leaves \<open>WithTx\<close> through its deferred function, which rolls back what an error return would roll back; it then goes on.\<close>

definition TransactionMiddleware_writes :: "env \<Rightarrow> string \<Rightarrow> serving \<Rightarrow> serving" where
  "TransactionMiddleware_writes env meth handler c w =
     (if meth = ''GET'' \<or> meth = ''HEAD'' then handler (contextWithReadOnly c) w
      else
        (case WithTx env c
           (\<lambda>txCtx w0. case handler txCtx w0 of ((ws, panics), w1) \<Rightarrow>
              let rw = rw_calls ws in
              ((if panics then Some (ErrorNew ''panic'')
                else if 400 \<le> rw_statusCode rw then Some (ErrorNew (''request failed with status '' @ decimal (rw_statusCode rw)))
                else None, (rw_ResponseWriter rw, panics)), w1)) w
         of ((err, resp), w') \<Rightarrow> (resp, w')))"

section \<open>The writer\<close>

lemma rw_calls_inner [simp]: "rw_ResponseWriter (rw_calls ws) = ws"
proof -
  have "rw_ResponseWriter (fold rw_call ws rw) = rw_ResponseWriter rw @ ws" for rw
    by (induction ws arbitrary: rw rule: sent_body.induct) (simp_all add: WriteHeader_def rw_Write_def)
  then show ?thesis by (simp add: rw_calls_def)
qed

text \<open>The recorded status is that of the last call.\<close>

fun last_status :: "nat \<Rightarrow> writer_call list \<Rightarrow> nat" where
  "last_status s [] = s"
| "last_status s (HeaderCall code # ws) = last_status code ws"
| "last_status s (WriteCall b # ws) = last_status s ws"

lemma rw_calls_status: "rw_statusCode (rw_calls ws) = last_status http_StatusOK ws"
proof -
  have "rw_statusCode (fold rw_call ws rw) = last_status (rw_statusCode rw) ws" for rw
    by (induction ws arbitrary: rw rule: sent_body.induct) (simp_all add: WriteHeader_def rw_Write_def)
  then show ?thesis by (simp add: rw_calls_def)
qed

text \<open>A handler behaves if it sets the status once, before the body, and not to an informational one.\<close>

definition behaves :: "writer_call list \<Rightarrow> bool" where
  "behaves ws \<longleftrightarrow> (\<exists>bs. ws = map WriteCall bs \<or> (\<exists>code. \<not> informational code \<and> ws = HeaderCall code # map WriteCall bs))"

lemma last_status_body [simp]: "last_status s (map WriteCall bs) = s"
  by (induction bs) simp_all

lemma sent_status_body [simp]: "sent_status (map WriteCall bs) = http_StatusOK"
  by (cases bs) simp_all

lemma behaves_status: "behaves ws \<Longrightarrow> rw_statusCode (rw_calls ws) = sent_status ws"
  by (auto simp: behaves_def rw_calls_status)

section \<open>The two views of a handler\<close>

text \<open>A handler as the rest of the development sees it: the recorded status decides, and a panic counts as a failure.\<close>

definition recorded :: "serving \<Rightarrow> (writer_call list \<times> bool) http_handler" where
  "recorded handler c w =
     (case handler c w of ((ws, panics), w1) \<Rightarrow>
        ((if panics then 500 else rw_statusCode (rw_calls ws), ws, panics), w1))"

lemma middleware_recorded:
  "TransactionMiddleware_writes env meth handler c w =
     (case TransactionMiddleware env meth (recorded handler) c w of ((st, out), w') \<Rightarrow> (out, w'))"
proof (cases "meth = ''GET'' \<or> meth = ''HEAD''")
  case True
  then show ?thesis
    by (auto simp: TransactionMiddleware_writes_def TransactionMiddleware_def recorded_def split: prod.splits)
next
  case False
  obtain ws p w1 where h: "handler (c\<lparr>ctx_lazy := True\<rparr>) (w\<lparr>w_lazyTx := None\<rparr>) = ((ws, p), w1)"
    by (metis prod.exhaust)
  show ?thesis
    unfolding TransactionMiddleware_writes_def TransactionMiddleware_def WithTx_def if_not_P [OF False]
    by (simp add: h recorded_def Let_def split: option.split)
qed

locale writing_handler =
  fixes env :: env and handler :: serving
  assumes serving_keeps: "keeps env c (handler c)"
begin

lemma recorded_keeps: "keeps env c (recorded handler c)"
  by (rule keeps_snd [OF serving_keeps]) (auto simp: recorded_def split: prod.splits)

end

sublocale writing_handler \<subseteq> view: framed_handler env "recorded handler"
  by unfold_locales (rule recorded_keeps)

section \<open>What the gateway writes\<close>

text \<open>
  The gateway marshals an answer into the body, after a status only when the answer is an error; \<open>marshal\<close> is its
  marshaler. Every handler that writes to the database runs under the middleware in this form.
\<close>

definition gateway_calls :: "('a rpc \<Rightarrow> string) \<Rightarrow> nat \<times> 'a rpc \<Rightarrow> writer_call list" where
  "gateway_calls marshal resp =
     (case snd resp of
        Inl st \<Rightarrow> [HeaderCall (fst resp), WriteCall (marshal (Inl st))]
      | Inr x \<Rightarrow> [WriteCall (marshal (Inr x))])"

definition gateway_writes ::
  "('a rpc \<Rightarrow> string) \<Rightarrow> (grpc_code \<Rightarrow> nat) \<Rightarrow> (ctx \<Rightarrow> world \<Rightarrow> 'a rpc \<times> world) \<Rightarrow> serving" where
  "gateway_writes marshal hs op c w = (case gateway hs op c w of (resp, w1) \<Rightarrow> ((gateway_calls marshal resp, False), w1))"

lemma keeps_gateway_writes: "keeps env c (op c) \<Longrightarrow> keeps env c (gateway_writes marshal hs op c)"
  by (drule keeps_gateway [where hs = hs], erule keeps_snd) (auto simp: gateway_writes_def split: prod.splits)

interpretation wcreate: writing_handler env "gateway_writes marshal hs (grpc_CreateGroup env req)" for env marshal hs req
  by unfold_locales (rule keeps_gateway_writes, rule keeps_intros)

interpretation wupdate: writing_handler env "gateway_writes marshal hs (grpc_UpdateGroup env gid req)" for env marshal hs gid req
  by unfold_locales (rule keeps_gateway_writes, rule keeps_intros)

interpretation wsetGroups: writing_handler env "gateway_writes marshal hs (grpc_AddUserToGroups env u gids)"
  for env marshal hs u gids
  by unfold_locales (rule keeps_gateway_writes, rule keeps_grpc)

lemma gateway_calls_status:
  assumes "error_statuses hs" and "gateway hs op c w = (resp, w1)"
  shows "rw_statusCode (rw_calls (gateway_calls marshal resp)) = fst resp" "behaves (gateway_calls marshal resp)"
proof -
  have st: "\<not> informational (hs code)" for code
  proof -
    have "400 \<le> hs code" using assms(1) by (simp add: error_statuses_def)
    then show ?thesis by (simp add: informational_def)
  qed
  have one: "\<exists>bs. [WriteCall b] = map WriteCall bs" for b by (rule exI [of _ "[b]"]) simp
  show "rw_statusCode (rw_calls (gateway_calls marshal resp)) = fst resp"
    using assms(2) by (auto simp: gateway_def gateway_calls_def rw_calls_status split: prod.splits sum.splits)
  from assms(2) one st show "behaves (gateway_calls marshal resp)"
    by (auto simp: gateway_def gateway_calls_def behaves_def ex_disj_distrib split: prod.splits sum.splits)
qed

text \<open>The two views agree on every handler behind the gateway: the same end state, and the calls say what the answer says.\<close>

lemma gateway_views_agree:
  assumes hs: "error_statuses hs"
  shows "TransactionMiddleware_writes env meth (gateway_writes marshal hs op) c w =
    (case TransactionMiddleware env meth (gateway hs op) c w of (resp, w') \<Rightarrow> ((gateway_calls marshal resp, False), w'))"
proof -
  have rec: "recorded (gateway_writes marshal hs op) c' w0 =
      (case gateway hs op c' w0 of (resp, w1) \<Rightarrow> ((fst resp, gateway_calls marshal resp, False), w1))" for c' w0
  proof -
    obtain resp w1 where g: "gateway hs op c' w0 = (resp, w1)" by (cases "gateway hs op c' w0")
    from gateway_calls_status(1) [OF hs g] show ?thesis by (simp add: recorded_def gateway_writes_def g)
  qed
  obtain resp w1 where h: "gateway hs op (c\<lparr>ctx_lazy := True\<rparr>) (w\<lparr>w_lazyTx := None\<rparr>) = (resp, w1)" by fastforce
  obtain resp' w1' where h': "gateway hs op (contextWithReadOnly c) w = (resp', w1')" by fastforce
  show ?thesis
    unfolding middleware_recorded TransactionMiddleware_def WithTx_def
    by (simp add: rec h h' [simplified] Let_def split: option.split)
qed

section \<open>The property\<close>


definition demo_serving :: serving where
  "demo_serving = gateway_writes (\<lambda>r. ''{}'') default_http_status (grpc_AddUserToGroups quiet_env ''ann'' [''g2''])"

lemma demo_serving_writes: "writing_handler quiet_env demo_serving"
  unfolding demo_serving_def by (rule wsetGroups.writing_handler_axioms)

lemma demo_serving_runs:
  "(case demo_serving (background\<lparr>ctx_lazy := True\<rparr>) ((world_of demo_tables)\<lparr>w_lazyTx := None\<rparr>) of ((ws, p), w1) \<Rightarrow>
      ws = [WriteCall ''{}''] \<and> \<not> p \<and>
      (case w_lazyTx w1 of None \<Rightarrow> False
       | Some t \<Rightarrow> \<not> tx_aborted t \<and> map (\<lambda>m. (gm_group_id m, gm_user_id m)) (t_members (tx_tables t)) = [(''g2'', ''ann'')]))"
  by code_simp


end
