(* ===== verification/AuthLog.thy ===== *)
theory AuthLog
  imports Authentication Logging
begin

text \<open>
  Authentication with its log (\<^verbatim>\<open>pkg/authentication\<close> over \<^verbatim>\<open>internal/logging\<close>): the verifier, the HTTP middleware and the
  stream interceptor as in theory \<open>Authentication\<close>, with the logger they write to as part of the state, and the audit
  trail they leave. Forgetting the logger gives the operations of theory \<open>Authentication\<close>.
\<close>

section \<open>Operations with a logger\<close>

definition Debugf :: "string \<Rightarrow> Logger \<Rightarrow> Logger" where
  "Debugf msg lg = lg\<lparr>lg_service := zap_log DebugLevel msg [] (lg_service lg)\<rparr>"

definition Security_AuthzFailure :: "string \<Rightarrow> string \<Rightarrow> Logger \<Rightarrow> Logger" where
  "Security_AuthzFailure user resource lg = lg\<lparr>lg_security := AuthzFailure user resource [] (lg_security lg)\<rparr>"

definition VerifyToken_logged :: "'tok JWTVerifier \<Rightarrow> string \<Rightarrow> Logger \<Rightarrow> bool res \<times> Logger" where
  "VerifyToken_logged v rawToken lg =
     (case jv_Verify v rawToken of
        Inl err \<Rightarrow> (Inl err, lg)
      | Inr token \<Rightarrow>
          (case jv_Claims v token of
             Inl err \<Rightarrow> (Inl err, Debugf (''Failed to extract claims: '' @ Error err) lg)
           | Inr claims \<Rightarrow>
               if length (jv_allowedSubjects v) > 0 \<and> tc_Subject claims \<in> set (jv_allowedSubjects v) then (Inr True, lg)
               else if jv_requiredScope v \<noteq> [] \<and> tc_Scope claims \<noteq> [] \<and> jv_requiredScope v \<in> set (Fields (tc_Scope claims))
               then (Inr True, lg)
               else if jv_requiredScope v \<noteq> [] \<and> jv_requiredScope v \<in> set (tc_Scopes claims) then (Inr True, lg)
               else if length (jv_allowedSubjects v) = 0 \<and> jv_requiredScope v = [] then
                 (Inr False, Security_AuthzFailure (tc_Subject claims) ''jwt_api_access''
                    (Debugf ''No authorization criteria configured'' lg))
               else (Inr False, Security_AuthzFailure (tc_Subject claims) ''jwt_api_access'' lg)))"

definition Authenticate_logged ::
  "(string \<Rightarrow> Logger \<Rightarrow> bool res \<times> Logger) \<Rightarrow> string \<Rightarrow> 'b http_handler \<Rightarrow> ctx \<Rightarrow> world \<times> Logger \<Rightarrow>
   (nat \<times> (json + 'b)) \<times> (world \<times> Logger)" where
  "Authenticate_logged verify header next c wl =
     (let (w, lg) = wl; refuse = (\<lambda>message lg1. case unauthorizedResponse message w of (resp, w1) \<Rightarrow> (resp, (w1, lg1))) in
      case getBearerToken header of
        None \<Rightarrow> refuse ''missing authorization header'' lg
      | Some token \<Rightarrow>
          (case verify token lg of
             (Inl err, lg1) \<Rightarrow> refuse ''invalid token'' (Debugf (''JWT verification failed: '' @ Error err) lg1)
           | (Inr authorized, lg1) \<Rightarrow>
               if \<not> authorized then refuse ''unauthorized'' lg1
               else (case next c w of ((code, b), w1) \<Rightarrow> ((code, Inr b), (w1, lg1)))))"

definition StreamAuthenticate_logged ::
  "(string \<Rightarrow> Logger \<Rightarrow> bool res \<times> Logger) \<Rightarrow> string list option \<Rightarrow> ('st \<Rightarrow> 'a rpc \<times> 'st) \<Rightarrow> 'st \<times> Logger \<Rightarrow>
   'a rpc \<times> ('st \<times> Logger)" where
  "StreamAuthenticate_logged verify md handler sl =
     (let (st, lg) = sl in
      case md of
        None \<Rightarrow> (Inl (status_Errorf Unauthenticated ''missing metadata''), (st, lg))
      | Some values \<Rightarrow>
          (case values of
             [] \<Rightarrow> (Inl (status_Errorf Unauthenticated ''missing authorization header''), (st, lg))
           | bearer # _ \<Rightarrow>
               if \<not> HasPrefix bearer ''Bearer '' then (Inl (status_Errorf Unauthenticated ''invalid authorization format''), (st, lg))
               else
                 (case verify (TrimPrefix bearer ''Bearer '') lg of
                    (Inl err, lg1) \<Rightarrow>
                      (Inl (status_Errorf Unauthenticated ''invalid token''),
                       (st, Debugf (''gRPC JWT verification failed: '' @ Error err) lg1))
                  | (Inr authorized, lg1) \<Rightarrow>
                      if \<not> authorized then (Inl (status_Errorf Unauthenticated ''unauthorized''), (st, lg1))
                      else (case handler st of (r, st1) \<Rightarrow> (r, (st1, lg1))))))"

section \<open>Forgetting the logger\<close>

lemma VerifyToken_forget: "fst (VerifyToken_logged v raw lg) = VerifyToken v raw"
  by (simp add: VerifyToken_logged_def VerifyToken_def split: sum.splits)

lemma Authenticate_forget:
  assumes "\<And>t lg. fst (verify' t lg) = verify t"
  shows "case Authenticate_logged verify' header next c (w, lg) of (resp, (w1, lg1)) \<Rightarrow>
    Authenticate verify header next c w = (resp, w1)"
proof (cases "getBearerToken header")
  case None
  then show ?thesis by (simp add: Authenticate_logged_def Authenticate_def unauthorizedResponse_def)
next
  case (Some t)
  obtain q lg1 where "verify' t lg = (q, lg1)" by fastforce
  with assms [of t lg] Some show ?thesis
    by (cases q) (auto simp: Authenticate_logged_def Authenticate_def unauthorizedResponse_def split: prod.splits sum.splits if_splits)
qed

lemma StreamAuthenticate_forget:
  assumes "\<And>t lg. fst (verify' t lg) = verify t"
  shows "case StreamAuthenticate_logged verify' md handler (st, lg) of (r, (st1, lg1)) \<Rightarrow>
    StreamAuthenticate verify md handler st = (r, st1)"
proof (cases "\<exists>b vs. md = Some (b # vs) \<and> HasPrefix b ''Bearer ''")
  case True
  then obtain b vs where md: "md = Some (b # vs)" "HasPrefix b ''Bearer ''" by blast
  obtain q lg1 where "verify' (TrimPrefix b ''Bearer '') lg = (q, lg1)" by fastforce
  with assms [of "TrimPrefix b ''Bearer ''" lg] md show ?thesis
    by (cases q) (auto simp: StreamAuthenticate_logged_def StreamAuthenticate_def split: prod.splits sum.splits if_splits)
next
  case False
  then show ?thesis
    by (auto simp: StreamAuthenticate_logged_def StreamAuthenticate_def split: option.splits list.splits)
qed

section \<open>The audit trail\<close>

text \<open>An access to the management APIs, with what it offers as credentials.\<close>

datatype access = HttpAccess string | StreamAccess "string list option"

definition presented :: "access \<Rightarrow> string option" where
  "presented a =
     (case a of
        HttpAccess header \<Rightarrow> getBearerToken header
      | StreamAccess md \<Rightarrow>
          (case md of
             Some (bearer # _) \<Rightarrow> if HasPrefix bearer ''Bearer '' then Some (TrimPrefix bearer ''Bearer '') else None
           | _ \<Rightarrow> None))"

text \<open>The subject of a token that the library accepts and that meets neither criterion.\<close>

definition refused_subject :: "'tok JWTVerifier \<Rightarrow> access \<Rightarrow> string option" where
  "refused_subject v a =
     (case presented a of
        None \<Rightarrow> None
      | Some t \<Rightarrow>
          (case jv_Verify v t of
             Inl e \<Rightarrow> None
           | Inr tok \<Rightarrow>
               (case jv_Claims v tok of
                  Inl e \<Rightarrow> None
                | Inr cl \<Rightarrow> if VerifyToken v t = Inr True then None else Some (tc_Subject cl))))"

definition audit_line :: "string \<Rightarrow> log_line" where
  "audit_line subject =
     \<lparr>ln_level = ''CRITICAL'',
      ln_description = ''User '' @ subject @ '' attempted to access resource jwt_api_access without entitlement'',
      ln_fields = [(''appid'', ''identity_platform.hook_service''), (''type'', ''security''),
                   (''event'', ''authz_fail:'' @ subject @ '',jwt_api_access'')]\<rparr>"

text \<open>One access, with the handlers behind the middleware and the interceptor, on the database, the state of the stream
  handler and the logger.\<close>

definition run_access ::
  "'tok JWTVerifier \<Rightarrow> 'b http_handler \<Rightarrow> ('st \<Rightarrow> 'a rpc \<times> 'st) \<Rightarrow> ctx \<Rightarrow> access \<Rightarrow> world \<times> 'st \<times> Logger \<Rightarrow> world \<times> 'st \<times> Logger" where
  "run_access v next handler c a wsl =
     (case wsl of (w, st, lg) \<Rightarrow>
        (case a of
           HttpAccess header \<Rightarrow>
             (case Authenticate_logged (VerifyToken_logged v) header next c (w, lg) of (resp, (w1, lg1)) \<Rightarrow> (w1, st, lg1))
         | StreamAccess md \<Rightarrow>
             (case StreamAuthenticate_logged (VerifyToken_logged v) md handler (st, lg) of (r, (st1, lg1)) \<Rightarrow> (w, st1, lg1))))"

text \<open>A security logger as the service makes it.\<close>

definition security_logger :: "zap_logger \<Rightarrow> bool" where
  "security_logger z \<longleftrightarrow> (\<exists>l. zl_level z = Some l) \<and> zl_encode z = levelEncoder
     \<and> zl_context z = [(''appid'', APP_ID), (''type'', ''security'')]"

lemma AuthzFailure_audit:
  assumes "security_logger z"
  shows "AuthzFailure subject ''jwt_api_access'' [] z = z\<lparr>zl_out := zl_out z @ [audit_line subject]\<rparr>"
proof -
  from assms obtain l where "zl_level z = Some l" by (auto simp: security_logger_def)
  moreover have "level_num l \<le> 3" by (cases l) simp_all
  ultimately show ?thesis using assms
    by (simp add: AuthzFailure_def zap_log_def security_logger_def audit_line_def levelEncoder_def APP_ID_def)
qed

lemma lg_security_Debugf [simp]: "lg_security (Debugf msg lg) = lg_security lg"
  by (simp add: Debugf_def)

text \<open>The verifier writes the line of a refused token.\<close>

lemma VerifyToken_audit:
  assumes "security_logger (lg_security lg)" "VerifyToken_logged v t lg = (r, lg1)"
  shows "lg_security lg1 = (lg_security lg)\<lparr>zl_out := zl_out (lg_security lg) @
    (case jv_Verify v t of Inl e \<Rightarrow> [] | Inr tok \<Rightarrow> (case jv_Claims v tok of Inl e \<Rightarrow> []
       | Inr cl \<Rightarrow> if VerifyToken v t = Inr True then [] else [audit_line (tc_Subject cl)]))\<rparr>"
  using assms(2) AuthzFailure_audit [OF assms(1)]
  by (auto simp: VerifyToken_logged_def VerifyToken_def Security_AuthzFailure_def split: sum.splits if_splits)

lemma Authenticate_log:
  "snd (snd (Authenticate_logged verify header next c (w, lg))) =
     (case getBearerToken header of None \<Rightarrow> lg
      | Some t \<Rightarrow> (case verify t lg of (Inl err, lg1) \<Rightarrow> Debugf (''JWT verification failed: '' @ Error err) lg1 | (Inr b, lg1) \<Rightarrow> lg1))"
  by (auto simp: Authenticate_logged_def unauthorizedResponse_def split: option.splits prod.splits sum.splits)

lemma StreamAuthenticate_log:
  "snd (snd (StreamAuthenticate_logged verify md handler (st, lg))) =
     (case presented (StreamAccess md) of None \<Rightarrow> lg
      | Some t \<Rightarrow> (case verify t lg of (Inl err, lg1) \<Rightarrow> Debugf (''gRPC JWT verification failed: '' @ Error err) lg1 | (Inr b, lg1) \<Rightarrow> lg1))"
  by (auto simp: StreamAuthenticate_logged_def presented_def split: option.splits list.splits prod.splits sum.splits)

lemma run_access_audit:
  assumes "security_logger (lg_security lg)"
  shows "\<exists>w1 st1 lg1. run_access v next handler c a (w, st, lg) = (w1, st1, lg1)
    \<and> lg_security lg1 = (lg_security lg)\<lparr>zl_out := zl_out (lg_security lg) @
        (case refused_subject v a of None \<Rightarrow> [] | Some s \<Rightarrow> [audit_line s])\<rparr>"
proof -
  obtain w1 st1 lg1 where run: "run_access v next handler c a (w, st, lg) = (w1, st1, lg1)" by (metis prod.exhaust)
  have "\<exists>pre. lg1 = (case presented a of None \<Rightarrow> lg
      | Some t \<Rightarrow> (case VerifyToken_logged v t lg of (Inl err, lg2) \<Rightarrow> Debugf (pre @ Error err) lg2 | (Inr b, lg2) \<Rightarrow> lg2))"
  proof (cases a)
    case (HttpAccess header)
    with run Authenticate_log [of "VerifyToken_logged v" header "next" c w lg] show ?thesis
      by (intro exI [of _ "''JWT verification failed: ''"]) (simp add: run_access_def presented_def split_beta)
  next
    case (StreamAccess md)
    with run StreamAuthenticate_log [of "VerifyToken_logged v" md handler st lg] show ?thesis
      by (intro exI [of _ "''gRPC JWT verification failed: ''"]) (simp add: run_access_def split_beta)
  qed
  then obtain pre where lg1: "lg1 = (case presented a of None \<Rightarrow> lg
      | Some t \<Rightarrow> (case VerifyToken_logged v t lg of (Inl err, lg2) \<Rightarrow> Debugf (pre @ Error err) lg2 | (Inr b, lg2) \<Rightarrow> lg2))" by blast
  show ?thesis
  proof (cases "presented a")
    case (Some t)
    obtain r lg2 where v: "VerifyToken_logged v t lg = (r, lg2)" by fastforce
    with lg1 Some have "lg_security lg1 = lg_security lg2" by (cases r) simp_all
    with VerifyToken_audit [OF assms v] run Some show ?thesis
      by (auto simp: refused_subject_def split: sum.splits)
  qed (use run lg1 in \<open>simp add: refused_subject_def\<close>)
qed

text \<open>C28: every refused user leaves a trace and nobody else does. For any sequence of HTTP requests and gRPC streams, any
  handlers and any configured level, the security log has one critical line for each access whose token the library
  accepts and the service does not authorize, in order and with the token's subject; accesses without a genuine token
  and authorized ones leave none.\<close>
theorem refusals_are_audited:
  "zl_out (lg_security (snd (snd (fold (run_access v next handler c) as (w, st, NewLogger l))))) =
     map audit_line (List.map_filter (refused_subject v) as)"
proof -
  have "zl_out (lg_security (snd (snd (fold (run_access v next handler c) as (w, st, lg))))) =
      zl_out (lg_security lg) @ map audit_line (List.map_filter (refused_subject v) as)"
    if "security_logger (lg_security lg)" for w st lg
    using that
  proof (induction as arbitrary: w st lg)
    case (Cons a as)
    from run_access_audit [OF Cons.prems, of v "next" handler c a w st] obtain w1 st1 lg1 where
      step: "run_access v next handler c a (w, st, lg) = (w1, st1, lg1)" and
      sec: "lg_security lg1 = (lg_security lg)\<lparr>zl_out := zl_out (lg_security lg) @
        (case refused_subject v a of None \<Rightarrow> [] | Some s \<Rightarrow> [audit_line s])\<rparr>" by blast
    from sec Cons.prems have "security_logger (lg_security lg1)" by (simp add: security_logger_def)
    from Cons.IH [OF this, of w1 st1] step sec show ?case
      by (simp add: List.map_filter_simps split: option.splits)
  qed (simp add: List.map_filter_simps)
  from this [of "NewLogger l" w st] show ?thesis
    by (simp add: security_logger_def NewLogger_def NewSecurityLogger_def)
qed

end
