(* ===== verification/ImportRun.thy ===== *)
theory ImportRun
  imports Importer
begin

text \<open>
  The additive import (\<open>Importer.Run\<close>, \<^verbatim>\<open>internal/importer/importer.go\<close>). \<open>Run\<close> needs more of its store than
  \<open>Sync\<close>: it looks groups up by name, and takes a failed lookup for a missing group. The locale
  \<open>named_group_store\<close> adds these laws to \<open>group_store\<close> and is interpreted on the storage layer; what \<open>Run\<close>
  does to the groups is proved in it once.
\<close>

section \<open>Stores with names\<close>

text \<open>How the view of a group may change: an existing group keeps its identifier and its members and gets new ones out
  of the given users only; a missing group stays missing or is created with some of them.\<close>

definition grown :: "string set \<Rightarrow> (string \<times> string set) option \<Rightarrow> (string \<times> string set) option \<Rightarrow> bool" where
  "grown us v v' =
     (case v of
        Some (i, ms) \<Rightarrow> (\<exists>ms'. v' = Some (i, ms') \<and> ms \<subseteq> ms' \<and> ms' \<subseteq> ms \<union> us)
      | None \<Rightarrow> (\<forall>i ms'. v' = Some (i, ms') \<longrightarrow> ms' \<subseteq> us))"

lemma grown_refl [simp]: "grown us v v"
  by (simp add: grown_def split: option.splits)

locale named_group_store = group_store +
  assumes finding: "inv w \<Longrightarrow> so_GetGroupByName st n DefaultTenantID w = (rg, w') \<Longrightarrow>
      inv w' \<and> view w' = view w \<and> perms w' = perms w"
    and found: "inv w \<Longrightarrow> so_GetGroupByName st n DefaultTenantID w = (Inr g, w') \<Longrightarrow>
      map_option fst (view w n) = Some (g_ID g)"
    and keeping: "inv w \<Longrightarrow> so_CreateGroup st (imported_group n) w = (rg, w') \<Longrightarrow> view w n = Some v \<Longrightarrow>
      view w' n = Some v \<and> \<not> is_ok rg"
    and created_empty: "inv w \<Longrightarrow> so_CreateGroup st (imported_group n) w = (Inl e, w') \<Longrightarrow>
      view w' n = view w n \<or> (\<exists>i. view w' n = Some (i, {}))"
begin

lemma add_round:
  assumes I: "inv w" and v: "view w n = Some (i, ms)" and a: "so_AddUsersToGroup st i us w = (ru, w')"
  shows "inv w' \<and> perms w' = perms w \<and> (\<forall>m. m \<noteq> n \<longrightarrow> view w' m = view w m)
    \<and> (\<exists>ms'. view w' n = Some (i, ms') \<and> ms \<subseteq> ms' \<and> ms' \<subseteq> ms \<union> set us)"
  using adding [OF I v a] by auto

text \<open>One group of the import, whatever goes wrong.\<close>

lemma run_round:
  assumes I: "inv w" and r: "run_loop st ((n, us) # gs) k w = res"
  obtains k1 w1 where "run_loop st gs k1 w1 = res" "inv w1" "perms w1 = perms w"
    "\<forall>m. m \<noteq> n \<longrightarrow> view w1 m = view w m" "grown (set us) (view w n) (view w1 n)"
proof -
  obtain q w1 where q: "so_GetGroupByName st n DefaultTenantID w = (q, w1)" by fastforce
  note F = finding [OF I q]
  then have I1: "inv w1" by simp
  show thesis
  proof (cases q)
    case (Inr g)
    from found [OF I q [unfolded Inr]] obtain ms where v: "view w1 n = Some (g_ID g, ms)" using F by auto
    obtain a w2 where a: "so_AddUsersToGroup st (g_ID g) us w1 = (a, w2)" by fastforce
    note A = add_round [OF I1 v a]
    have "run_loop st gs (if is_ok a then k + 1 else k) w2 = res" using r q Inr a by (cases a) simp_all
    with that A F v show thesis by (simp add: grown_def)
  next
    case (Inl err)
    obtain c w2 where c: "so_CreateGroup st (imported_group n) w1 = (c, w2)" by fastforce
    note C = creating [OF I1 c]
    then have I2: "inv w2" by simp
    show thesis
    proof (cases c)
      case (Inl e)
      have "grown (set us) (view w n) (view w2 n)"
      proof (cases "view w1 n")
        case None
        with created_empty [OF I1 c [unfolded Inl]] F show ?thesis by (auto simp: grown_def)
      next
        case (Some v)
        with keeping [OF I1 c Some] F show ?thesis by simp
      qed
      with that [of k w2] r q \<open>q = Inl err\<close> c Inl C F show thesis by simp
    next
      case (Inr g)
      have none: "view w1 n = None" using keeping [OF I1 c] Inr by (cases "view w1 n") auto
      from created [OF I1 c [unfolded Inr]] have v: "view w2 n = Some (g_ID g, {})" .
      obtain a w3 where a: "so_AddUsersToGroup st (g_ID g) us w2 = (a, w3)" by fastforce
      note A = add_round [OF I2 v a]
      have "run_loop st gs (if is_ok a then k + 1 else k) w3 = res" using r q \<open>q = Inl err\<close> c Inr a by (cases a) simp_all
      moreover have "grown (set us) (view w n) (view w3 n)" using A none F by (auto simp: grown_def)
      ultimately show thesis using that [of "if is_ok a then k + 1 else k" w3] A C F by simp
    qed
  qed
qed

lemma run_loop_spec:
  assumes "inv w" "distinct (map fst gs)" "run_loop st gs k w = (k', w')"
  shows "inv w' \<and> perms w' = perms w \<and> (\<forall>m. m \<notin> fst ` set gs \<longrightarrow> view w' m = view w m)
    \<and> (\<forall>(n, us) \<in> set gs. grown (set us) (view w n) (view w' n))"
  using assms
proof (induction gs arbitrary: k w)
  case (Cons e gs)
  obtain n us where e: "e = (n, us)" by fastforce
  from run_round [OF Cons.prems(1) Cons.prems(3) [unfolded e]] obtain k1 w1
    where rest: "run_loop st gs k1 w1 = (k', w')" and w1: "inv w1" "perms w1 = perms w" "\<forall>m. m \<noteq> n \<longrightarrow> view w1 m = view w m"
      "grown (set us) (view w n) (view w1 n)" by blast
  from Cons.prems(2) e have n: "n \<notin> fst ` set gs" and d: "distinct (map fst gs)" by auto
  note IH = Cons.IH [OF w1(1) d rest]
  have "grown (set vs) (view w m) (view w' m)" if "(m, vs) \<in> set gs" for m vs
  proof -
    from that n have "m \<noteq> n" by force
    with IH w1(3) that show ?thesis by fastforce
  qed
  with IH w1 e n show ?case by auto
qed simp

end

section \<open>The database is such a store\<close>

lemma GetGroupByName_same:
  assumes "GetGroupByName env background n t w = (r, w')"
  shows "w_primary w' = w_primary w"
proof -
  let ?q = "db_query env background (\<lambda>tb. filter (\<lambda>r. gr_name r = n \<and> gr_tenant_id r = (if t = [] then DefaultTenantID else t)) (t_groups tb)) w"
  obtain q w1 where q: "?q = (q, w1)" by fastforce
  from arg_cong [OF assms, of snd] q have "w' = w1" by (simp add: GetGroupByName_def)
  moreover have "readable background" by simp
  ultimately show ?thesis using db_query_target [OF _ q] by simp
qed

lemma GetGroupByName_Inr:
  assumes "GetGroupByName env background n DefaultTenantID w = (Inr g, w')"
  shows "\<exists>r \<in> set (t_groups (w_primary w)). gr_name r = n \<and> g = scanGroup r"
proof -
  let ?sel = "\<lambda>tb. filter (\<lambda>r. gr_name r = n \<and> gr_tenant_id r = DefaultTenantID) (t_groups tb)"
  obtain q w1 where q: "db_query env background ?sel w = (q, w1)" by fastforce
  with assms have "one_group (q, w1) = (Inr g, w')" by (simp add: GetGroupByName_def DefaultTenantID_def)
  from one_group_Inr [OF this] obtain r rs flt where e: "q = Inr (r # rs, flt)" "g = scanGroup r" by auto
  have rd: "readable background" by simp
  from db_query_Inr [OF rd q [unfolded e(1)]] have "r \<in> set (?sel (w_primary w))" by (metis list.set_intros(1) target_background)
  with e(2) show ?thesis by auto
qed

lemma storage_keeping:
  assumes I: "import_inv w" and op: "CreateGroup env background (imported_group n) w = (rg, w')" and v: "group_view (w_primary w) n = Some v"
  shows "group_view (w_primary w') n = Some v \<and> \<not> is_ok rg"
proof -
  from CreateGroup_tables [OF writable_simps(1) op] show ?thesis
  proof (elim disjE exE conjE)
    assume "target background w' = target background w" "\<forall>g. rg \<noteq> Inr g"
    with v show ?thesis by (auto simp: is_ok_iff)
  next
    fix row
    assume tb': "target background w' = (target background w)\<lparr>t_groups := t_groups (target background w) @ [row]\<rparr>"
      and row: "gr_name row = g_Name (imported_group n)" "gr_tenant_id row = g_TenantId (imported_group n)"
    from v obtain q where q: "q \<in> set (t_groups (w_primary w))" "gr_name q = n" by (auto simp: group_view_def dest: find_name)
    with I have "gr_tenant_id q = ''default''" by (simp add: import_inv_def one_tenant_def)
    with q row have "group_name_key row = group_name_key q" by (simp add: group_name_key_def imported_group_def DefaultTenantID_def)
    moreover have "wf_world w'" using keeps_wf [OF keeps_CreateGroup op] I by (simp add: import_inv_def)
    then have "distinct (map group_name_key (t_groups (w_primary w')))"
      using wf_world_target [of w' background] by (simp add: wf_tables_def)
    ultimately show ?thesis using tb' q by auto
  qed
qed

interpretation named_database: named_group_store "storage_ops env background" "\<lambda>w. group_view (w_primary w)"
    "\<lambda>w. allowances (w_primary w)" import_inv
  for env
proof
  fix w w' n and rg :: "Group res" and g v e
  assume I: "import_inv w"
  show "import_inv w' \<and> group_view (w_primary w') = group_view (w_primary w) \<and> allowances (w_primary w') = allowances (w_primary w)"
    if "so_GetGroupByName (storage_ops env background) n DefaultTenantID w = (rg, w')"
  proof -
    from that have op: "GetGroupByName env background n DefaultTenantID w = (rg, w')" by (simp add: storage_ops_def)
    from GetGroupByName_same [OF op] I keeps_import_inv [OF I keeps_GetGroupByName op] show ?thesis by (simp add: import_inv_def)
  qed
  show "map_option fst (group_view (w_primary w) n) = Some (g_ID g)"
    if "so_GetGroupByName (storage_ops env background) n DefaultTenantID w = (Inr g, w')"
  proof -
    from that have "GetGroupByName env background n DefaultTenantID w = (Inr g, w')" by (simp add: storage_ops_def)
    from GetGroupByName_Inr [OF this] obtain r where r: "r \<in> set (t_groups (w_primary w))" "gr_name r = n" "g = scanGroup r" by blast
    then have "group_view (w_primary w) n = Some (gr_id r, {u. (gr_id r, u) \<in> memberships (w_primary w)})"
      using group_view_Some [of "w_primary w" n "gr_id r"] import_inv_wf [OF I] by blast
    with r show ?thesis by simp
  qed
  show "group_view (w_primary w') n = Some v \<and> \<not> is_ok rg"
    if "so_CreateGroup (storage_ops env background) (imported_group n) w = (rg, w')" "group_view (w_primary w) n = Some v"
    using storage_keeping [OF I, of env n rg w' v] that by (simp add: storage_ops_def)
  show "group_view (w_primary w') n = group_view (w_primary w) n \<or> (\<exists>i. group_view (w_primary w') n = Some (i, {}))"
    if "so_CreateGroup (storage_ops env background) (imported_group n) w = (Inl e, w')"
    using storage_creating [OF I, of env n "Inl e" w'] that by (simp add: storage_ops_def)
qed

text \<open>C24: an import only adds. Whatever fails on the way, and in whatever order the groups are met, \<open>Run\<close> deletes
  nothing: every group keeps its identifier and its members, new members are users the driver lists for that
  group, groups the driver does not name and all permissions stay as they are. And it reports success whenever
  the driver answered, also when nothing could be stored.\<close>
theorem Run_only_adds:
  assumes inv: "wf_world w" "one_tenant (w_primary w)" and drv: "dr_FetchAllUserGroups d = Inr ms"
    and run: "importer_Run (storage_ops env background) d rank w = (r, w')"
  shows "r = Inr () \<and> allowances (w_primary w') = allowances (w_primary w)
    \<and> (\<forall>n. case wanted (dr_Prefix d) ms n of
          None \<Rightarrow> group_view (w_primary w') n = group_view (w_primary w) n
        | Some us \<Rightarrow> grown us (group_view (w_primary w) n) (group_view (w_primary w') n))"
proof -
  let ?gs = "map_order rank (group_users (dr_Prefix d) [] ms)"
  from inv have I: "import_inv w" by (simp add: import_inv_def)
  obtain k w1 where loop: "run_loop (storage_ops env background) ?gs 0 w = (k, w1)" by fastforce
  with run drv have r: "r = Inr ()" "w1 = w'" by (simp_all add: importer_Run_def)
  have "distinct (map fst ?gs)" by (simp add: driver_groups)
  note L = named_database.run_loop_spec [OF I this loop, unfolded r(2)]
  have "case wanted (dr_Prefix d) ms n of
          None \<Rightarrow> group_view (w_primary w') n = group_view (w_primary w) n
        | Some us \<Rightarrow> grown us (group_view (w_primary w) n) (group_view (w_primary w') n)" for n
  proof (cases "map_of (group_users (dr_Prefix d) [] ms) n")
    case None
    then have "n \<notin> fst ` set ?gs" by (simp add: map_of_eq_None_iff)
    with L None driver_groups(2) [of "dr_Prefix d" ms n] show ?thesis by (simp flip: driver_groups(2))
  next
    case (Some us)
    then have "(n, us) \<in> set ?gs" by (simp add: map_of_SomeD)
    with L Some show ?thesis by (auto simp flip: driver_groups(2))
  qed
  with r L show ?thesis by simp
qed

theorem Run_only_adds_witness:
  "\<exists>r w'. importer_Run (storage_ops quiet_env background) demo_driver length (world_of demo_tables) = (r, w')
     \<and> r = Inr () \<and> members_of (w_primary w') ''100%'' = Some {''ann''}"
proof -
  obtain r w' where run: "importer_Run (storage_ops quiet_env background) demo_driver length (world_of demo_tables) = (r, w')" by fastforce
  have wf: "wf_world (world_of demo_tables)" "one_tenant (w_primary (world_of demo_tables))" by simp_all
  have want: "wanted (dr_Prefix demo_driver) [\<lparr>ug_UserID = ''ann'', ug_GroupName = ''dev''\<rparr>] ''100%'' = None"
    by (simp add: wanted_def)
  have old: "members_of demo_tables ''100%'' = Some {''ann''}"
    unfolding members_of_def group_view_def demo_facts(3) by (simp add: demo_tables_def)
  note R = Run_only_adds [OF wf demo_driver_facts(1) run]
  from R have r: "r = Inr ()" by blast
  from spec [OF conjunct2 [OF conjunct2 [OF R]], of "''100%''"]
  have v: "group_view (w_primary w') ''100%'' = group_view demo_tables ''100%''" unfolding want by simp
  from old v have "members_of (w_primary w') ''100%'' = Some {''ann''}" by (simp add: members_of_def)
  with run r show ?thesis by blast
qed

end
