(* ===== verification/Telemetry.thy ===== *)
theory Telemetry
  imports Web
begin

text \<open>
  Metrics (\<^verbatim>\<open>internal/monitoring\<close>, \<open>registerMetrics\<close> of \<^verbatim>\<open>internal/db/storage.go\<close>) and tracing
  (\<^verbatim>\<open>internal/tracing\<close>). The Prometheus library is a record of functions on its state: \<open>pr_Register\<close> adds a collector to the
  default registry, \<open>pr_With\<close> records a value under a set of labels and panics (\<open>None\<close>) when they are not the labels of the
  vector. The exporters of OpenTelemetry are parameters as well. Values of metrics are left abstract.
\<close>

section \<open>Monitors\<close>

record collector =
  vd_Name :: string
  vd_ConstLabels :: "(string \<times> string) list"
  vd_Labels :: "string list"

datatype register_result = Registered | AlreadyRegistered | RegisterError error

type_synonym tags = "(string \<times> string) list"

record ('v, 'p) prometheus =
  pr_Register :: "collector \<Rightarrow> 'p \<Rightarrow> register_result \<times> 'p"
  pr_With :: "collector \<Rightarrow> tags \<Rightarrow> 'v \<Rightarrow> 'p \<Rightarrow> 'p option"

record Monitor =
  mo_service :: string
  mo_responseTime :: "collector option"
  mo_dependencyAvailability :: "collector option"

definition GetService :: "Monitor \<Rightarrow> string" where
  "GetService m = mo_service m"

definition SetResponseTimeMetric :: "('v, 'p) prometheus \<Rightarrow> Monitor \<Rightarrow> tags \<Rightarrow> 'v \<Rightarrow> 'p \<Rightarrow> (error option \<times> 'p) option" where
  "SetResponseTimeMetric pr m tags v p =
     (case mo_responseTime m of
        None \<Rightarrow> Some (Some (ErrorNew ''metric not instantiated''), p)
      | Some vec \<Rightarrow> (case pr_With pr vec tags v p of None \<Rightarrow> None | Some p1 \<Rightarrow> Some (None, p1)))"

definition SetDependencyAvailability :: "('v, 'p) prometheus \<Rightarrow> Monitor \<Rightarrow> tags \<Rightarrow> 'v \<Rightarrow> 'p \<Rightarrow> (error option \<times> 'p) option" where
  "SetDependencyAvailability pr m tags v p =
     (case mo_dependencyAvailability m of
        None \<Rightarrow> Some (Some (ErrorNew ''metric not instantiated''), p)
      | Some vec \<Rightarrow> (case pr_With pr vec tags v p of None \<Rightarrow> None | Some p1 \<Rightarrow> Some (None, p1)))"

text \<open>The registration of a list of collectors: what was written to the log (whether as an error, and for which
  collector), and the registry. A collector that cannot be registered does not stop the next one.\<close>

fun register_all :: "('v, 'p) prometheus \<Rightarrow> collector list \<Rightarrow> 'p \<Rightarrow> (bool \<times> collector) list \<times> 'p" where
  "register_all pr [] p = ([], p)"
| "register_all pr (col # cols) p =
     (case pr_Register pr col p of
        (Registered, p1) \<Rightarrow> register_all pr cols p1
      | (AlreadyRegistered, p1) \<Rightarrow> (case register_all pr cols p1 of (lg, p2) \<Rightarrow> ((False, col) # lg, p2))
      | (RegisterError err, p1) \<Rightarrow> (case register_all pr cols p1 of (lg, p2) \<Rightarrow> ((True, col) # lg, p2)))"

definition registerHistograms :: "('v, 'p) prometheus \<Rightarrow> Monitor \<Rightarrow> 'p \<Rightarrow> Monitor \<times> (bool \<times> collector) list \<times> 'p" where
  "registerHistograms pr m p =
     (let vec = \<lparr>vd_Name = ''http_response_time_seconds'', vd_ConstLabels = [(''service'', mo_service m)],
                 vd_Labels = [''route'', ''status'']\<rparr> in
      (m\<lparr>mo_responseTime := Some vec\<rparr>, register_all pr [vec] p))"

definition registerGauges :: "('v, 'p) prometheus \<Rightarrow> Monitor \<Rightarrow> 'p \<Rightarrow> Monitor \<times> (bool \<times> collector) list \<times> 'p" where
  "registerGauges pr m p =
     (let vec = \<lparr>vd_Name = ''dependency_available'', vd_ConstLabels = [(''service'', mo_service m)], vd_Labels = [''component'']\<rparr> in
      (m\<lparr>mo_dependencyAvailability := Some vec\<rparr>, register_all pr [vec] p))"

definition NewMonitor :: "('v, 'p) prometheus \<Rightarrow> string \<Rightarrow> 'p \<Rightarrow> Monitor \<times> (bool \<times> collector) list \<times> 'p" where
  "NewMonitor pr service p =
     (case registerHistograms pr \<lparr>mo_service = service, mo_responseTime = None, mo_dependencyAvailability = None\<rparr> p of
        (m1, lg1, p1) \<Rightarrow> (case registerGauges pr m1 p1 of (m2, lg2, p2) \<Rightarrow> (m2, lg1 @ lg2, p2)))"

text \<open>The monitor of the commands that have none.\<close>

definition Noop_SetResponseTimeMetric :: "tags \<Rightarrow> 'v \<Rightarrow> 'p \<Rightarrow> (error option \<times> 'p) option" where
  "Noop_SetResponseTimeMetric tags v p = Some (None, p)"

definition Noop_SetDependencyAvailability :: "tags \<Rightarrow> 'v \<Rightarrow> 'p \<Rightarrow> (error option \<times> 'p) option" where
  "Noop_SetDependencyAvailability tags v p = Some (None, p)"

text \<open>The metrics of the database client, registered whether or not there is a replica.\<close>

definition replica_collectors :: "collector list" where
  "replica_collectors =
     map (\<lambda>n. \<lparr>vd_Name = n, vd_ConstLabels = [], vd_Labels = []\<rparr>)
       [''hook_service_replica_queries_total'', ''hook_service_replica_lag_ms'', ''hook_service_primary_fallback_total'']"

definition registerMetrics :: "('v, 'p) prometheus \<Rightarrow> 'p \<Rightarrow> (bool \<times> collector) list \<times> 'p" where
  "registerMetrics pr p = register_all pr replica_collectors p"

section \<open>Tracers\<close>

record TracingConfig =
  tc_OtelHTTPEndpoint :: string
  tc_OtelGRPCEndpoint :: string
  tc_Enabled :: bool

definition tracing_NewConfig :: "bool \<Rightarrow> string \<Rightarrow> string \<Rightarrow> TracingConfig" where
  "tracing_NewConfig enabled otelGRPCEndpoint otelHTTPEndpoint =
     \<lparr>tc_OtelHTTPEndpoint = otelHTTPEndpoint, tc_OtelGRPCEndpoint = otelGRPCEndpoint, tc_Enabled = enabled\<rparr>"

definition NewNoopConfig :: TracingConfig where
  "NewNoopConfig = \<lparr>tc_OtelHTTPEndpoint = [], tc_OtelGRPCEndpoint = [], tc_Enabled = False\<rparr>"

datatype exporter = OtlpGRPC string | OtlpHTTP string | Stdout

text \<open>The attributes of the resource that spans are labelled with; \<open>read\<close> is the result of \<open>debug.ReadBuildInfo\<close>: the path,
  the path of the main module and the build settings.\<close>

definition buildResource :: "string \<Rightarrow> (string \<times> string \<times> (string \<times> string) list) option \<Rightarrow> (string \<times> string) list" where
  "buildResource service read =
     (case read of
        None \<Rightarrow> [(''service.name'', service), (''service.version'', ''n/a'')]
      | Some (path, main, settings) \<Rightarrow>
          [(''service.name'', if service = [] then path else service), (''git_sha'', gitRevision settings), (''app'', main)])"

datatype Tracer = NoopTracer string | SdkTracer exporter string "(string \<times> string) list"

text \<open>\<open>None\<close> is the nil pointer that is returned when the exporter cannot be created.\<close>

definition tracer_name :: string where "tracer_name = ''github.com/canonical/hook-service''"

definition select_exporter :: "TracingConfig \<Rightarrow> exporter" where
  "select_exporter cfg =
     (if tc_OtelGRPCEndpoint cfg \<noteq> [] then OtlpGRPC (tc_OtelGRPCEndpoint cfg)
      else if tc_OtelHTTPEndpoint cfg \<noteq> [] then OtlpHTTP (tc_OtelHTTPEndpoint cfg)
      else Stdout)"

definition NewTracer ::
  "(exporter \<Rightarrow> error option) \<Rightarrow> (string \<times> string \<times> (string \<times> string) list) option \<Rightarrow> TracingConfig \<Rightarrow> Tracer option" where
  "NewTracer newExporter read cfg =
     (if \<not> tc_Enabled cfg then Some (NoopTracer tracer_name)
      else
        (case newExporter (select_exporter cfg) of
           Some err \<Rightarrow> None
         | None \<Rightarrow> Some (SdkTracer (select_exporter cfg) tracer_name (buildResource tracer_name read))))"

definition NewNoopTracer ::
  "(exporter \<Rightarrow> error option) \<Rightarrow> (string \<times> string \<times> (string \<times> string) list) option \<Rightarrow> Tracer option" where
  "NewNoopTracer newExporter read = NewTracer newExporter read NewNoopConfig"

text \<open>\<open>Start\<close> dereferences the tracer: \<open>Panics\<close> on the nil pointer, otherwise the body runs.\<close>

definition tracer_Start :: "Tracer option \<Rightarrow> ('st \<Rightarrow> 'a outcome \<times> 'st) \<Rightarrow> 'st \<Rightarrow> 'a outcome \<times> 'st" where
  "tracer_Start t body st = (case t of None \<Rightarrow> (Panics, st) | Some _ \<Rightarrow> body st)"

section \<open>Measuring never fails\<close>

text \<open>What Prometheus promises of \<open>With\<close>: it accepts a set of labels exactly when their names are those of the
  vector, each once.\<close>

definition with_law :: "('v, 'p) prometheus \<Rightarrow> bool" where
  "with_law pr \<longleftrightarrow> (\<forall>vec ts v p. distinct (map fst ts) \<longrightarrow>
     (pr_With pr vec ts v p \<noteq> None \<longleftrightarrow> set (map fst ts) = set (vd_Labels vec)))"

lemma NewMonitor_vectors:
  assumes "NewMonitor pr service p = (m, lg, p')"
  obtains rt da where "mo_responseTime m = Some rt" "vd_Labels rt = [''route'', ''status'']"
    "mo_dependencyAvailability m = Some da" "vd_Labels da = [''component'']"
  using assms by (auto simp: NewMonitor_def registerHistograms_def registerGauges_def Let_def split: prod.splits)

text \<open>Whatever the registry said when the monitor was made, every answered request is measured: the tags of the
  middleware are the labels of the histogram, so neither the error nor the panic of the vector can happen. The
  gauge, on the other hand, accepts a single label only, called \<open>component\<close>.\<close>

lemma responses_are_measured:
  assumes law: "with_law pr" and m: "NewMonitor pr service p = (m, lg, p')"
  shows "(\<exists>p2. SetResponseTimeMetric pr m (ResponseTime req answered) v p1 = Some (None, p2))
    \<and> (SetDependencyAvailability pr m [(l, x)] v p1 = None \<longleftrightarrow> l \<noteq> ''component'')"
proof -
  from m obtain rt da where v: "mo_responseTime m = Some rt" "vd_Labels rt = [''route'', ''status'']"
    "mo_dependencyAvailability m = Some da" "vd_Labels da = [''component'']" by (rule NewMonitor_vectors)
  have "pr_With pr rt (ResponseTime req answered) v p1 \<noteq> None"
    using law v(2) by (simp add: with_law_def ResponseTime_def)
  moreover have "pr_With pr da [(l, x)] v p1 \<noteq> None \<longleftrightarrow> l = ''component''"
    using law v(4) by (simp add: with_law_def)
  ultimately show ?thesis
    by (auto simp: SetResponseTimeMetric_def SetDependencyAvailability_def v(1,3) split: option.splits)
qed

definition demo_prometheus :: "(nat, (collector \<times> tags \<times> nat) list) prometheus" where
  "demo_prometheus =
     \<lparr>pr_Register = (\<lambda>col p. (Registered, p)),
      pr_With = (\<lambda>vec ts v p. if set (map fst ts) = set (vd_Labels vec) then Some ((vec, ts, v) # p) else None)\<rparr>"

lemma responses_are_measured_witness:
  "\<exists>p2. SetResponseTimeMetric demo_prometheus (fst (NewMonitor demo_prometheus ''hook-service'' []))
     [(''route'', ''GET/api/v0/status''), (''status'', ''200'')] 7 [] = Some (None, p2)"
proof -
  let ?req = "\<lparr>hr_Method = ''GET'', hr_Path = ''/api/v0/status'', hr_Authorization = [], hr_body = Inr []\<rparr>"
  obtain m lg p' where m: "NewMonitor demo_prometheus ''hook-service'' [] = (m, lg, p')" by (metis prod.exhaust)
  have law: "with_law demo_prometheus" by (simp add: with_law_def demo_prometheus_def)
  have "ResponseTime ?req ((200, ()), ()) = [(''route'', ''GET/api/v0/status''), (''status'', ''200'')]"
    by code_simp
  with responses_are_measured [OF law m, of ?req "((200, ()), ())" 7 "[]"] m show ?thesis by simp
qed

section \<open>A tracer that is missing\<close>

text \<open>With tracing enabled, a failing exporter leaves the service without a tracer, and every instrumented function
  panics; without tracing, and in the commands, there is always one.\<close>

lemma failed_exporter_breaks_requests:
  "NewTracer newExporter read cfg = None \<longleftrightarrow> tc_Enabled cfg \<and> newExporter (select_exporter cfg) \<noteq> None"
  "tracer_Start None body st = (Panics, st)" "NewNoopTracer newExporter read \<noteq> None"
  by (simp_all add: NewTracer_def NewNoopTracer_def NewNoopConfig_def tracer_Start_def split: option.splits)

end
