(* ===== verification/Spec2Isabelle.thy ===== *)
theory Spec2Isabelle
  imports Lifecycle Commands HookRace EditRace MappingRpc Responses AuthLog ImportRun Telemetry DbLaws
begin

text \<open>
  \<^bold>\<open>Canonical hook service: a verification development.\<close>

  The hook service decides, when an OAuth server (Hydra) is about to issue a token, whether the caller may have it, and
  adds the caller's groups to the token. It keeps groups, memberships and the permissions of groups to use
  applications in a PostgreSQL database, mirrors the permissions in OpenFGA, and offers management APIs, commands
  and an importer for them. This library models the Go sources under \<^verbatim>\<open>src/\<close> as executable definitions and proves
  what makes them correct. Effects are explicit: operations take and return the state they change, errors are values
  of a sum type, a panic or a call that never returns is a value of its own (\<open>None\<close>, \<open>Panics\<close>, \<open>Blocks\<close>).

  \<^bold>\<open>Theories and sources.\<close>
  \<^item> HookPrelude: errors and sentinels, strings (\<open>Split\<close>, \<open>TrimSpace\<close>, \<open>strconv\<close>), JSON values, the environment \<open>env\<close> that
    says at each tick which call of the database driver fails, clocks, fresh identifiers, map order. ASCII text only.
  \<^item> GroupTypes: \<^verbatim>\<open>internal/types/group.go\<close>, with JSON forms of the enumerations.
  \<^item> SqlStore: the three tables of the migrations and the SQL statements the code sends, LIKE matching, ON CONFLICT and
    cascades; \<open>wf_tables\<close> is the schema (keys and foreign keys).
  \<^item> DbClient, DbLaws: \<^verbatim>\<open>internal/db\<close>. Pagination on 64-bit words, lazy transactions, routing of statements to
    primary, replica or transaction, the lag monitor, pool settings, start-up and \<open>Close\<close> with a trace of what they
    open and close, the HTTP transaction middleware and the gRPC interceptors. The record \<open>world\<close> holds the client, both databases and open transactions. DbLaws has the contract
    \<open>framed_handler\<close>: a handler under the middleware is all or nothing.
  \<^item> Responses: the middleware again, with the calls a handler makes on its response writer (several statuses, panics); the
    contract \<open>writing_handler\<close> gives \<open>framed_handler\<close>, and for handlers behind the gateway both views are the same.
  \<^item> Storage, StorageLaws: \<^verbatim>\<open>internal/storage\<close>, every method, with the effect of each on the tables, and the invariant
    over runs of any methods. The record \<open>Storage\<close> has the time limit of the streams.
  \<^item> OpenFga, Authorizer: \<^verbatim>\<open>internal/openfga\<close> and \<^verbatim>\<open>internal/authorization\<close>. Tuples with base64 names, checks, batch
    checks, edits, the two pagination loops (\<open>partial_function\<close>, proved to return), the embedded model and the comparison of models.
  \<^item> GroupsApi, AuthzApi: \<^verbatim>\<open>pkg/groups\<close>, \<^verbatim>\<open>pkg/authorization\<close> and \<^verbatim>\<open>internal/http/types\<close>: services, gRPC handlers,
    streams, error mapping. AuthzApi proves that database and OpenFGA stay in agreement (\<open>in_sync\<close>).
  \<^item> EditRace: grants and revocations that run at the same time, each in its own \<open>READ COMMITTED\<close> transaction, as a step
    relation over statements, calls to OpenFGA and commits; a request alone is that of AuthzApi.
  \<^item> MappingRpc: \<^verbatim>\<open>gen/hook/groups/v1\<close> and the gRPC server of \<^verbatim>\<open>cmd/serve.go\<close>: messages, service description, dispatch,
    interceptors and streaming handlers in one call, and the client stubs.
  \<^item> WorkerPool: \<^verbatim>\<open>internal/pool\<close> as a step relation over all interleavings of clients, workers and \<open>Stop\<close>.
  \<^item> Tenants, Hooks: \<^verbatim>\<open>internal/tenants\<close> and \<^verbatim>\<open>pkg/hooks\<close>. The two jobs of a request have a fate (run, refused, lost,
    blocked), which is what the pool can do with a job by WorkerPool.
  \<^item> HookRace: the steps of \<open>ProcessRequest\<close> as a relation, interleaved with arbitrary changes of the stores by others.
  \<^item> Authentication: \<^verbatim>\<open>pkg/authentication\<close>, construction of the verifiers, the decision over a verified token and the two
    middlewares. AuthLog: the same operations with the logger in their state, and the audit trail.
  \<^item> Importer, ImportRun: \<^verbatim>\<open>internal/importer\<close>, over the contracts \<open>group_store\<close> and \<open>named_group_store\<close>, interpreted on Storage.
  \<^item> Logging: \<^verbatim>\<open>internal/logging\<close>. Migrate and Cli: \<^verbatim>\<open>cmd/migrate.go\<close>, \<^verbatim>\<open>users.go\<close>, \<^verbatim>\<open>groups_cmd.go\<close>, \<^verbatim>\<open>import.go\<close>.
  \<^item> Web: \<^verbatim>\<open>pkg/web\<close>, \<^verbatim>\<open>pkg/status\<close>, \<^verbatim>\<open>pkg/metrics\<close>, \<^verbatim>\<open>internal/monitoring/middlewares.go\<close>: routes and the chain of
    middlewares around them.
  \<^item> Telemetry: \<^verbatim>\<open>internal/monitoring\<close> and \<^verbatim>\<open>internal/tracing\<close>: vectors, labels, registration, choice of the exporter.
  \<^item> Serve: \<^verbatim>\<open>cmd/serve.go\<close>, \<^verbatim>\<open>cmd/createFgaModel.go\<close>, \<^verbatim>\<open>internal/config\<close>: start-up, the error group and the end of the process.
  \<^item> Lifecycle: what \<open>serve\<close> and the commands acquire and release, replayed on a stack.
  \<^item> Commands: \<^verbatim>\<open>main.go\<close>, \<^verbatim>\<open>cmd/root.go\<close>, \<^verbatim>\<open>cmd/version.go\<close>, the command variables and \<open>init\<close> functions of \<^verbatim>\<open>cmd\<close>: the tree of
    commands and the process as a function of its arguments.
  \<^item> This theory: a hook request through router, middlewares, handler, service, storage and OpenFGA client together.

  \<^bold>\<open>What is shown.\<close> Who gets a token (\<open>hook_end_to_end\<close>, \<open>hook_grants_all_the_permitted\<close>, tenant and error cases in Hooks) and
  that permission edits decide it (\<open>permission_edits_take_effect\<close>), also when they happen while the request is under way
  (HookRace); that edits at the same time never leave access the database does not list (EditRace); that APIs are guarded, on HTTP and on gRPC, and
  refusals recorded (Web, Authentication, MappingRpc, AuthLog); that a transaction is committed exactly for a successful answer (Responses); that
  database operations keep the schema, do what they promise and are atomic under the middleware (StorageLaws,
  GroupsApi, AuthzApi); that synchronisation makes the database equal to the source and a plain import only adds
  (Importer, ImportRun); that the pool loses, doubles and blocks nothing as long as a worker lives (WorkerPool); that
  the process starts as configured, always ends and releases what it holds (Serve, Lifecycle); that a command line does what
  it says and nothing else (Commands). Several theorems state where the code does not do
  what it means to: \<open>RemoveAllowedGroupsForApp_leaves_access\<close>, \<open>UpdateGroup_erases_the_name\<close>, \<open>dropped_tenant_validation_passes\<close>,
  \<open>dead_pool_blocks_clients\<close>, \<open>set_groups_loses_memberships\<close>, \<open>created_model_is_refused\<close>, \<open>concurrent_edits_lose_a_grant\<close>, and lemmas such as \<open>second_update_fails\<close>.

  \<^bold>\<open>Parameters and hypotheses.\<close> Code outside the repository is an argument: the OpenFGA SDK (a record of functions on a
  state of any type), Hydra's codec, gRPC and the tenant service, the OIDC library (\<open>checks_issuer\<close>), goose, the Salesforce query,
  CORS, cobra (\<open>cobra_law\<close>), the decoding of gRPC messages, the gateway's marshaler, the HTTP status of a gRPC code. What is assumed of OpenFGA is stated by \<open>write_law\<close>, \<open>check_law\<close>, \<open>batch_law\<close> and \<open>read_law\<close>
  (a write that reports success has happened, a failed one has not; a check answers for stored and contextual tuples; pages enumerate
  what is stored), which the reference server \<open>ref_sdk\<close> satisfies. \<open>no_faults\<close> and \<open>begins_ok\<close> say that the driver does not fail.

  \<^bold>\<open>Bounds.\<close> No fuel is used: loops are structural, have a measure, or are \<open>partial_function\<close> with a proof that they return.
  64-bit integers are words where arithmetic can wrap (pagination) and integers in range elsewhere.

  \<^bold>\<open>Not modelled.\<close> Spans and the OpenTelemetry wrapper of the router (they compute nothing the program uses), debug output of most components,
  time limits other than that of the streams (one of the reasons a call fails), the encoding and reflection of protobuf
  messages, the embedding of the migrations, dead code (\<open>config.NewFlags\<close>, the OpenFGA filters, the no-op Salesforce client), cobra's flag
  parsing. Statements of one request run in order; requests at the same time are the subject of HookRace (a hook request and
  arbitrary changes) and EditRace (permission edits, with commits that succeed and groups that stay), and of no other theorem.
\<close>

section \<open>A hook request through the whole service\<close>

text \<open>The hook handler as \<open>NewRouter\<close> builds it: the service over the local storage client, on the context the
  middlewares hand on. \<open>gf\<close> and \<open>tf\<close> are what becomes of the two jobs in the pool.\<close>

definition router_hook ::
  "hydra \<Rightarrow> (string \<Rightarrow> nat) \<Rightarrow> env \<Rightarrow> 's authz_client \<Rightarrow> 't validator \<Rightarrow> fate \<Rightarrow> fate \<Rightarrow>
   string res \<Rightarrow> ctx \<Rightarrow> world \<times> 's \<times> 't \<Rightarrow> (nat \<times> string) outcome \<times> (world \<times> 's \<times> 't)" where
  "router_hook hy rank env authz validate gf tf body c =
     handleHydraHook hy rank (ProcessRequest [StorageHookGroupsClient_FetchUserGroups env c] authz validate gf tf) body"

lemma hook_error_status_not_200 [simp]: "hook_error_status err \<noteq> 200"
  by (simp add: hook_error_status_def)

lemma handleHydraHook_200:
  assumes "handleHydraHook hy rank svc body st = (Returns (200, out), st1)"
  obtains bytes hreq hctx where "body = Inr bytes" "hy_Unmarshal hy bytes = Inr hreq"
    "svc (NewUserFromHookRequest hreq) hreq st = (Returns (Inr hctx), st1)"
    "hy_Marshal hy (composeTokenResponse (hy_NewConsentRequestSessionData hy) (hy_IDTokenClaims hy) rank hreq hctx) = Inr out"
proof (cases body)
  case (Inr bytes)
  note body = this
  show ?thesis
  proof (cases "hy_Unmarshal hy bytes")
    case (Inr hreq)
    obtain r st2 where r: "svc (NewUserFromHookRequest hreq) hreq st = (r, st2)" by fastforce
    from assms body Inr r obtain q where q: "r = Returns q" by (cases r) (auto simp: handleHydraHook_def)
    from assms body Inr r q obtain hctx where "q = Inr hctx" by (cases q) (auto simp: handleHydraHook_def)
    with assms body Inr r q that show ?thesis by (auto simp: handleHydraHook_def split: sum.splits)
  qed (use assms body in \<open>simp add: handleHydraHook_def\<close>)
qed (use assms in \<open>simp add: handleHydraHook_def\<close>)

lemma hook_route_200:
  assumes "hook_route token hs req x c w = ((200, (b, x1)), w1)"
  obtains out where "token = [] \<or> hr_Authorization req = token" "b = Text out"
    "hd_hook hs (hr_body req) c (w, x) = (Returns (200, out), (w1, x1))"
proof (cases "token = [] \<or> hr_Authorization req = token")
  case True
  then have "hook_endpoint token (hd_hook hs (hr_body req) c) (hr_Authorization req) (w, x) = hd_hook hs (hr_body req) c (w, x)"
    by (auto simp: hook_endpoint_def hooks_AuthMiddleware_def)
  with assms True that show ?thesis
    by (auto simp: hook_route_def split: outcome.splits prod.splits)
qed (use assms in \<open>auto simp: hook_route_def hook_endpoint_def hooks_AuthMiddleware_def split: if_splits\<close>)

lemma transaction_of_post:
  assumes "TransactionMiddleware env ''POST'' handler background w = ((200, b), w')"
  obtains w1 where "handler hook_ctx (w\<lparr>w_lazyTx := None\<rparr>) = ((200, b), w1)" "w_replica w' = w_replica w1"
    "w_primary w' = w_primary w1 \<or> w_primary w' = target hook_ctx w1"
proof -
  obtain code b1 w1 where h: "handler hook_ctx (w\<lparr>w_lazyTx := None\<rparr>) = ((code, b1), w1)" by (metis prod.exhaust)
  with assms show ?thesis
    by (intro that [of w1])
      (auto simp: TransactionMiddleware_def WithTx_def Let_def hook_ctx_def target_def tick_def split: if_splits option.splits)
qed

text \<open>C1: only the permitted get a token. A request to the hook that the service answers with 200, seen from outside
  through all its middlewares, carries the configured API token, and its body decodes to a request of a user one
  of whose groups may use the client, or of a service account that for each requested audience is in a group that may
  use it, according to the database and to OpenFGA, which agree; the answer is the encoded response with exactly the
  caller's groups, and no table has changed.\<close>
theorem hook_end_to_end:
  assumes laws: "check_law sdk store" "batch_law sdk store" and wf: "wf_world w" and sync: "in_sync store (w_primary w) s"
    and hs: "hd_hook hs = router_hook hy rank env (Client sdk) validate gf tf"
    and req: "hr_Method req = ''POST''" "hr_Path req = ''/api/v0/hook/hydra''"
    and cors: "cors (middlewareCORS [''*'']) req = None"
    and run: "NewRouter env cors token auth verify hs True req background (w, (s, t)) = (((200, body), (w', x')), tags)"
  shows "(token = [] \<or> hr_Authorization req = token) \<and> w_primary w' = w_primary w \<and> w_replica w' = w_replica w
    \<and> (\<exists>bytes hreq hctx out. hr_body req = Inr bytes \<and> hy_Unmarshal hy bytes = Inr hreq
        \<and> (if isServiceAccount (th_GrantTypes hreq)
            then \<forall>a \<in> set (th_GrantedAudience hreq). may_use (w_primary w) (th_ClientID hreq) a
            else may_use (w_primary w) (u_Email (NewUserFromHookRequest hreq)) (th_ClientID hreq))
        \<and> set (hc_Groups hctx) = stored_groups background w (NewUserFromHookRequest hreq)
        \<and> hy_Marshal hy (composeTokenResponse (hy_NewConsentRequestSessionData hy) (hy_IDTokenClaims hy) rank hreq hctx) = Inr out
        \<and> body = Text out)"
proof -
  let ?w = "w\<lparr>w_lazyTx := None\<rparr>"
  have target: "target hook_ctx ?w = w_primary w" by (simp add: hook_ctx_def target_def target_rest_def background_def)
  from run cors req have tm: "TransactionMiddleware env ''POST'' (serve_mux token auth verify hs req (s, t)) background w = ((200, (body, x')), w')"
    by (auto simp: NewRouter_def Let_def split: prod.splits)
  then obtain w1 where h: "serve_mux token auth verify hs req (s, t) hook_ctx ?w = ((200, (body, x')), w1)"
    and after: "w_replica w' = w_replica w1" "w_primary w' = w_primary w1 \<or> w_primary w' = target hook_ctx w1"
    by (rule transaction_of_post)
  from h have "hook_route token hs req (s, t) hook_ctx ?w = ((200, (body, x')), w1)"
    by (simp add: serve_mux_def req route_hook)
  then obtain out where tok: "token = [] \<or> hr_Authorization req = token" and body: "body = Text out"
    and "hd_hook hs (hr_body req) hook_ctx (?w, (s, t)) = (Returns (200, out), (w1, x'))"
    by (rule hook_route_200)
  then have "handleHydraHook hy rank (ProcessRequest [StorageHookGroupsClient_FetchUserGroups env hook_ctx] (Client sdk) validate gf tf)
      (hr_body req) (?w, s, t) = (Returns (200, out), (w1, x'))" by (simp add: hs router_hook_def)
  then obtain bytes hreq hctx where dec: "hr_body req = Inr bytes" "hy_Unmarshal hy bytes = Inr hreq"
    and ok: "ProcessRequest [StorageHookGroupsClient_FetchUserGroups env hook_ctx] (Client sdk) validate gf tf
        (NewUserFromHookRequest hreq) hreq (?w, s, t) = (Returns (Inr hctx), (w1, x'))"
    and enc: "hy_Marshal hy (composeTokenResponse (hy_NewConsentRequestSessionData hy) (hy_IDTokenClaims hy) rank hreq hctx) = Inr out"
    by (rule handleHydraHook_200)
  obtain s1 t1 where x': "x' = (s1, t1)" by fastforce
  from wf have wf': "wf_world ?w" by (simp add: wf_world_def)
  note sound = ProcessRequest_sound [OF laws wf' sync [folded target] ok [unfolded x'], unfolded target]
  from ok [unfolded x'] obtain gs where "FetchUserGroups [StorageHookGroupsClient_FetchUserGroups env hook_ctx]
      (NewUserFromHookRequest hreq) ?w = (Inr gs, w1)" by (rule ProcessRequest_Inr)
  from fetch_tables [OF this] after sound have "w_primary w' = w_primary w" "w_replica w' = w_replica w" by auto
  moreover have "stored_groups hook_ctx ?w u = stored_groups background w u" for u by (simp add: stored_groups_def target)
  ultimately show ?thesis using tok body dec enc sound by auto
qed


definition demo_hydra :: hydra where
  "demo_hydra = \<lparr>hy_Unmarshal = (\<lambda>b. Inr (demo_request Map.empty)), hy_Marshal = (\<lambda>r. Inr ''granted''),
     hy_NewConsentRequestSessionData = \<lparr>tr_AccessToken = Map.empty, tr_IDToken = Map.empty\<rparr>, hy_IDTokenClaims = ds_Claims\<rparr>"

definition demo_hook_request :: http_request where
  "demo_hook_request = \<lparr>hr_Method = ''POST'', hr_Path = ''/api/v0/hook/hydra'', hr_Authorization = ''key'', hr_body = Inr ''{}''\<rparr>"

definition demo_hook_handlers :: "(string, Tuple list \<times> unit) handlers" where
  "demo_hook_handlers =
     \<lparr>hd_hook = router_hook demo_hydra length quiet_env (Client ref_sdk) NoopValidator Ran Refused,
      hd_gateway = (\<lambda>req c st. ((404, ''''), st)), hd_metrics = (200, ''''), hd_build = None\<rparr>"

lemma demo_hook_granted:
  "\<exists>b w' x' tags. NewRouter quiet_env (\<lambda>opts r. None) ''key'' True NoopVerifier demo_hook_handlers True demo_hook_request background
     (world_of demo_tables, ([permission_tuple (''g1'', ''app'')], ())) = (((200, b), (w', x')), tags)"
proof -
  let ?s = "[permission_tuple (''g1'', ''app'')]" and ?w = "world_of demo_tables"
  have w: "?w\<lparr>w_lazyTx := None\<rparr> = ?w" by (simp add: world_of_def)
  have c: "background\<lparr>ctx_lazy := True\<rparr> = hook_ctx" by (simp add: hook_ctx_def)
  have "extractTenantID (demo_request Map.empty) = []" by (simp add: string_at_def)
  with ProcessRequest_permitted [OF ref_laws(2) _ quiet_env_simps(1) _ ref_sdk_answers, of ?w
      ?s "demo_request Map.empty" NoopValidator Refused "()"]
  obtain hctx w1 s1 where "ProcessRequest [StorageHookGroupsClient_FetchUserGroups quiet_env hook_ctx] (Client ref_sdk) NoopValidator Ran Refused
      (NewUserFromHookRequest (demo_request Map.empty)) (demo_request Map.empty) (?w, ?s, ()) = (Returns (Inr hctx), (w1, s1, ()))"
    by (auto simp: is_ok_iff)
  then have "router_hook demo_hydra length quiet_env (Client ref_sdk) NoopValidator Ran Refused (Inr ''{}'') hook_ctx (?w, (?s, ()))
      = (Returns (200, ''granted''), (w1, (s1, ())))"
    by (simp add: router_hook_def handleHydraHook_def demo_hydra_def)
  then have "serve_mux ''key'' True NoopVerifier demo_hook_handlers demo_hook_request (?s, ()) hook_ctx ?w
      = ((200, (Text ''granted'', (s1, ()))), w1)"
    by (simp add: serve_mux_def demo_hook_request_def demo_hook_handlers_def route_hook hook_route_def hook_endpoint_def hooks_AuthMiddleware_def)
  then show ?thesis
    by (auto simp: NewRouter_def TransactionMiddleware_def WithTx_def Let_def w c demo_hook_request_def
        split: option.splits prod.splits)
qed

theorem hook_end_to_end_witness:
  "\<exists>b w' x' tags. NewRouter quiet_env (\<lambda>opts r. None) ''key'' True NoopVerifier demo_hook_handlers True demo_hook_request background
     (world_of demo_tables, ([permission_tuple (''g1'', ''app'')], ())) = (((200, b), (w', x')), tags) \<and> w_primary w' = demo_tables"
proof -
  from demo_hook_granted obtain b w' x' tags where run: "NewRouter quiet_env (\<lambda>opts r. None) ''key'' True NoopVerifier demo_hook_handlers True demo_hook_request background
     (world_of demo_tables, ([permission_tuple (''g1'', ''app'')], ())) = (((200, b), (w', x')), tags)" by blast
  have "wf_world (world_of demo_tables)" "in_sync set (w_primary (world_of demo_tables)) [permission_tuple (''g1'', ''app'')]"
    by (simp_all add: in_sync_def)
  moreover have "hd_hook demo_hook_handlers = router_hook demo_hydra length quiet_env (Client ref_sdk) NoopValidator Ran Refused"
    "hr_Method demo_hook_request = ''POST''" "hr_Path demo_hook_request = ''/api/v0/hook/hydra''"
    by (simp_all add: demo_hook_handlers_def demo_hook_request_def)
  ultimately have "w_primary w' = demo_tables"
    using hook_end_to_end [OF ref_laws(2,3), where cors = "\<lambda>opts r. None", OF _ _ _ _ _ refl run] by simp
  with run show ?thesis by blast
qed


section \<open>Permissions over their whole life\<close>

text \<open>The hook request that follows any other request: it starts its own transaction.\<close>

lemma hook_decides:
  assumes laws: "check_law sdk store" and fga: "\<And>q cs s. \<exists>v s'. sdk_Check sdk q cs s = (Inr v, s')" and env: "no_faults env"
    and wf: "wf_world w" and sync: "in_sync store (w_primary w) s"
    and req: "\<not> isServiceAccount (th_GrantTypes hreq)" "extractTenantID hreq = []"
  shows "\<exists>r w' s'. ProcessRequest [StorageHookGroupsClient_FetchUserGroups env hook_ctx] (Client sdk) validate Ran tf
        (NewUserFromHookRequest hreq) hreq (w\<lparr>w_lazyTx := None\<rparr>, s, t) = (Returns r, (w', s', t))
      \<and> (if may_use (w_primary w) (u_Email (NewUserFromHookRequest hreq)) (th_ClientID hreq) then is_ok r
         else r = Inl (access_denied (NewUserFromHookRequest hreq) hreq))"
proof -
  let ?w = "w\<lparr>w_lazyTx := None\<rparr>"
  have target: "target hook_ctx ?w = w_primary w" by (simp add: hook_ctx_def target_tx_start)
  have "wf_world ?w" "live hook_ctx ?w" "in_sync store (target hook_ctx ?w) s"
    using wf sync by (simp_all add: wf_world_def live_def target)
  then show ?thesis unfolding target [symmetric]
    by (intro ProcessRequest_permitted [OF laws _ env _ fga _ req])
qed

text \<open>C2: permission edits take effect at once. After a grant over the API was answered with success, the hook
  grants a token to every member of the group for that application; after a revocation was answered with success, it
  refuses every user whose only permitted group that was. Each edit is seen by the next hook request, and
  the two stores agree all the time.\<close>
theorem permission_edits_take_effect:
  assumes laws: "write_law sdk store" "check_law sdk store"
    and fga: "\<And>q cs s. \<exists>v s'. sdk_Check sdk q cs s = (Inr v, s')"
    and env: "no_faults env" "begins_ok env" "\<forall>t. env_commit env t = None" and hs: "error_statuses hs"
    and wf: "wf_world w" and sync: "in_sync store (w_primary w) s"
    and req: "\<not> isServiceAccount (th_GrantTypes hreq)" "extractTenantID hreq = []"
    and u: "u = NewUserFromHookRequest hreq" "u_Email u \<noteq> []"
    and grant: "TransactionMiddleware env ''POST''
        (gateway2 hs (agrpc_AddAllowedAppToGroup env (Client sdk) gid (Some \<lparr>pb_ClientId = th_ClientID hreq\<rparr>)) s) background w
        = ((code1, (r1, s1)), w1)"
    and revoke: "TransactionMiddleware env ''DELETE''
        (gateway2 hs (agrpc_RemoveAllowedAppFromGroup env (Client sdk) gid (th_ClientID hreq)) s) background w
        = ((code2, (r2, s2)), w2)"
  shows "(code1 < 400 \<and> (gid, u_Email u) \<in> memberships (w_primary w) \<longrightarrow>
        (\<exists>hctx w' s'. ProcessRequest [StorageHookGroupsClient_FetchUserGroups env hook_ctx] (Client sdk) validate Ran tf u hreq
           (w1\<lparr>w_lazyTx := None\<rparr>, s1, t) = (Returns (Inr hctx), (w', s', t))))
    \<and> (code2 < 400 \<and> (\<forall>g. (g, u_Email u) \<in> memberships (w_primary w) \<and> (g, th_ClientID hreq) \<in> allowances (w_primary w) \<longrightarrow> g = gid) \<longrightarrow>
        (\<exists>w' s'. ProcessRequest [StorageHookGroupsClient_FetchUserGroups env hook_ctx] (Client sdk) validate Ran tf u hreq
           (w2\<lparr>w_lazyTx := None\<rparr>, s2, t) = (Returns (Inl (access_denied u hreq)), (w', s', t))))"
proof -
  note A = allow_request [OF laws(1) env(2,3) hs writable_simps(1) sync grant]
  note R = disallow_request [OF laws(1) env(2,3) hs writable_simps(1) sync revoke]
  have wf1: "wf_world w1" by (rule allow.middleware_wf [OF grant wf])
  have wf2: "wf_world w2" by (rule disallow.middleware_wf [OF revoke wf])
  from A have "in_sync store (w_primary w1) s1" by blast
  from hook_decides [OF laws(2) fga env(1) wf1 this req, of validate tf t, folded u(1)] obtain q1 w1' s1' where
    H1: "ProcessRequest [StorageHookGroupsClient_FetchUserGroups env hook_ctx] (Client sdk) validate Ran tf u hreq
        (w1\<lparr>w_lazyTx := None\<rparr>, s1, t) = (Returns q1, (w1', s1', t))"
      "may_use (w_primary w1) (u_Email u) (th_ClientID hreq) \<Longrightarrow> is_ok q1" by (metis (full_types))
  from R have "in_sync store (w_primary w2) s2" by blast
  from hook_decides [OF laws(2) fga env(1) wf2 this req, of validate tf t, folded u(1)] obtain q2 w2' s2' where
    H2: "ProcessRequest [StorageHookGroupsClient_FetchUserGroups env hook_ctx] (Client sdk) validate Ran tf u hreq
        (w2\<lparr>w_lazyTx := None\<rparr>, s2, t) = (Returns q2, (w2', s2', t))"
      "\<not> may_use (w_primary w2) (u_Email u) (th_ClientID hreq) \<Longrightarrow> q2 = Inl (access_denied u hreq)" by (metis (full_types))
  have "is_ok q1" if "code1 < 400" "(gid, u_Email u) \<in> memberships (w_primary w)"
    using A that u(2) by (intro H1(2)) (auto simp: may_use_def)
  moreover have "q2 = Inl (access_denied u hreq)"
    if "code2 < 400" "\<forall>g. (g, u_Email u) \<in> memberships (w_primary w) \<and> (g, th_ClientID hreq) \<in> allowances (w_primary w) \<longrightarrow> g = gid"
    using R that by (intro H2(2)) (auto simp: may_use_def)
  ultimately show ?thesis using H1(1) H2(1) by (auto simp: is_ok_iff)
qed


lemma demo_revoked:
  "\<exists>r s' w'. TransactionMiddleware quiet_env ''DELETE'' (gateway2 default_http_status
       (agrpc_RemoveAllowedAppFromGroup quiet_env (Client ref_sdk) ''g1'' ''app'') [permission_tuple (''g1'', ''app'')])
       background (world_of demo_tables) = ((200, (r, s')), w')"
proof -
  let ?op = "agrpc_RemoveAllowedAppFromGroup quiet_env (Client ref_sdk) ''g1'' ''app''" and ?s = "[permission_tuple (''g1'', ''app'')]"
    and ?c = "background\<lparr>ctx_lazy := True\<rparr>" and ?w = "(world_of demo_tables)\<lparr>w_lazyTx := None\<rparr>"
  let ?f = "sql_delete_apps_returning (\<lambda>a. ag_group_id a = ''g1'' \<and> ag_application_id a = ''app'')"
  obtain r w1 where ex: "db_exec quiet_env ?c ?f ?w = (r, w1)" by fastforce
  have "live ?c ?w" by (simp add: live_def)
  from db_exec_no_faults [OF _ quiet_env_simps(1) this ex] obtain a where "r = Inr a"
    by (auto simp: sql_delete_apps_returning_def)
  with ex have db: "RemoveAllowedApp quiet_env ?c ''g1'' ''app'' ?w = (Inr (), w1)"
    by (cases a) (simp add: RemoveAllowedApp_def exec_result_def)
  obtain x s1 where op: "?op ?c (?w, ?s) = (Inr x, (w1, s1))"
    by (simp add: agrpc_RemoveAllowedAppFromGroup_def asvc_RemoveAllowedAppFromGroup_def db authorizer_RemoveAllowedAppFromGroup_def
        DeleteTuple_def ref_sdk_def)
  then have h: "gateway2 default_http_status ?op ?s ?c ?w = ((200, (Inr x, s1)), w1)"
    by (simp add: gateway2_def http_StatusOK_def)
  obtain resp w' where t: "TransactionMiddleware quiet_env ''DELETE'' (gateway2 default_http_status ?op ?s) background (world_of demo_tables)
      = (resp, w')" by fastforce
  have "''DELETE'' \<noteq> ''GET''" "''DELETE'' \<noteq> ''HEAD''" by simp_all
  from disallow.commit_is_all_or_nothing [OF quiet_env_simps(2) this h t] t show ?thesis by blast
qed

theorem permission_edits_take_effect_witness:
  "\<exists>r2 s2 w2. TransactionMiddleware quiet_env ''DELETE'' (gateway2 default_http_status
       (agrpc_RemoveAllowedAppFromGroup quiet_env (Client ref_sdk) ''g1'' ''app'') [permission_tuple (''g1'', ''app'')])
       background (world_of demo_tables) = ((200, (r2, s2)), w2)
     \<and> (\<exists>w' s'. ProcessRequest [StorageHookGroupsClient_FetchUserGroups quiet_env hook_ctx] (Client ref_sdk) NoopValidator Ran Refused
           (NewUserFromHookRequest (demo_request Map.empty)) (demo_request Map.empty) (w2\<lparr>w_lazyTx := None\<rparr>, s2, ())
         = (Returns (Inl (access_denied (NewUserFromHookRequest (demo_request Map.empty)) (demo_request Map.empty))), (w', s', ())))"
proof -
  let ?s = "[permission_tuple (''g1'', ''app'')]" and ?w = "world_of demo_tables" and ?q = "demo_request Map.empty"
  from demo_revoked obtain r2 s2 w2 where revoke: "TransactionMiddleware quiet_env ''DELETE'' (gateway2 default_http_status
       (agrpc_RemoveAllowedAppFromGroup quiet_env (Client ref_sdk) ''g1'' (th_ClientID ?q)) ?s) background ?w = ((200, (r2, s2)), w2)"
    by auto
  obtain code1 r1 s1 w1 where grant: "TransactionMiddleware quiet_env ''POST'' (gateway2 default_http_status
       (agrpc_AddAllowedAppToGroup quiet_env (Client ref_sdk) ''g1'' (Some \<lparr>pb_ClientId = th_ClientID ?q\<rparr>)) ?s) background ?w
       = ((code1, (r1, s1)), w1)" by (metis prod.exhaust)
  have hyp: "wf_world ?w" "in_sync set (w_primary ?w) ?s" "\<not> isServiceAccount (th_GrantTypes ?q)" "extractTenantID ?q = []"
    "u_Email (NewUserFromHookRequest ?q) \<noteq> []" "\<forall>t. env_commit quiet_env t = None"
    by (simp_all add: in_sync_def string_at_def)
  from permission_edits_take_effect [OF ref_laws(1,2) ref_sdk_answers quiet_env_simps(1,2) hyp(6) default_http_status_errors hyp(1-4) refl hyp(5) grant revoke,
      of NoopValidator Refused "()"] revoke show ?thesis by auto
qed

end
